theory Spec2Isabelle
  imports
    Main
    "HOL-Library.AList"
    "HOL-Library.Sublist"
    "HOL-Library.Multiset"
    "HOL-Library.Char_ord"
    "HOL-Library.List_Lexorder"
begin

section \<open>Python primitives used by the pipelines\<close>

text \<open>
  Strings are byte lists (\<^typ>\<open>string\<close>), read as UTF-8. Prefix and substring tests on
  UTF-8 bytes agree with Python's tests on code points.

  \<open>str.lower()\<close> lower-cases every cased letter of Unicode. Where the pipelines compare
  lower-cased strings with each other (the track names of ArtistDeepDive), it is a
  parameter of the model, \<open>str_lower\<close> below. Where they look for the ASCII keywords of
  the taxonomy in a lower-cased genre tag, it is \<open>lower\<close>, which lower-cases the ASCII
  letters and leaves every other byte as it is.
\<close>

definition lower_char :: "char \<Rightarrow> char" where
  "lower_char c =
     (case map_of (zip ''ABCDEFGHIJKLMNOPQRSTUVWXYZ'' ''abcdefghijklmnopqrstuvwxyz'') c of
        None \<Rightarrow> c
      | Some d \<Rightarrow> d)"

definition lower :: "string \<Rightarrow> string" where
  "lower s = map lower_char s"

text \<open>\<open>kw in g\<close> on strings: \<open>kw\<close> occurs in \<open>g\<close> as a contiguous block.\<close>

fun contains :: "string \<Rightarrow> string \<Rightarrow> bool" where
  "contains kw [] = (kw = [])"
| "contains kw (c # cs) = (prefix kw (c # cs) \<or> contains kw cs)"

text \<open>\<open>s.split(d)\<close> with a one-character separator: never empty, one more piece than separators.\<close>

fun split_on :: "char \<Rightarrow> string \<Rightarrow> string list" where
  "split_on d [] = [[]]"
| "split_on d (c # cs) =
     (if c = d then [] # split_on d cs
      else (case split_on d cs of
              [] \<Rightarrow> [[c]]
            | w # ws \<Rightarrow> (c # w) # ws))"

text \<open>\<open>s.split()\<close>: the maximal runs of non-whitespace characters (ASCII whitespace).\<close>

definition is_space :: "char \<Rightarrow> bool" where
  "is_space c = (c \<in> set [CHR '' '', CHR 0x09, CHR 0x0A, CHR 0x0B, CHR 0x0C, CHR 0x0D,
                            CHR 0x1C, CHR 0x1D, CHR 0x1E, CHR 0x1F])"

fun split_ws_acc :: "string \<Rightarrow> string \<Rightarrow> string list" where
  "split_ws_acc w [] = (if w = [] then [] else [w])"
| "split_ws_acc w (c # cs) =
     (if is_space c then (if w = [] then split_ws_acc [] cs else w # split_ws_acc [] cs)
      else split_ws_acc (w @ [c]) cs)"

definition split_ws :: "string \<Rightarrow> string list" where
  "split_ws s = split_ws_acc [] s"

text \<open>\<open>xs[:n]\<close> for an integer \<open>n\<close>: a negative \<open>n\<close> counts from the end.\<close>

definition slice_to :: "int \<Rightarrow> 'a list \<Rightarrow> 'a list" where
  "slice_to n xs =
     (if 0 \<le> n then take (nat n) xs else take (length xs - nat (- n)) xs)"

text \<open>
  \<open>for i in range(0, len(xs), step): batch = xs[i:i+step]\<close>: the offsets visited and the
  batch cut at each of them.
\<close>

definition range_step :: "nat \<Rightarrow> nat \<Rightarrow> nat list" where
  "range_step len step = map (\<lambda>k. k * step) [0 ..< (len + step - 1) div step]"

definition batches :: "nat \<Rightarrow> 'a list \<Rightarrow> 'a list list" where
  "batches step xs = map (\<lambda>i. take step (drop i xs)) (range_step (length xs) step)"

text \<open>Adding to a Python \<open>set\<close>, kept as a list without repetitions.\<close>

definition set_add :: "'a \<Rightarrow> 'a list \<Rightarrow> 'a list" where
  "set_add x xs = (if x \<in> set xs then xs else xs @ [x])"

text \<open>The optional value \<open>v\<close> is truthy: present and not the empty string.\<close>

definition truthy :: "string option \<Rightarrow> bool" where
  "truthy v = (case v of None \<Rightarrow> False | Some x \<Rightarrow> x \<noteq> [])"

definition show_opt :: "string option \<Rightarrow> string" where
  "show_opt v = (case v of None \<Rightarrow> ''None'' | Some x \<Rightarrow> x)"

text \<open>\<open>f"'{x}'"\<close>: the text between two apostrophes.\<close>

definition quoted :: "string \<Rightarrow> string" where
  "quoted x = [CHR 0x27] @ x @ [CHR 0x27]"

text \<open>
  \<open>list(s)\<close> for a set \<open>s\<close> of strings enumerates it in the order of the interpreter's
  hash table, which changes from run to run: every order is possible. The order is a
  parameter: for the set built by inserting \<open>xs\<close> (without repetitions), \<open>order xs\<close> ranks
  its elements, and the enumeration is the set sorted by that rank. Every enumeration of
  the set is obtained from some \<open>order\<close>, and nothing else is.
\<close>

definition list_of_set :: "('a list \<Rightarrow> 'a \<Rightarrow> nat) \<Rightarrow> 'a list \<Rightarrow> 'a list" where
  "list_of_set order xs = sort_key (order xs) xs"

section \<open>Tool arguments\<close>

text \<open>
  The arguments of a tool call are a JSON object. A key whose schema type is
  \<open>Optional[...]\<close> may be absent, hold \<open>null\<close>, or hold a value of the type.
  \<open>arguments.get(k, d)\<close> gives the default \<open>d\<close> for an absent key only, and \<open>None\<close> for
  \<open>null\<close>. A key read with \<open>arguments.get(k)\<close> is an optional value, \<open>None\<close> when the
  key is absent or \<open>null\<close>.
\<close>

datatype 'a arg = Absent | Null | Given 'a

definition get_or :: "'a \<Rightarrow> 'a arg \<Rightarrow> 'a option" where
  "get_or d a = (case a of Absent \<Rightarrow> Some d | Null \<Rightarrow> None | Given v \<Rightarrow> Some v)"

text \<open>The truth value of an optional flag: \<open>None\<close> and \<open>False\<close> are falsy.\<close>

definition is_set :: "bool option \<Rightarrow> bool" where
  "is_set v = (v = Some True)"

text \<open>
  The messages of the \<open>TypeError\<close>s that a \<open>None\<close> raises (CPython 3.10 and later):
  \<open>min(None, 50)\<close> and \<open>n < None\<close> compare an integer with \<open>None\<close>, and \<open>int(None)\<close>
  converts it.
\<close>

definition less_than_none_text :: string where
  "less_than_none_text =
     quoted ''<'' @ '' not supported between instances of '' @ quoted ''int''
       @ '' and '' @ quoted ''NoneType''"

definition int_of_none_text :: string where
  "int_of_none_text =
     ''int() argument must be a string, a bytes-like object or a real number, not ''
       @ quoted ''NoneType''"

section \<open>Catalog data\<close>

text \<open>
  The catalog's objects are dictionaries; a field the code reads with \<open>.get\<close> is optional
  here (\<open>None\<close> when the key is absent), a field it reads with \<open>[...]\<close> is always there.
  The artists of a track are a list, empty when the key is absent: the code tests
  \<open>track.get('artists')\<close> for both at once. Popularities are integers of any size.
\<close>

record artist =
  ar_id :: string
  ar_name :: string
  ar_genres :: "string list option"

record track =
  tr_id :: string
  tr_name :: string
  tr_artists :: "artist list"
  tr_popularity :: "int option"
  tr_duration_ms :: "int option"

record album =
  al_id :: string
  al_name :: string

record playlist =
  pl_id :: string
  pl_name :: string
  pl_owner_id :: string

text \<open>An entry of a playlist's parsed track list, read with \<open>t.get('id')\<close>.\<close>

record playlist_item =
  item_id :: "string option"

definition genres_or_empty :: "artist \<Rightarrow> string list" where
  "genres_or_empty a = (case ar_genres a of None \<Rightarrow> [] | Some gs \<Rightarrow> gs)"

definition popularity_or :: "int \<Rightarrow> track \<Rightarrow> int" where
  "popularity_or d t = (case tr_popularity t of None \<Rightarrow> d | Some p \<Rightarrow> p)"

text \<open>\<open>track['artists'][0]['id'] if track.get('artists') else None\<close>\<close>

definition primary_artist_id :: "track \<Rightarrow> string option" where
  "primary_artist_id t = (case tr_artists t of [] \<Rightarrow> None | a # _ \<Rightarrow> Some (ar_id a))"

section \<open>The collaborator: the Spotify client\<close>

text \<open>
  Every call to the client may raise, and may change the remote state. The remote state is
  a value of an arbitrary type \<open>'w\<close>; a call takes it and returns the outcome with the new
  state. The calls issued are logged in order.

  The pipelines of server.py call the methods of \<open>spotify_client\<close>; each method is one
  operation of the record \<open>client\<close>, named as the method. Three methods are translated
  from spotify\_api.py instead, over the library calls they make: \<open>get_track\<close> (over
  \<open>sp.track\<close>), \<open>get_artists_for_tracks\<close> (over \<open>sp.tracks\<close>) and
  \<open>get_artists_genres\<close> (over \<open>sp.artists\<close>). The methods \<open>get_artist\<close>,
  \<open>search_by_genre\<close>, \<open>get_recent_track_ids\<close> and \<open>get_user_saved_track_ids\<close> are
  called by server.py only; what they return is a parameter like every other response.
  \<^item> \<open>search_artists q\<close> is \<open>search(q, qtype="artist", limit=1)\<close> read with
    \<open>.get('artists')\<close>: the artists found, none when the key is absent;
  \<^item> \<open>current_user_id\<close> is \<open>sp.current_user()['id']\<close>;
  \<^item> \<open>get_album_tracks_full\<close> returns the tracks, the release date and the album type;
  \<^item> \<open>create_playlist name description\<close> returns the playlist created;
  \<^item> \<open>include_singles\<close> and \<open>year_range\<close> are passed on as the arguments give them,
    \<open>None\<close> for a \<open>null\<close>.
  The record also holds what a run takes from the interpreter, none of it a call:
  \<^item> \<open>month_year\<close> reads the clock, \<open>datetime.now().strftime("%b %Y")\<close>;
  \<^item> \<open>str_lower\<close> is \<open>str.lower()\<close>;
  \<^item> \<open>set_order\<close> is the order in which a set of strings is enumerated.
\<close>

datatype error = SpotifyException string | Exception string

datatype call =
    Search string string nat
  | GetArtist string
  | SpTrack string
  | GetArtistAlbums string "bool option"
  | GetAlbumTracksFull string
  | GetArtistTopTracks string
  | GetAllPlaylists
  | CurrentUser
  | GetPlaylistTracks string
  | SpTracks "string list"
  | SpArtists "string list"
  | ChangePlaylistDetails string string
  | CreatePlaylist string string
  | AddTracksToPlaylist string "string list"
  | GetTopTracks string nat
  | GetTopArtists string nat
  | GetRecentTrackIds nat
  | GetUserSavedTrackIds nat
  | SearchByGenre string "string option" nat

record 'w client =
  search_artists :: "string \<Rightarrow> 'w \<Rightarrow> (error + artist list) \<times> 'w"
  get_artist :: "string \<Rightarrow> 'w \<Rightarrow> (error + artist) \<times> 'w"
  sp_track :: "string \<Rightarrow> 'w \<Rightarrow> (error + track) \<times> 'w"
  get_artist_albums :: "string \<Rightarrow> bool option \<Rightarrow> 'w \<Rightarrow> (error + album list) \<times> 'w"
  get_album_tracks_full :: "string \<Rightarrow> 'w \<Rightarrow> (error + track list \<times> string \<times> string) \<times> 'w"
  get_artist_top_tracks :: "string \<Rightarrow> 'w \<Rightarrow> (error + track list) \<times> 'w"
  get_all_playlists :: "'w \<Rightarrow> (error + playlist list) \<times> 'w"
  current_user_id :: "'w \<Rightarrow> (error + string) \<times> 'w"
  get_playlist_tracks :: "string \<Rightarrow> 'w \<Rightarrow> (error + playlist_item option list) \<times> 'w"
  sp_tracks :: "string list \<Rightarrow> 'w \<Rightarrow> (error + track option list) \<times> 'w"
  sp_artists :: "string list \<Rightarrow> 'w \<Rightarrow> (error + artist option list) \<times> 'w"
  change_playlist_details :: "string \<Rightarrow> string \<Rightarrow> 'w \<Rightarrow> (error + unit) \<times> 'w"
  create_playlist :: "string \<Rightarrow> string \<Rightarrow> 'w \<Rightarrow> (error + playlist) \<times> 'w"
  add_tracks_to_playlist :: "string \<Rightarrow> string list \<Rightarrow> 'w \<Rightarrow> (error + unit) \<times> 'w"
  get_top_tracks :: "string \<Rightarrow> nat \<Rightarrow> 'w \<Rightarrow> (error + track list) \<times> 'w"
  get_top_artists :: "string \<Rightarrow> nat \<Rightarrow> 'w \<Rightarrow> (error + artist list) \<times> 'w"
  get_recent_track_ids :: "nat \<Rightarrow> 'w \<Rightarrow> (error + string list) \<times> 'w"
  get_user_saved_track_ids :: "nat \<Rightarrow> 'w \<Rightarrow> (error + string list) \<times> 'w"
  search_by_genre :: "string \<Rightarrow> string option \<Rightarrow> nat \<Rightarrow> 'w \<Rightarrow> (error + track list) \<times> 'w"
  month_year :: "'w \<Rightarrow> string"
  str_lower :: "string \<Rightarrow> string"
  set_order :: "string list \<Rightarrow> string \<Rightarrow> nat"

type_synonym 'w state = "'w \<times> call list"

type_synonym ('a, 'w) action = "'w state \<Rightarrow> (error + 'a) \<times> 'w state"

definition invoke :: "call \<Rightarrow> ('w \<Rightarrow> (error + 'a) \<times> 'w) \<Rightarrow> ('a, 'w) action" where
  "invoke cl f s = (case f (fst s) of (r, w') \<Rightarrow> (r, (w', snd s @ [cl])))"

text \<open>Sequencing: an exception of the first action ends the sequence.\<close>

definition and_then :: "('a, 'w) action \<Rightarrow> ('a \<Rightarrow> ('b, 'w) action) \<Rightarrow> ('b, 'w) action" where
  "and_then m f s = (case m s of (Inl e, s') \<Rightarrow> (Inl e, s') | (Inr x, s') \<Rightarrow> f x s')"

definition return :: "'a \<Rightarrow> ('a, 'w) action" where
  "return x s = (Inr x, s)"

text \<open>Raising an exception: the state stays as it is.\<close>

definition raise :: "error \<Rightarrow> ('a, 'w) action" where
  "raise e s = (Inl e, s)"

section \<open>Batch retrieval (spotify\_api.py)\<close>

text \<open>
  \<^verbatim>\<open>
  def get_track(self, track_id):
      if track_id.startswith('spotify:track:'):
          track_id = track_id.split(':')[2]
      return self.sp.track(track_id)
  \<close>
  The prefix has two colons, so the split has a third piece.
\<close>

definition get_track :: "'w client \<Rightarrow> string \<Rightarrow> (track, 'w) action" where
  "get_track c track_id =
     (let track_id' = (if prefix ''spotify:track:'' track_id
                       then split_on CHR '':'' track_id ! 2 else track_id)
      in invoke (SpTrack track_id') (sp_track c track_id'))"

text \<open>
  \<^verbatim>\<open>
  def get_artists_for_tracks(self, track_ids):
      artist_ids = set()
      for i in range(0, len(track_ids), 50):
          batch = track_ids[i:i+50]
          tracks = self.sp.tracks(batch)['tracks']
          for t in tracks:
              if t and t.get('artists'):
                  artist_ids.add(t['artists'][0]['id'])
      return list(artist_ids)
  \<close>
  The loop keeps the set as the list of its elements in the order of their first
  insertion; \<open>list(artist_ids)\<close> enumerates it in the interpreter's order.
\<close>

definition add_primary_artist :: "string list \<Rightarrow> track option \<Rightarrow> string list" where
  "add_primary_artist artist_ids t =
     (case t of
        None \<Rightarrow> artist_ids
      | Some tr \<Rightarrow> (case tr_artists tr of
                     [] \<Rightarrow> artist_ids
                   | a # _ \<Rightarrow> set_add (ar_id a) artist_ids))"

fun get_artists_for_tracks_loop ::
  "'w client \<Rightarrow> string list list \<Rightarrow> string list \<Rightarrow> (string list, 'w) action" where
  "get_artists_for_tracks_loop c [] artist_ids s = (Inr artist_ids, s)"
| "get_artists_for_tracks_loop c (batch # rest) artist_ids s =
     (case invoke (SpTracks batch) (sp_tracks c batch) s of
        (Inl e, s') \<Rightarrow> (Inl e, s')
      | (Inr tracks, s') \<Rightarrow>
          get_artists_for_tracks_loop c rest (foldl add_primary_artist artist_ids tracks) s')"

definition get_artists_for_tracks :: "'w client \<Rightarrow> string list \<Rightarrow> (string list, 'w) action" where
  "get_artists_for_tracks c track_ids =
     and_then (get_artists_for_tracks_loop c (batches 50 track_ids) [])
     (\<lambda>artist_ids. return (list_of_set (set_order c) artist_ids))"

text \<open>
  \<^verbatim>\<open>
  def get_artists_genres(self, artist_ids):
      genres = {}
      for i in range(0, len(artist_ids), 50):
          batch = artist_ids[i:i+50]
          results = self.sp.artists(batch)['artists']
          for artist in results:
              if artist:
                  genres[artist['id']] = artist.get('genres', [])
      return genres
  \<close>
  The dictionary keeps its keys in the order of their first insertion.
\<close>

definition add_artist_genres ::
  "(string \<times> string list) list \<Rightarrow> artist option \<Rightarrow> (string \<times> string list) list" where
  "add_artist_genres genres a =
     (case a of
        None \<Rightarrow> genres
      | Some ar \<Rightarrow> AList.update (ar_id ar) (genres_or_empty ar) genres)"

fun get_artists_genres_loop ::
  "'w client \<Rightarrow> string list list \<Rightarrow> (string \<times> string list) list
     \<Rightarrow> ((string \<times> string list) list, 'w) action" where
  "get_artists_genres_loop c [] genres s = (Inr genres, s)"
| "get_artists_genres_loop c (batch # rest) genres s =
     (case invoke (SpArtists batch) (sp_artists c batch) s of
        (Inl e, s') \<Rightarrow> (Inl e, s')
      | (Inr results, s') \<Rightarrow>
          get_artists_genres_loop c rest (foldl add_artist_genres genres results) s')"

definition get_artists_genres ::
  "'w client \<Rightarrow> string list \<Rightarrow> ((string \<times> string list) list, 'w) action" where
  "get_artists_genres c artist_ids = get_artists_genres_loop c (batches 50 artist_ids) []"

section \<open>Replies of the tool handler (server.py)\<close>

text \<open>
  A tool call answers with one text: a plain message, or the JSON dump of a result. An
  exception that reaches \<open>handle_call_tool\<close>'s own \<open>try\<close> becomes a message.
\<close>

datatype 'r reply = Text string | Json 'r

definition error_text :: "error \<Rightarrow> string" where
  "error_text e =
     (case e of
        SpotifyException m \<Rightarrow> ''An error occurred with the Spotify Client: '' @ m
      | Exception m \<Rightarrow> ''Unexpected error occurred: '' @ m)"

definition handle :: "('r reply, 'w) action \<Rightarrow> 'w state \<Rightarrow> 'r reply \<times> 'w state" where
  "handle body s =
     (case body s of
        (Inl e, s') \<Rightarrow> (Text (error_text e), s')
      | (Inr r, s') \<Rightarrow> (r, s'))"

text \<open>A playlist this run created, as the result reports it.\<close>

record created =
  created_name :: string
  created_id :: string
  track_count :: nat

section \<open>ArtistDeepDive\<close>

text \<open>One entry of \<open>all_tracks\<close>, as the collection loop of ArtistDeepDive builds it.\<close>

record dd_track =
  dd_id :: string
  dd_name :: string
  dd_popularity :: int
  dd_release_date :: string
  dd_album_type :: string
  dd_album_name :: string

text \<open>
  \<^verbatim>\<open>
  seen = {}
  for track in all_tracks:
      key = track['name'].lower()
      if key not in seen or track['popularity'] > seen[key]['popularity']:
          seen[key] = track
  unique_tracks = list(seen.values())
  \<close>
  The dictionary \<open>seen\<close> keeps its keys in the order of their first insertion, and
  assigning to a key that is present keeps the key's place: an association list updated
  with \<^const>\<open>AList.update\<close>. The names are lower-cased by \<open>str.lower()\<close>, the parameter
  \<open>lowercase\<close>.
\<close>

definition dedup_step ::
  "(string \<Rightarrow> string) \<Rightarrow> (string \<times> dd_track) list \<Rightarrow> dd_track \<Rightarrow> (string \<times> dd_track) list" where
  "dedup_step lowercase seen track =
     (let key = lowercase (dd_name track) in
      case map_of seen key of
        None \<Rightarrow> AList.update key track seen
      | Some kept \<Rightarrow>
          if dd_popularity track > dd_popularity kept
          then AList.update key track seen
          else seen)"

definition unique_tracks :: "(string \<Rightarrow> string) \<Rightarrow> dd_track list \<Rightarrow> dd_track list" where
  "unique_tracks lowercase all_tracks = map snd (foldl (dedup_step lowercase) [] all_tracks)"

text \<open>
  \<^verbatim>\<open>
  for album in albums:
      try:
          tracks, release_date, album_type = spotify_client.get_album_tracks_full(album['id'])
          for track in tracks:
              full_track = spotify_client.get_track(track['id'])
              all_tracks.append({'id': track['id'], 'name': track['name'],
                                 'popularity': full_track.get('popularity', 0),
                                 'release_date': release_date, 'album_type': album_type,
                                 'album_name': album['name']})
      except Exception as e:
          continue
  \<close>
  An exception ends the album at hand; the entries appended before it stay.
\<close>

definition all_tracks_entry :: "track \<Rightarrow> track \<Rightarrow> string \<Rightarrow> string \<Rightarrow> album \<Rightarrow> dd_track" where
  "all_tracks_entry track full_track release_date album_type album =
     \<lparr>dd_id = tr_id track, dd_name = tr_name track,
      dd_popularity = popularity_or 0 full_track,
      dd_release_date = release_date, dd_album_type = album_type,
      dd_album_name = al_name album\<rparr>"

fun collect_album_tracks ::
  "'w client \<Rightarrow> album \<Rightarrow> string \<Rightarrow> string \<Rightarrow> track list \<Rightarrow> dd_track list \<Rightarrow> 'w state
     \<Rightarrow> dd_track list \<times> 'w state" where
  "collect_album_tracks c album release_date album_type [] all_tracks s = (all_tracks, s)"
| "collect_album_tracks c album release_date album_type (track # rest) all_tracks s =
     (case get_track c (tr_id track) s of
        (Inl e, s') \<Rightarrow> (all_tracks, s')
      | (Inr full_track, s') \<Rightarrow>
          collect_album_tracks c album release_date album_type rest
            (all_tracks @ [all_tracks_entry track full_track release_date album_type album]) s')"

fun collect_tracks ::
  "'w client \<Rightarrow> album list \<Rightarrow> dd_track list \<Rightarrow> 'w state \<Rightarrow> dd_track list \<times> 'w state" where
  "collect_tracks c [] all_tracks s = (all_tracks, s)"
| "collect_tracks c (album # rest) all_tracks s =
     (case invoke (GetAlbumTracksFull (al_id album)) (get_album_tracks_full c (al_id album)) s of
        (Inl e, s') \<Rightarrow> collect_tracks c rest all_tracks s'
      | (Inr (tracks, release_date, album_type), s') \<Rightarrow>
          (case collect_album_tracks c album release_date album_type tracks all_tracks s' of
             (all_tracks', s'') \<Rightarrow> collect_tracks c rest all_tracks' s''))"

text \<open>
  \<^verbatim>\<open>
  best_of_tracks = sorted(unique_tracks, key=lambda x: x['popularity'], reverse=True)[:20]
  best_of_ids = set(t['id'] for t in best_of_tracks)
  deep_cuts = [t for t in unique_tracks
               if t['popularity'] < deep_cuts_threshold
               and t['id'] not in best_of_ids
               and t['album_type'] == 'album']
  deep_cuts = sorted(deep_cuts, key=lambda x: x['popularity'])[:25]
  chronological = sorted(unique_tracks, key=lambda x: x['release_date'])
  \<close>
  \<open>sorted\<close> is stable, also with \<open>reverse=True\<close>: entries of equal popularity keep their
  order, which is the stable sort by the negated key.
\<close>

definition best_of_tracks :: "dd_track list \<Rightarrow> dd_track list" where
  "best_of_tracks unique = take 20 (sort_key (\<lambda>x. - dd_popularity x) unique)"

definition deep_cuts :: "int \<Rightarrow> dd_track list \<Rightarrow> dd_track list" where
  "deep_cuts deep_cuts_threshold unique =
     (let best_of_ids = set (map dd_id (best_of_tracks unique)) in
      take 25 (sort_key dd_popularity
        (filter (\<lambda>t. dd_popularity t < deep_cuts_threshold
                      \<and> dd_id t \<notin> best_of_ids
                      \<and> dd_album_type t = ''album'') unique)))"

definition chronological :: "dd_track list \<Rightarrow> dd_track list" where
  "chronological unique = sort_key dd_release_date unique"

text \<open>
  \<^verbatim>\<open>
  for i in range(0, len(track_ids), 100):
      spotify_client.add_tracks_to_playlist(chrono_playlist['id'], track_ids[i:i+100])
  \<close>
\<close>

fun add_batches :: "'w client \<Rightarrow> string \<Rightarrow> string list list \<Rightarrow> (unit, 'w) action" where
  "add_batches c playlist_id [] s = (Inr (), s)"
| "add_batches c playlist_id (batch # rest) s =
     (case invoke (AddTracksToPlaylist playlist_id batch)
             (add_tracks_to_playlist c playlist_id batch) s of
        (Inl e, s') \<Rightarrow> (Inl e, s')
      | (Inr u, s') \<Rightarrow> add_batches c playlist_id rest s')"

text \<open>
  With \<open>deep_cuts_max_popularity\<close> \<open>null\<close> the comparison \<open>t['popularity'] < None\<close>
  raises at the first track; without tracks nothing is compared.
\<close>

definition select_deep_cuts :: "int option \<Rightarrow> dd_track list \<Rightarrow> (dd_track list, 'w) action" where
  "select_deep_cuts deep_cuts_threshold unique =
     (case deep_cuts_threshold of
        Some threshold \<Rightarrow> return (deep_cuts threshold unique)
      | None \<Rightarrow> if unique = [] then return [] else raise (Exception less_than_none_text))"

text \<open>
  Steps 5 to 7: the three playlists are created and filled in turn, each selection being
  computed before its playlist is created.
  \<^verbatim>\<open>
  best_of_tracks = sorted(...)[:20]
  best_of_ids = set(t['id'] for t in best_of_tracks)
  best_of_playlist = spotify_client.create_playlist(name=f"Best of {artist_display_name}",
      description=f"Top 20 most popular tracks by {artist_display_name}")
  if best_of_tracks:
      spotify_client.add_tracks_to_playlist(best_of_playlist['id'], [t['id'] for t in best_of_tracks])
  deep_cuts = ...
  deep_cuts_playlist = spotify_client.create_playlist(name=f"{artist_display_name}: Deep Cuts",
      description=f"Hidden gems and lesser-known tracks by {artist_display_name}")
  if deep_cuts:
      spotify_client.add_tracks_to_playlist(deep_cuts_playlist['id'], [t['id'] for t in deep_cuts])
  chronological = sorted(unique_tracks, key=lambda x: x['release_date'])
  chrono_playlist = spotify_client.create_playlist(name=f"{artist_display_name}: Through the Years",
      description=f"Complete discography of {artist_display_name} in chronological order")
  if chronological:
      track_ids = [t['id'] for t in chronological]
      for i in range(0, len(track_ids), 100):
          spotify_client.add_tracks_to_playlist(chrono_playlist['id'], track_ids[i:i+100])
  \<close>
  The value is the result's \<open>playlists_created\<close>.
\<close>

definition create_playlists ::
  "'w client \<Rightarrow> string \<Rightarrow> int option \<Rightarrow> dd_track list \<Rightarrow> (created list, 'w) action" where
  "create_playlists c artist_display_name deep_cuts_threshold unique =
     (let best_of = best_of_tracks unique;
          best_of_name = ''Best of '' @ artist_display_name;
          best_of_description = ''Top 20 most popular tracks by '' @ artist_display_name
      in
      and_then (invoke (CreatePlaylist best_of_name best_of_description)
                  (create_playlist c best_of_name best_of_description))
      (\<lambda>best_of_playlist.
      and_then (if best_of \<noteq> []
                then invoke (AddTracksToPlaylist (pl_id best_of_playlist) (map dd_id best_of))
                       (add_tracks_to_playlist c (pl_id best_of_playlist) (map dd_id best_of))
                else return ())
      (\<lambda>u1.
      and_then (select_deep_cuts deep_cuts_threshold unique)
      (\<lambda>cuts.
      (let cuts_name = artist_display_name @ '': Deep Cuts'';
           cuts_description = ''Hidden gems and lesser-known tracks by '' @ artist_display_name
       in
      and_then (invoke (CreatePlaylist cuts_name cuts_description)
                  (create_playlist c cuts_name cuts_description))
      (\<lambda>deep_cuts_playlist.
      and_then (if cuts \<noteq> []
                then invoke (AddTracksToPlaylist (pl_id deep_cuts_playlist) (map dd_id cuts))
                       (add_tracks_to_playlist c (pl_id deep_cuts_playlist) (map dd_id cuts))
                else return ())
      (\<lambda>u2.
      (let chrono = chronological unique;
           chrono_name = artist_display_name @ '': Through the Years'';
           chrono_description =
             ''Complete discography of '' @ artist_display_name @ '' in chronological order''
       in
      and_then (invoke (CreatePlaylist chrono_name chrono_description)
                  (create_playlist c chrono_name chrono_description))
      (\<lambda>chrono_playlist.
      and_then (if chrono \<noteq> []
                then add_batches c (pl_id chrono_playlist) (batches 100 (map dd_id chrono))
                else return ())
      (\<lambda>u3.
      return
        [\<lparr>created_name = pl_name best_of_playlist, created_id = pl_id best_of_playlist,
           track_count = length best_of\<rparr>,
         \<lparr>created_name = pl_name deep_cuts_playlist, created_id = pl_id deep_cuts_playlist,
           track_count = length cuts\<rparr>,
         \<lparr>created_name = pl_name chrono_playlist, created_id = pl_id chrono_playlist,
           track_count = length chrono\<rparr>]))))))))))"

text \<open>
  The whole tool: find the artist (the first hit), fetch the albums, collect and
  deduplicate the tracks, then create and fill the three playlists. An exception outside
  the collection loop ends the run; what was created before it stays.
  \<^verbatim>\<open>
  artist_name = arguments.get("artist_name")
  include_singles = arguments.get("include_singles", True)
  deep_cuts_threshold = arguments.get("deep_cuts_max_popularity", 40)
  search_results = spotify_client.search(artist_name, qtype="artist", limit=1)
  if not search_results.get('artists'):
      return [types.TextContent(type="text", text=f"Artist '{artist_name}' not found.")]
  artist = search_results['artists'][0]
  artist_id = artist['id']
  artist_display_name = artist['name']
  albums = spotify_client.get_artist_albums(artist_id, include_singles=include_singles)
  ...
  result = {"artist": {"name": artist_display_name, "id": artist_id},
            "playlists_created": [...],
            "stats": {"total_albums_analyzed": len(albums),
                      "total_tracks_analyzed": len(unique_tracks)}}
  \<close>
  The schema requires \<open>artist_name\<close>, a string.
\<close>

record deep_dive_args =
  artist_name_arg :: string
  include_singles_arg :: "bool arg"
  deep_cuts_max_popularity_arg :: "int arg"

record deep_dive_result =
  result_artist_name :: string
  result_artist_id :: string
  playlists_created :: "created list"
  total_albums_analyzed :: nat
  total_tracks_analyzed :: nat

definition artist_deep_dive_body ::
  "'w client \<Rightarrow> deep_dive_args \<Rightarrow> (deep_dive_result reply, 'w) action" where
  "artist_deep_dive_body c arguments =
     (let artist_name = artist_name_arg arguments;
          include_singles = get_or True (include_singles_arg arguments);
          deep_cuts_threshold = get_or 40 (deep_cuts_max_popularity_arg arguments)
      in
      and_then (invoke (Search artist_name ''artist'' 1) (search_artists c artist_name))
      (\<lambda>artists. case artists of
         [] \<Rightarrow> return (Text (''Artist '' @ quoted artist_name @ '' not found.''))
       | artist # _ \<Rightarrow>
      (let artist_id = ar_id artist; artist_display_name = ar_name artist in
      and_then (invoke (GetArtistAlbums artist_id include_singles)
                  (get_artist_albums c artist_id include_singles))
      (\<lambda>albums.
      and_then (\<lambda>s. case collect_tracks c albums [] s of (all_tracks, s') \<Rightarrow> (Inr all_tracks, s'))
      (\<lambda>all_tracks.
      (let unique = unique_tracks (str_lower c) all_tracks in
      and_then (create_playlists c artist_display_name deep_cuts_threshold unique)
      (\<lambda>created_playlists.
      return (Json
        \<lparr>result_artist_name = artist_display_name,
         result_artist_id = artist_id,
         playlists_created = created_playlists,
         total_albums_analyzed = length albums,
         total_tracks_analyzed = length unique\<rparr>))))))))"

definition artist_deep_dive ::
  "'w client \<Rightarrow> deep_dive_args \<Rightarrow> 'w state \<Rightarrow> deep_dive_result reply \<times> 'w state" where
  "artist_deep_dive c arguments = handle (artist_deep_dive_body c arguments)"

section \<open>PlaylistLibrarian\<close>

text \<open>
  The taxonomy, in the order the dictionary literal lists it. Each label starts with an
  emoji, written here as its UTF-8 bytes.
\<close>

definition GENRE_CATEGORIES :: "(string \<times> string list) list" where
  "GENRE_CATEGORIES =
     [([CHR 0xF0, CHR 0x9F, CHR 0x8E, CHR 0xB8] @ '' Rock'',
         [''rock'', ''metal'', ''punk'', ''grunge'', ''alternative'', ''indie rock'', ''hard rock'']),
      ([CHR 0xF0, CHR 0x9F, CHR 0x8E, CHR 0xB5] @ '' Pop'',
         [''pop'', ''dance pop'', ''electropop'', ''synth-pop'', ''indie pop'']),
      ([CHR 0xF0, CHR 0x9F, CHR 0x8E, CHR 0xA4] @ '' Hip-Hop'',
         [''hip hop'', ''rap'', ''trap'', ''southern hip hop'', ''gangster rap'']),
      ([CHR 0xF0, CHR 0x9F, CHR 0x8E, CHR 0xA7] @ '' Electronic'',
         [''electronic'', ''edm'', ''house'', ''techno'', ''dubstep'', ''trance'', ''drum and bass'']),
      ([CHR 0xF0, CHR 0x9F, CHR 0x8E, CHR 0xB7] @ '' Jazz'',
         [''jazz'', ''bebop'', ''swing'', ''smooth jazz'', ''jazz fusion'']),
      ([CHR 0xF0, CHR 0x9F, CHR 0x8E, CHR 0xBB] @ '' Classical'',
         [''classical'', ''orchestra'', ''symphony'', ''baroque'', ''opera'']),
      ([CHR 0xF0, CHR 0x9F, CHR 0xA4, CHR 0xA0] @ '' Country'',
         [''country'', ''americana'', ''folk'', ''bluegrass'', ''country rock'']),
      ([CHR 0xF0, CHR 0x9F, CHR 0x8E, CHR 0xBA] @ '' R&B'',
         [''r&b'', ''soul'', ''funk'', ''neo soul'', ''motown'']),
      ([CHR 0xF0, CHR 0x9F, CHR 0x8C, CHR 0x8D] @ '' World'',
         [''latin'', ''reggae'', ''afrobeat'', ''k-pop'', ''j-pop'', ''reggaeton'', ''bossa nova'']),
      ([CHR 0xF0, CHR 0x9F, CHR 0x98, CHR 0xB4] @ '' Chill'',
         [''ambient'', ''lo-fi'', ''chill'', ''downtempo'', ''chillwave''])]"

text \<open>
  \<^verbatim>\<open>
  best_category = None
  best_score = 0
  for category, keywords in GENRE_CATEGORIES.items():
      score = sum(1 for g in all_genres if any(kw in g.lower() for kw in keywords))
      if score > best_score:
          best_score = score
          best_category = category
  \<close>
\<close>

definition genre_score :: "string list \<Rightarrow> string list \<Rightarrow> nat" where
  "genre_score keywords all_genres =
     sum_list (map (\<lambda>g. 1)
       (filter (\<lambda>g. list_ex (\<lambda>kw. contains kw (lower g)) keywords) all_genres))"

definition best_step ::
  "string list \<Rightarrow> string option \<times> nat \<Rightarrow> string \<times> string list \<Rightarrow> string option \<times> nat" where
  "best_step all_genres best entry =
     (case best of (best_category, best_score) \<Rightarrow>
      case entry of (category, keywords) \<Rightarrow>
        (let score = genre_score keywords all_genres in
         if score > best_score then (Some category, score) else (best_category, best_score)))"

definition best_category_of ::
  "(string \<times> string list) list \<Rightarrow> string list \<Rightarrow> string option \<times> nat" where
  "best_category_of categories all_genres = foldl (best_step all_genres) (None, 0) categories"

text \<open>The bookkeeping of the loop over the owned playlists.\<close>

record change =
  change_playlist_id :: string
  original_name :: string
  new_name :: string
  detected_category :: string
  applied :: bool

record librarian_state =
  changes :: "change list"
  category_counts :: "(string \<times> nat) list"
  skipped :: nat

definition skip :: "librarian_state \<Rightarrow> librarian_state" where
  "skip st = st\<lparr>skipped := skipped st + 1\<rparr>"

text \<open>\<open>[t['id'] for t in tracks if t and t.get('id')]\<close>\<close>

definition item_ids :: "playlist_item option list \<Rightarrow> string list" where
  "item_ids tracks =
     concat (map (\<lambda>t. case t of
                         None \<Rightarrow> []
                       | Some i \<Rightarrow> (if truthy (item_id i) then [show_opt (item_id i)] else []))
       tracks)"

text \<open>
  The part of the loop body after the genres are known (step 4 of the source): rename, count
  and record, or skip.
  \<^verbatim>\<open>
  if best_category and best_score > 0:
      if style == "emoji":
          new_name = f"{best_category}/{name}"
      else:
          text_cat = best_category.split()[1]
          new_name = f"[{text_cat}] {name}"
      changes.append({"playlist_id": playlist['id'], "original_name": name,
                      "new_name": new_name, "detected_category": best_category,
                      "applied": not dry_run})
      category_counts[best_category] += 1
      if not dry_run:
          try:
              spotify_client.change_playlist_details(playlist['id'], name=new_name)
          except Exception as e:
              changes[-1]["applied"] = False
  else:
      skipped += 1
  \<close>
  \<open>best_category.split()[1]\<close> raises when the label has one word, and
  \<open>category_counts[best_category] += 1\<close> when the label is no key; neither is caught in
  the loop. \<open>dry_run\<close> and \<open>style\<close> are \<open>None\<close> when the argument is \<open>null\<close>: then
  \<open>not dry_run\<close> holds and \<open>style == "emoji"\<close> does not.
\<close>

definition prefixed_name :: "string option \<Rightarrow> string \<Rightarrow> string \<Rightarrow> error + string" where
  "prefixed_name style best_category name =
     (if style = Some ''emoji'' then Inr (best_category @ ''/'' @ name)
      else (case split_ws best_category of
              w0 # text_cat # ws \<Rightarrow> Inr (''['' @ text_cat @ ''] '' @ name)
            | _ \<Rightarrow> Inl (Exception ''list index out of range'')))"

definition apply_change ::
  "'w client \<Rightarrow> bool option \<Rightarrow> librarian_state \<Rightarrow> playlist \<Rightarrow> string \<Rightarrow> string \<Rightarrow> nat
     \<Rightarrow> (librarian_state, 'w) action" where
  "apply_change c dry_run st playlist best_category new n s =
     (let entry = \<lparr>change_playlist_id = pl_id playlist, original_name = pl_name playlist,
                   new_name = new, detected_category = best_category,
                   applied = (\<not> is_set dry_run)\<rparr>;
          st' = st\<lparr>changes := changes st @ [entry],
                   category_counts := AList.update best_category (n + 1) (category_counts st)\<rparr>
      in
      if \<not> is_set dry_run then
        (case invoke (ChangePlaylistDetails (pl_id playlist) new)
                (change_playlist_details c (pl_id playlist) new) s of
           (Inl e, s') \<Rightarrow> (Inr (st'\<lparr>changes := changes st @ [entry\<lparr>applied := False\<rparr>]\<rparr>), s')
         | (Inr u, s') \<Rightarrow> (Inr st', s'))
      else (Inr st', s))"

definition categorize ::
  "'w client \<Rightarrow> bool option \<Rightarrow> string option \<Rightarrow> librarian_state \<Rightarrow> playlist \<Rightarrow> string list
     \<Rightarrow> (librarian_state, 'w) action" where
  "categorize c dry_run style st playlist all_genres s =
     (case best_category_of GENRE_CATEGORIES all_genres of (best_category, best_score) \<Rightarrow>
      if truthy best_category \<and> best_score > 0 then
        (case prefixed_name style (show_opt best_category) (pl_name playlist) of
           Inl e \<Rightarrow> (Inl e, s)
         | Inr new \<Rightarrow>
            (case map_of (category_counts st) (show_opt best_category) of
               None \<Rightarrow> (Inl (Exception (quoted (show_opt best_category))), s)
             | Some n \<Rightarrow> apply_change c dry_run st playlist (show_opt best_category) new n s))
      else (Inr (skip st), s))"

text \<open>
  One round of \<open>for playlist in owned\<close>: skip a name that starts with a category label,
  sample up to 30 tracks, resolve their artists and genres (any exception there skips the
  playlist), then categorize.
\<close>

definition librarian_step ::
  "'w client \<Rightarrow> bool option \<Rightarrow> string option \<Rightarrow> librarian_state \<Rightarrow> playlist \<Rightarrow> (librarian_state, 'w) action" where
  "librarian_step c dry_run style st playlist s =
     (let name = pl_name playlist in
      if list_ex (\<lambda>cat. prefix cat name) (map fst GENRE_CATEGORIES) then (Inr (skip st), s)
      else
        (case invoke (GetPlaylistTracks (pl_id playlist)) (get_playlist_tracks c (pl_id playlist)) s of
           (Inl e, s1) \<Rightarrow> (Inr (skip st), s1)
         | (Inr items, s1) \<Rightarrow>
            (let tracks = take 30 items in
             if tracks = [] then (Inr (skip st), s1)
             else
               (let track_ids = item_ids tracks in
                if track_ids = [] then (Inr (skip st), s1)
                else
                  (case get_artists_for_tracks c track_ids s1 of
                     (Inl e, s2) \<Rightarrow> (Inr (skip st), s2)
                   | (Inr artist_ids, s2) \<Rightarrow>
                      if artist_ids = [] then (Inr (skip st), s2)
                      else
                        (case get_artists_genres c artist_ids s2 of
                           (Inl e, s3) \<Rightarrow> (Inr (skip st), s3)
                         | (Inr artist_genres, s3) \<Rightarrow>
                             categorize c dry_run style st playlist
                               (concat (map snd artist_genres)) s3))))))"

fun librarian_loop ::
  "'w client \<Rightarrow> bool option \<Rightarrow> string option \<Rightarrow> playlist list \<Rightarrow> librarian_state \<Rightarrow> (librarian_state, 'w) action" where
  "librarian_loop c dry_run style [] st s = (Inr st, s)"
| "librarian_loop c dry_run style (playlist # rest) st s =
     (case librarian_step c dry_run style st playlist s of
        (Inl e, s') \<Rightarrow> (Inl e, s')
      | (Inr st', s') \<Rightarrow> librarian_loop c dry_run style rest st' s')"

record librarian_args =
  dry_run_arg :: "bool arg"
  category_style_arg :: "string arg"

record librarian_result =
  playlists_analyzed :: nat
  playlists_categorized :: nat
  playlists_skipped :: nat
  result_dry_run :: "bool option"
  result_changes :: "change list"
  category_summary :: "(string \<times> nat) list"

text \<open>
  \<^verbatim>\<open>
  dry_run = arguments.get("dry_run", True)
  style = arguments.get("category_style", "emoji")
  all_playlists = spotify_client.get_all_playlists()
  user_id = spotify_client.sp.current_user()['id']
  owned = [p for p in all_playlists if p['owner']['id'] == user_id]
  \<close>
\<close>

definition owned_playlists :: "string \<Rightarrow> playlist list \<Rightarrow> playlist list" where
  "owned_playlists user_id all_playlists = filter (\<lambda>p. pl_owner_id p = user_id) all_playlists"

definition playlist_librarian_body ::
  "'w client \<Rightarrow> librarian_args \<Rightarrow> (librarian_result reply, 'w) action" where
  "playlist_librarian_body c arguments =
     (let dry_run = get_or True (dry_run_arg arguments);
          style = get_or ''emoji'' (category_style_arg arguments)
      in
      and_then (invoke GetAllPlaylists (get_all_playlists c))
      (\<lambda>all_playlists.
      and_then (invoke CurrentUser (current_user_id c))
      (\<lambda>user_id.
      (let owned = owned_playlists user_id all_playlists;
           st0 = \<lparr>changes = [], category_counts = map (\<lambda>cat. (cat, 0)) (map fst GENRE_CATEGORIES),
                  skipped = 0\<rparr>
       in
      and_then (librarian_loop c dry_run style owned st0)
      (\<lambda>st.
      return (Json
        \<lparr>playlists_analyzed = length owned,
         playlists_categorized = length (changes st),
         playlists_skipped = skipped st,
         result_dry_run = dry_run,
         result_changes = changes st,
         category_summary = filter (\<lambda>kv. snd kv > 0) (category_counts st)\<rparr>))))))"

definition playlist_librarian ::
  "'w client \<Rightarrow> librarian_args \<Rightarrow> 'w state \<Rightarrow> librarian_result reply \<times> 'w state" where
  "playlist_librarian c arguments = handle (playlist_librarian_body c arguments)"

section \<open>MyTopMusic\<close>

text \<open>
  The percentages of the genre breakdown and the duration in hours are floating-point
  roundings of the integers kept here (\<open>bucket_counts\<close>, \<open>total_genres\<close>,
  \<open>total_duration_ms\<close>); the result carries those integers instead.
\<close>

record ranked_track =
  track_rank :: nat
  ranked_track_name :: string
  ranked_track_artist :: string
  ranked_track_id :: string

record ranked_artist =
  artist_rank :: nat
  ranked_artist_name :: string
  ranked_artist_genres :: "string list"

definition period_labels :: "(string \<times> string) list" where
  "period_labels =
     [(''short_term'', ''Last 4 Weeks''),
      (''medium_term'', ''Last 6 Months''),
      (''long_term'', ''All Time'')]"

text \<open>
  \<open>time_range in period_labels\<close> and \<open>period_labels[time_range]\<close>: the time range, when
  it is a key, with its label. \<open>None\<close> is no key.
\<close>

definition period_of :: "string option \<Rightarrow> (string \<times> string) option" where
  "period_of time_range =
     (case time_range of
        None \<Rightarrow> None
      | Some t \<Rightarrow> (case map_of period_labels t of None \<Rightarrow> None | Some label \<Rightarrow> Some (t, label)))"

text \<open>
  \<^verbatim>\<open>
  for i, track in enumerate(top_tracks[:top_count]):
      total_duration_ms += track.get('duration_ms', 0)
      top_tracks_display.append({"rank": i + 1, "name": track['name'],
                                 "artist": track['artists'][0]['name'], "id": track['id']})
  \<close>
  \<open>track['artists'][0]\<close> raises on a track without artists.
\<close>

fun top_tracks_display :: "nat \<Rightarrow> track list \<Rightarrow> error + ranked_track list" where
  "top_tracks_display i [] = Inr []"
| "top_tracks_display i (track # rest) =
     (case tr_artists track of
        [] \<Rightarrow> Inl (Exception ''list index out of range'')
      | a # _ \<Rightarrow>
         (case top_tracks_display (i + 1) rest of
            Inl e \<Rightarrow> Inl e
          | Inr ds \<Rightarrow>
              Inr (\<lparr>track_rank = i + 1, ranked_track_name = tr_name track,
                    ranked_track_artist = ar_name a, ranked_track_id = tr_id track\<rparr> # ds)))"

definition duration_or_zero :: "track \<Rightarrow> int" where
  "duration_or_zero t = (case tr_duration_ms t of None \<Rightarrow> 0 | Some d \<Rightarrow> d)"

fun top_artists_display :: "nat \<Rightarrow> artist list \<Rightarrow> ranked_artist list" where
  "top_artists_display i [] = []"
| "top_artists_display i (artist # rest) =
     \<lparr>artist_rank = i + 1, ranked_artist_name = ar_name artist,
      ranked_artist_genres = take 3 (genres_or_empty artist)\<rparr> # top_artists_display (i + 1) rest"

text \<open>
  \<^verbatim>\<open>
  for genre in all_genres:
      simple = genre.split()[0] if genre else "other"
      genre_counts[simple] = genre_counts.get(simple, 0) + 1
  \<close>
  \<open>genre.split()[0]\<close> raises on a tag of whitespace only.
\<close>

definition count_up :: "(string \<times> nat) list \<Rightarrow> string \<Rightarrow> (string \<times> nat) list" where
  "count_up counts k =
     AList.update k ((case map_of counts k of None \<Rightarrow> 0 | Some n \<Rightarrow> n) + 1) counts"

fun bucket_genres :: "(string \<times> nat) list \<Rightarrow> string list \<Rightarrow> error + (string \<times> nat) list" where
  "bucket_genres genre_counts [] = Inr genre_counts"
| "bucket_genres genre_counts (genre # rest) =
     (if genre = [] then bucket_genres (count_up genre_counts ''other'') rest
      else (case split_ws genre of
              [] \<Rightarrow> Inl (Exception ''list index out of range'')
            | simple # ws \<Rightarrow> bucket_genres (count_up genre_counts simple) rest))"

text \<open>
  The whole tool: the time range is validated before anything is fetched. A \<open>null\<close>
  \<open>top_count\<close> raises in \<open>int(None)\<close>, before the validation; a \<open>null\<close> \<open>time_range\<close> is
  \<open>None\<close>, no key of \<open>period_labels\<close>.
  \<^verbatim>\<open>
  time_range = arguments.get("time_range", "short_term")
  top_count = min(int(arguments.get("top_count", 10)), 50)
  create_playlist_flag = arguments.get("create_playlist", False)
  period_labels = {"short_term": "Last 4 Weeks", "medium_term": "Last 6 Months",
                   "long_term": "All Time"}
  if time_range not in period_labels:
      return [types.TextContent(type="text",
          text=f"Invalid time_range: {time_range}. Must be 'short_term', 'medium_term', or 'long_term'.")]
  top_tracks = spotify_client.get_top_tracks(time_range, limit=50)
  top_artists = spotify_client.get_top_artists(time_range, limit=50)
  ...
  genre_breakdown = {g: round(c / total_genres * 100)
                     for g, c in sorted(genre_counts.items(), key=lambda x: -x[1])[:5]}
  if create_playlist_flag and top_tracks:
      month_year = datetime.now().strftime("%b %Y")
      playlist = spotify_client.create_playlist(name=f"My Top Tracks - {month_year}", ...)
      track_ids = [t['id'] for t in top_tracks[:top_count]]
      spotify_client.add_tracks_to_playlist(playlist['id'], track_ids)
  \<close>
\<close>

record top_music_args =
  time_range_arg :: "string arg"
  top_count_arg :: "int arg"
  top_create_playlist_arg :: "bool arg"

record top_music_result =
  result_time_range :: string
  period_label :: string
  result_top_tracks :: "ranked_track list"
  result_top_artists :: "ranked_artist list"
  bucket_counts :: "(string \<times> nat) list"
  total_genres :: nat
  top_tracks_analyzed :: nat
  top_artists_analyzed :: nat
  total_duration_ms :: int
  recap_playlist :: "created option"

definition my_top_music_body ::
  "'w client \<Rightarrow> top_music_args \<Rightarrow> (top_music_result reply, 'w) action" where
  "my_top_music_body c arguments =
     (let time_range_read = get_or ''short_term'' (time_range_arg arguments) in
      case get_or 10 (top_count_arg arguments) of
        None \<Rightarrow> raise (Exception int_of_none_text)
      | Some n \<Rightarrow>
      (let top_count = min n 50;
           create_playlist_flag = get_or False (top_create_playlist_arg arguments)
       in
      case period_of time_range_read of
        None \<Rightarrow>
          return (Text (''Invalid time_range: '' @ show_opt time_range_read @ ''. Must be ''
                        @ quoted ''short_term'' @ '', '' @ quoted ''medium_term'' @ '', or ''
                        @ quoted ''long_term'' @ ''.''))
      | Some (time_range, label) \<Rightarrow>
      and_then (invoke (GetTopTracks time_range 50) (get_top_tracks c time_range 50))
      (\<lambda>top_tracks.
      and_then (invoke (GetTopArtists time_range 50) (get_top_artists c time_range 50))
      (\<lambda>top_artists.
      and_then (\<lambda>s. (top_tracks_display 0 (slice_to top_count top_tracks), s))
      (\<lambda>tracks_display.
      (let artists_display = top_artists_display 0 (slice_to top_count top_artists);
           all_genres = concat (map genres_or_empty (slice_to top_count top_artists))
       in
      and_then (\<lambda>s. (bucket_genres [] all_genres, s))
      (\<lambda>genre_counts.
      and_then
        (if is_set create_playlist_flag \<and> top_tracks \<noteq> [] then
           (\<lambda>s.
             (let name = ''My Top Tracks - '' @ month_year c (fst s);
                  description = ''Your top tracks for '' @ label;
                  track_ids = map tr_id (slice_to top_count top_tracks)
              in
              and_then (invoke (CreatePlaylist name description) (create_playlist c name description))
              (\<lambda>playlist.
              and_then (invoke (AddTracksToPlaylist (pl_id playlist) track_ids)
                          (add_tracks_to_playlist c (pl_id playlist) track_ids))
              (\<lambda>u.
              return (Some \<lparr>created_name = pl_name playlist, created_id = pl_id playlist,
                            track_count = length track_ids\<rparr>)))) s)
         else return None)
      (\<lambda>recap.
      return (Json
        \<lparr>result_time_range = time_range,
         period_label = label,
         result_top_tracks = tracks_display,
         result_top_artists = artists_display,
         bucket_counts = take 5 (sort_key (\<lambda>x. - int (snd x)) genre_counts),
         total_genres = (let total = sum_list (map snd genre_counts) in if total = 0 then 1 else total),
         top_tracks_analyzed = length top_tracks,
         top_artists_analyzed = length top_artists,
         total_duration_ms = sum_list (map duration_or_zero (slice_to top_count top_tracks)),
         recap_playlist = recap\<rparr>)))))))))"

definition my_top_music ::
  "'w client \<Rightarrow> top_music_args \<Rightarrow> 'w state \<Rightarrow> top_music_result reply \<times> 'w state" where
  "my_top_music c arguments = handle (my_top_music_body c arguments)"

section \<open>Discover\<close>

text \<open>A candidate, as steps 3 and 4 append it to \<open>recommendations\<close>.\<close>

record recommendation =
  rec_id :: string
  rec_name :: string
  rec_artist :: string
  rec_artist_id :: "string option"
  rec_popularity :: int
  rec_source_genre :: string

text \<open>
  The working sets of one invocation: the candidates in the order of their acceptance, the
  track ids seen, and the number of accepted genre-search tracks of each artist.
\<close>

record generation =
  recommendations :: "recommendation list"
  seen_track_ids :: "string set"
  artist_track_counts :: "string \<rightharpoonup> nat"

definition count_of :: "(string \<rightharpoonup> nat) \<Rightarrow> string \<Rightarrow> nat" where
  "count_of counts a = (case counts a of None \<Rightarrow> 0 | Some n \<Rightarrow> n)"

text \<open>
  \<^verbatim>\<open>
  for track in tracks:
      track_id = track['id']
      if track_id in seen_track_ids or track_id in exclude_ids:
          continue
      artist_id = track['artists'][0]['id'] if track.get('artists') else None
      if artist_id and artist_track_counts.get(artist_id, 0) >= 3:
          continue
      seen_track_ids.add(track_id)
      if artist_id:
          artist_track_counts[artist_id] = artist_track_counts.get(artist_id, 0) + 1
      recommendations.append({
          'id': track_id, 'name': track['name'],
          'artist': track['artists'][0]['name'] if track.get('artists') else 'Unknown',
          'artist_id': artist_id, 'popularity': track.get('popularity', 0),
          'source_genre': genre})
  \<close>
  \<open>if artist_id\<close> holds for an id that is present and not the empty string.
\<close>

definition accept_genre_track :: "string set \<Rightarrow> string \<Rightarrow> generation \<Rightarrow> track \<Rightarrow> generation" where
  "accept_genre_track exclude_ids genre g track =
     (let track_id = tr_id track in
      if track_id \<in> seen_track_ids g \<or> track_id \<in> exclude_ids then g
      else
        (let artist_id = primary_artist_id track in
         if truthy artist_id \<and> count_of (artist_track_counts g) (show_opt artist_id) \<ge> 3 then g
         else
           g\<lparr>seen_track_ids := insert track_id (seen_track_ids g),
             artist_track_counts :=
               (if truthy artist_id
                then (artist_track_counts g)
                       (show_opt artist_id \<mapsto> count_of (artist_track_counts g) (show_opt artist_id) + 1)
                else artist_track_counts g),
             recommendations := recommendations g @
               [\<lparr>rec_id = track_id, rec_name = tr_name track,
                 rec_artist = (case tr_artists track of [] \<Rightarrow> ''Unknown'' | a # _ \<Rightarrow> ar_name a),
                 rec_artist_id = artist_id,
                 rec_popularity = popularity_or 0 track,
                 rec_source_genre = genre\<rparr>]\<rparr>))"

text \<open>
  \<^verbatim>\<open>
  for genre in seed_genres:
      try:
          tracks = spotify_client.search_by_genre(genre, year_range=year_range, limit=20)
          for track in tracks: ...
      except Exception as e:
          continue
  \<close>
\<close>

fun genre_stage ::
  "'w client \<Rightarrow> string set \<Rightarrow> string option \<Rightarrow> string list \<Rightarrow> generation \<Rightarrow> 'w state
     \<Rightarrow> generation \<times> 'w state" where
  "genre_stage c exclude_ids year_range [] g s = (g, s)"
| "genre_stage c exclude_ids year_range (genre # rest) g s =
     (case invoke (SearchByGenre genre year_range 20) (search_by_genre c genre year_range 20) s of
        (Inl e, s') \<Rightarrow> genre_stage c exclude_ids year_range rest g s'
      | (Inr tracks, s') \<Rightarrow>
          genre_stage c exclude_ids year_range rest
            (foldl (accept_genre_track exclude_ids genre) g tracks) s')"

text \<open>
  \<^verbatim>\<open>
  for track in top_tracks[:3]:
      track_id = track['id']
      if track_id in seen_track_ids or track_id in exclude_ids:
          continue
      seen_track_ids.add(track_id)
      recommendations.append({
          'id': track_id, 'name': track['name'], 'artist': artist['name'],
          'artist_id': artist['id'], 'popularity': track.get('popularity', 0),
          'source_genre': 'top_artist_match'})
  \<close>
\<close>

definition accept_top_track :: "string set \<Rightarrow> artist \<Rightarrow> generation \<Rightarrow> track \<Rightarrow> generation" where
  "accept_top_track exclude_ids artist g track =
     (let track_id = tr_id track in
      if track_id \<in> seen_track_ids g \<or> track_id \<in> exclude_ids then g
      else
        g\<lparr>seen_track_ids := insert track_id (seen_track_ids g),
          recommendations := recommendations g @
            [\<lparr>rec_id = track_id, rec_name = tr_name track, rec_artist = ar_name artist,
              rec_artist_id = Some (ar_id artist),
              rec_popularity = popularity_or 0 track,
              rec_source_genre = ''top_artist_match''\<rparr>]\<rparr>)"

fun augment_loop ::
  "'w client \<Rightarrow> string set \<Rightarrow> artist list \<Rightarrow> generation \<Rightarrow> 'w state \<Rightarrow> generation \<times> 'w state" where
  "augment_loop c exclude_ids [] g s = (g, s)"
| "augment_loop c exclude_ids (artist # rest) g s =
     (case invoke (GetArtistTopTracks (ar_id artist)) (get_artist_top_tracks c (ar_id artist)) s of
        (Inl e, s') \<Rightarrow> augment_loop c exclude_ids rest g s'
      | (Inr top_tracks, s') \<Rightarrow>
          augment_loop c exclude_ids rest
            (foldl (accept_top_track exclude_ids artist) g (take 3 top_tracks)) s')"

text \<open>
  \<^verbatim>\<open>
  if seed_type in ["artist", "track"]:
      try:
          top_artists = spotify_client.get_top_artists(time_range="medium_term", limit=20)
          matching_artists = []
          for artist in top_artists:
              artist_genres = set(artist.get('genres', []))
              if artist_genres.intersection(seed_genres):
                  matching_artists.append(artist)
          for artist in matching_artists[:5]: ...
      except Exception as e:
          logger.error(...)
  \<close>
  The intersection is not empty when some genre of the artist is a seed genre.
\<close>

definition matching_artists :: "string list \<Rightarrow> artist list \<Rightarrow> artist list" where
  "matching_artists seed_genres top_artists =
     filter (\<lambda>artist. list_ex (\<lambda>x. x \<in> set seed_genres) (genres_or_empty artist)) top_artists"

definition augment_stage ::
  "'w client \<Rightarrow> string \<Rightarrow> string list \<Rightarrow> string set \<Rightarrow> generation \<Rightarrow> 'w state
     \<Rightarrow> generation \<times> 'w state" where
  "augment_stage c seed_type seed_genres exclude_ids g s =
     (if seed_type \<in> set [''artist'', ''track''] then
        (case invoke (GetTopArtists ''medium_term'' 20) (get_top_artists c ''medium_term'' 20) s of
           (Inl e, s') \<Rightarrow> (g, s')
         | (Inr top_artists, s') \<Rightarrow>
             augment_loop c exclude_ids (take 5 (matching_artists seed_genres top_artists)) g s')
      else (g, s))"

text \<open>
  \<^verbatim>\<open>
  exclude_ids = set()
  try:
      exclude_ids.update(spotify_client.get_recent_track_ids(limit=50))
      exclude_ids.update(spotify_client.get_user_saved_track_ids(limit=100))
  except Exception as e:
      logger.error(...)
  \<close>
\<close>

definition get_exclude_ids :: "'w client \<Rightarrow> 'w state \<Rightarrow> string set \<times> 'w state" where
  "get_exclude_ids c s =
     (case invoke (GetRecentTrackIds 50) (get_recent_track_ids c 50) s of
        (Inl e, s1) \<Rightarrow> ({}, s1)
      | (Inr recent, s1) \<Rightarrow>
         (case invoke (GetUserSavedTrackIds 100) (get_user_saved_track_ids c 100) s1 of
            (Inl e, s2) \<Rightarrow> (set recent, s2)
          | (Inr saved, s2) \<Rightarrow> (set recent \<union> set saved, s2)))"

text \<open>
  \<^verbatim>\<open>
  def score_track(t):
      pop_diff = abs(t['popularity'] - seed_popularity)
      return pop_diff
  recommendations.sort(key=score_track)
  recommendations = recommendations[:limit]
  \<close>
  \<open>list.sort\<close> is stable.
\<close>

definition score_track :: "int \<Rightarrow> recommendation \<Rightarrow> int" where
  "score_track seed_popularity t = \<bar>rec_popularity t - seed_popularity\<bar>"

definition rank :: "int \<Rightarrow> int \<Rightarrow> recommendation list \<Rightarrow> recommendation list" where
  "rank seed_popularity limit recs = slice_to limit (sort_key (score_track seed_popularity) recs)"

text \<open>
  \<^verbatim>\<open>
  seed_type = arguments.get("seed_type")
  seed_value = arguments.get("seed_value")
  year_range = arguments.get("year_range", "2015-2025")
  limit = min(arguments.get("limit", 30), 50)
  create_playlist_flag = arguments.get("create_playlist", False)
  \<close>
  The seed type and the seed value are read without a default: they are \<open>None\<close> when the
  key is absent or \<open>null\<close>.
\<close>

record discover_args =
  seed_type_arg :: "string option"
  seed_value_arg :: "string option"
  year_range_arg :: "string arg"
  limit_arg :: "int arg"
  create_playlist_arg :: "bool arg"

text \<open>
  \<open>limit = min(arguments.get("limit", 30), 50)\<close>: a \<open>null\<close> limit raises in
  \<open>min(None, 50)\<close>.
\<close>

definition limit_of :: "discover_args \<Rightarrow> error + int" where
  "limit_of arguments =
     (case get_or 30 (limit_arg arguments) of
        None \<Rightarrow> Inl (Exception less_than_none_text)
      | Some n \<Rightarrow> Inr (min n 50))"

text \<open>One entry of the result's \<open>recommendations\<close>: four of the candidate's fields.\<close>

record listed =
  listed_name :: string
  listed_artist :: string
  listed_id :: string
  listed_popularity :: int

record discover_result =
  result_seed_type :: string
  result_seed_value :: string
  result_seed_genres :: "string list"
  result_year_range :: "string option"
  result_recommendations :: "listed list"
  result_count :: nat
  playlist_created :: "created option"

text \<open>
  Step 1, the seed: the seed genres, the seed artist's name and the seed popularity, or
  the message that the artist was not found.
  \<^verbatim>\<open>
  seed_genres = []
  seed_artist_name = None
  seed_popularity = 50  # Default middle-range
  if seed_type == "artist":
      search_results = spotify_client.search(seed_value, qtype="artist", limit=1)
      if not search_results.get('artists'):
          return [... f"Artist '{seed_value}' not found." ...]
      artist = search_results['artists'][0]
      artist_details = spotify_client.get_artist(artist['id'])
      seed_genres = artist_details.get('genres', [])[:3]
      seed_artist_name = artist['name']
  elif seed_type == "track":
      track_id = seed_value.split(':')[-1] if ':' in seed_value else seed_value
      track = spotify_client.get_track(track_id)
      seed_popularity = track.get('popularity', 50)
      if track.get('artists'):
          artist_id = track['artists'][0]['id']
          artist_details = spotify_client.get_artist(artist_id)
          seed_genres = artist_details.get('genres', [])[:3]
          seed_artist_name = artist_details['name']
  elif seed_type == "listening_history":
      top_artists = spotify_client.get_top_artists(time_range="medium_term", limit=10)
      genre_counts = {}
      for artist in top_artists:
          for genre in artist.get('genres', []):
              genre_counts[genre] = genre_counts.get(genre, 0) + 1
      seed_genres = sorted(genre_counts.keys(), key=lambda g: -genre_counts[g])[:3]
  \<close>
\<close>

definition history_seed_genres :: "artist list \<Rightarrow> string list" where
  "history_seed_genres top_artists =
     (let genre_counts = foldl count_up [] (concat (map genres_or_empty top_artists)) in
      take 3 (sort_key (\<lambda>g. - int (case map_of genre_counts g of None \<Rightarrow> 0 | Some n \<Rightarrow> n))
                (map fst genre_counts)))"

definition resolve_seed ::
  "'w client \<Rightarrow> string \<Rightarrow> string
     \<Rightarrow> (string + string list \<times> string option \<times> int, 'w) action" where
  "resolve_seed c seed_type seed_value =
     (if seed_type = ''artist'' then
        and_then (invoke (Search seed_value ''artist'' 1) (search_artists c seed_value))
        (\<lambda>artists. case artists of
           [] \<Rightarrow> return (Inl (''Artist '' @ quoted seed_value @ '' not found.''))
         | artist # _ \<Rightarrow>
             and_then (invoke (GetArtist (ar_id artist)) (get_artist c (ar_id artist)))
             (\<lambda>artist_details.
               return (Inr (take 3 (genres_or_empty artist_details), Some (ar_name artist), 50))))
      else if seed_type = ''track'' then
        (let track_id = (if CHR '':'' \<in> set seed_value
                         then last (split_on CHR '':'' seed_value) else seed_value) in
         and_then (get_track c track_id)
         (\<lambda>track.
           (let seed_popularity = popularity_or 50 track in
            case tr_artists track of
              [] \<Rightarrow> return (Inr ([], None, seed_popularity))
            | a # _ \<Rightarrow>
                and_then (invoke (GetArtist (ar_id a)) (get_artist c (ar_id a)))
                (\<lambda>artist_details.
                  return (Inr (take 3 (genres_or_empty artist_details),
                               Some (ar_name artist_details), seed_popularity))))))
      else if seed_type = ''listening_history'' then
        and_then (invoke (GetTopArtists ''medium_term'' 10) (get_top_artists c ''medium_term'' 10))
        (\<lambda>top_artists. return (Inr (history_seed_genres top_artists, None, 50)))
      else return (Inr ([], None, 50)))"

text \<open>Steps 2 to 4: the exclusion set, then the candidates of both stages.\<close>

definition candidates ::
  "'w client \<Rightarrow> string \<Rightarrow> string list \<Rightarrow> string option \<Rightarrow> 'w state
     \<Rightarrow> recommendation list \<times> 'w state" where
  "candidates c seed_type seed_genres year_range s =
     (case get_exclude_ids c s of (exclude_ids, s2) \<Rightarrow>
      case genre_stage c exclude_ids year_range seed_genres
             \<lparr>recommendations = [], seen_track_ids = {}, artist_track_counts = Map.empty\<rparr> s2 of
        (g3, s3) \<Rightarrow>
      case augment_stage c seed_type seed_genres exclude_ids g3 s3 of
        (g4, s4) \<Rightarrow> (recommendations g4, s4))"

text \<open>
  Steps 2 to 6 and the result.
  \<^verbatim>\<open>
  if create_playlist_flag and recommendations:
      playlist_name = f"Discover: {seed_artist_name or 'My Genres'}"
      playlist = spotify_client.create_playlist(name=playlist_name,
          description=f"Recommendations based on {seed_type}: {seed_value or 'listening history'}")
      track_ids = [t['id'] for t in recommendations]
      spotify_client.add_tracks_to_playlist(playlist['id'], track_ids)
  \<close>
\<close>

definition recommend ::
  "'w client \<Rightarrow> discover_args \<Rightarrow> int \<Rightarrow> string \<Rightarrow> string list \<Rightarrow> string option \<Rightarrow> int
     \<Rightarrow> (discover_result reply, 'w) action" where
  "recommend c arguments limit seed_type seed_genres seed_artist_name seed_popularity s =
     (let seed_value = seed_value_arg arguments;
          year_range = get_or ''2015-2025'' (year_range_arg arguments);
          create_playlist_flag = get_or False (create_playlist_arg arguments)
      in
      case candidates c seed_type seed_genres year_range s of (all_candidates, s4) \<Rightarrow>
      (let final = rank seed_popularity limit all_candidates in
       and_then
         (if is_set create_playlist_flag \<and> final \<noteq> [] then
            (let playlist_name =
                   ''Discover: '' @ (if truthy seed_artist_name then show_opt seed_artist_name
                                     else ''My Genres'');
                 description =
                   ''Recommendations based on '' @ seed_type @ '': ''
                     @ (if truthy seed_value then show_opt seed_value else ''listening history'');
                 track_ids = map rec_id final
             in
             and_then (invoke (CreatePlaylist playlist_name description)
                         (create_playlist c playlist_name description))
             (\<lambda>playlist.
             and_then (invoke (AddTracksToPlaylist (pl_id playlist) track_ids)
                         (add_tracks_to_playlist c (pl_id playlist) track_ids))
             (\<lambda>u.
             return (Some \<lparr>created_name = pl_name playlist, created_id = pl_id playlist,
                           track_count = length track_ids\<rparr>))))
          else return None)
       (\<lambda>discover_playlist.
       return (Json
         \<lparr>result_seed_type = seed_type,
          result_seed_value = (if truthy seed_value then show_opt seed_value
                               else ''listening_history''),
          result_seed_genres = seed_genres,
          result_year_range = year_range,
          result_recommendations =
            map (\<lambda>t. \<lparr>listed_name = rec_name t, listed_artist = rec_artist t,
                       listed_id = rec_id t, listed_popularity = rec_popularity t\<rparr>) final,
          result_count = length final,
          playlist_created = discover_playlist\<rparr>)) s4))"

text \<open>
  The whole tool: the arguments are read (a \<open>null\<close> limit raises there), then validated,
  then the seed is resolved, then the rest.
  \<^verbatim>\<open>
  if seed_type not in ["artist", "track", "listening_history"]:
      return [... f"Invalid seed_type: {seed_type}. Must be 'artist', 'track', or 'listening_history'." ...]
  if seed_type in ["artist", "track"] and not seed_value:
      return [... f"seed_value is required for seed_type '{seed_type}'." ...]
  ...
  if not seed_genres:
      return [... "Could not determine genres for recommendations. Try a different seed." ...]
  \<close>
\<close>

definition discover_body :: "'w client \<Rightarrow> discover_args \<Rightarrow> (discover_result reply, 'w) action" where
  "discover_body c arguments =
     (let seed_type = seed_type_arg arguments;
          seed_value = seed_value_arg arguments
      in
      case limit_of arguments of
        Inl e \<Rightarrow> raise e
      | Inr limit \<Rightarrow>
      if seed_type \<notin> set [Some ''artist'', Some ''track'', Some ''listening_history''] then
        return (Text (''Invalid seed_type: '' @ show_opt seed_type @ ''. Must be '' @ quoted ''artist''
                      @ '', '' @ quoted ''track'' @ '', or '' @ quoted ''listening_history'' @ ''.''))
      else if seed_type \<in> set [Some ''artist'', Some ''track''] \<and> \<not> truthy seed_value then
        return (Text (''seed_value is required for seed_type '' @ quoted (show_opt seed_type) @ ''.''))
      else
        and_then (resolve_seed c (show_opt seed_type) (show_opt seed_value))
        (\<lambda>seed. case seed of
           Inl message \<Rightarrow> return (Text message)
         | Inr (seed_genres, seed_artist_name, seed_popularity) \<Rightarrow>
             if seed_genres = [] then
               return (Text ''Could not determine genres for recommendations. Try a different seed.'')
             else recommend c arguments limit (show_opt seed_type) seed_genres seed_artist_name
                    seed_popularity))"

definition discover ::
  "'w client \<Rightarrow> discover_args \<Rightarrow> 'w state \<Rightarrow> discover_result reply \<times> 'w state" where
  "discover c arguments = handle (discover_body c arguments)"

section \<open>Predicates and example inputs used in the proofs\<close>

text \<open>
  The track the deduplication keeps for a key: it is in the input, no input track of the
  same key is more popular, and every earlier one of the same key is strictly less popular.
\<close>

definition key_of :: "(string \<Rightarrow> string) \<Rightarrow> dd_track \<Rightarrow> string" where
  "key_of lowercase t = lowercase (dd_name t)"

definition kept_ok :: "(string \<Rightarrow> string) \<Rightarrow> dd_track list \<Rightarrow> dd_track \<Rightarrow> bool" where
  "kept_ok lowercase ts u = (\<exists>i < length ts. ts ! i = u
      \<and> (\<forall>j < length ts. key_of lowercase (ts ! j) = key_of lowercase u
            \<longrightarrow> dd_popularity (ts ! j) \<le> dd_popularity u)
      \<and> (\<forall>j < i. key_of lowercase (ts ! j) = key_of lowercase u
            \<longrightarrow> dd_popularity (ts ! j) < dd_popularity u))"

definition dedup_inv ::
  "(string \<Rightarrow> string) \<Rightarrow> dd_track list \<Rightarrow> (string \<times> dd_track) list \<Rightarrow> bool" where
  "dedup_inv lowercase ts seen = (distinct (map fst seen)
     \<and> (\<forall>k. (map_of seen k = None) = (k \<notin> key_of lowercase ` set ts))
     \<and> (\<forall>k u. map_of seen k = Some u \<longrightarrow> key_of lowercase u = k \<and> kept_ok lowercase ts u))"

text \<open>
  A lower-casing that knows one letter beyond ASCII, as \<open>str.lower()\<close> does: the bytes
  C3 89 of the capital E with acute become C3 A9, those of the small one. And four
  collected tracks, three of them with the same name up to the case of that letter and of
  a T, two of these equally popular.
\<close>

fun lower_latin :: "string \<Rightarrow> string" where
  "lower_latin (c # d # cs) =
     (if c = CHR 0xC3 \<and> d = CHR 0x89 then CHR 0xC3 # CHR 0xA9 # lower_latin cs
      else lower_char c # lower_latin (d # cs))"
| "lower_latin cs = map lower_char cs"

definition accented_tracks :: "dd_track list" where
  "accented_tracks =
     [\<lparr>dd_id = ''t1'', dd_name = [CHR 0xC3, CHR 0x89, CHR ''T'', CHR 0xC3, CHR 0x89],
        dd_popularity = 10, dd_release_date = ''2001'', dd_album_type = ''album'',
        dd_album_name = ''A''\<rparr>,
      \<lparr>dd_id = ''t2'', dd_name = [CHR 0xC3, CHR 0xA9, CHR ''t'', CHR 0xC3, CHR 0xA9],
        dd_popularity = 50, dd_release_date = ''2002'', dd_album_type = ''single'',
        dd_album_name = ''B''\<rparr>,
      \<lparr>dd_id = ''t3'', dd_name = ''Other'', dd_popularity = 5, dd_release_date = ''2000'',
        dd_album_type = ''album'', dd_album_name = ''C''\<rparr>,
      \<lparr>dd_id = ''t4'', dd_name = [CHR 0xC3, CHR 0x89, CHR ''t'', CHR 0xC3, CHR 0xA9],
        dd_popularity = 50, dd_release_date = ''2003'', dd_album_type = ''album'',
        dd_album_name = ''C''\<rparr>]"


text \<open>
  The batch retrieval as the specification words it: split into chunks, one call per chunk,
  the responses concatenated in chunk order. It is the yardstick the two client functions
  are compared with; an exception of a call ends the retrieval.
\<close>

fun spec_batch ::
  "(string list \<Rightarrow> 'w \<Rightarrow> (error + 'a list) \<times> 'w) \<Rightarrow> (string list \<Rightarrow> call) \<Rightarrow> string list list
     \<Rightarrow> ('a list, 'w) action" where
  "spec_batch fetch_many mk [] s = (Inr [], s)"
| "spec_batch fetch_many mk (chunk # rest) s =
     (case invoke (mk chunk) (fetch_many chunk) s of
        (Inl e, s') \<Rightarrow> (Inl e, s')
      | (Inr items, s') \<Rightarrow>
         (case spec_batch fetch_many mk rest s' of
            (Inl e, s'') \<Rightarrow> (Inl e, s'')
          | (Inr others, s'') \<Rightarrow> (Inr (items @ others), s'')))"

text \<open>
  Example collaborators over a remote state without content. In the first every call
  raises; the others answer some of the calls.
\<close>

definition failing_client :: "unit client" where
  "failing_client =
     \<lparr>search_artists = (\<lambda>q w. (Inl (Exception ''offline''), w)),
      get_artist = (\<lambda>i w. (Inl (Exception ''offline''), w)),
      sp_track = (\<lambda>i w. (Inl (Exception ''offline''), w)),
      get_artist_albums = (\<lambda>i b w. (Inl (Exception ''offline''), w)),
      get_album_tracks_full = (\<lambda>i w. (Inl (Exception ''offline''), w)),
      get_artist_top_tracks = (\<lambda>i w. (Inl (Exception ''offline''), w)),
      get_all_playlists = (\<lambda>w. (Inl (Exception ''offline''), w)),
      current_user_id = (\<lambda>w. (Inl (Exception ''offline''), w)),
      get_playlist_tracks = (\<lambda>i w. (Inl (Exception ''offline''), w)),
      sp_tracks = (\<lambda>i w. (Inl (Exception ''offline''), w)),
      sp_artists = (\<lambda>i w. (Inl (Exception ''offline''), w)),
      change_playlist_details = (\<lambda>i n w. (Inl (Exception ''offline''), w)),
      create_playlist = (\<lambda>n d w. (Inl (Exception ''offline''), w)),
      add_tracks_to_playlist = (\<lambda>i t w. (Inl (Exception ''offline''), w)),
      get_top_tracks = (\<lambda>r n w. (Inl (Exception ''offline''), w)),
      get_top_artists = (\<lambda>r n w. (Inl (Exception ''offline''), w)),
      get_recent_track_ids = (\<lambda>n w. (Inl (Exception ''offline''), w)),
      get_user_saved_track_ids = (\<lambda>n w. (Inl (Exception ''offline''), w)),
      search_by_genre = (\<lambda>g y n w. (Inl (Exception ''offline''), w)),
      month_year = (\<lambda>w. ''Jan 2025''),
      str_lower = lower,
      set_order = (\<lambda>xs x. 0)\<rparr>"

definition ex_artist :: "string \<Rightarrow> string list \<Rightarrow> artist" where
  "ex_artist i gs = \<lparr>ar_id = i, ar_name = i, ar_genres = Some gs\<rparr>"

definition ex_track :: "string \<Rightarrow> string \<Rightarrow> int \<Rightarrow> track" where
  "ex_track i a p =
     \<lparr>tr_id = i, tr_name = i, tr_artists = [ex_artist a []], tr_popularity = Some p,
      tr_duration_ms = None\<rparr>"

definition batch_client :: "unit client" where
  "batch_client = failing_client
     \<lparr>sp_tracks := (\<lambda>ids w. (Inr (map (\<lambda>i. Some (ex_track i ''a1'' 10)) ids), w)),
      sp_artists := (\<lambda>ids w. (Inr (map (\<lambda>i. Some (ex_artist i [''rock''])) ids), w))\<rparr>"

text \<open>
  The first-artist ids of the tracks a lookup returned, in the order of the responses and
  with repetitions: a \<open>null\<close> entry and a track without artists give none. And a
  collaborator that returns a different artist for each track and enumerates a set of
  strings in descending order.
\<close>

definition first_artist_ids :: "track option list \<Rightarrow> string list" where
  "first_artist_ids items =
     concat (map (\<lambda>t. case t of
                         None \<Rightarrow> []
                       | Some tr \<Rightarrow> (case tr_artists tr of [] \<Rightarrow> [] | a # _ \<Rightarrow> [ar_id a]))
               items)"

definition ordered_client :: "unit client" where
  "ordered_client = failing_client
     \<lparr>sp_tracks := (\<lambda>ids w. (Inr (map (\<lambda>i. Some (ex_track i (''by '' @ i) 10)) ids), w)),
      set_order := (\<lambda>xs x. length (filter (\<lambda>y. x < y) xs))\<rparr>"

text \<open>
  A tag matches a category when some keyword occurs in the lower-cased tag.
\<close>

definition matches :: "string list \<Rightarrow> string \<Rightarrow> bool" where
  "matches keywords g = (\<exists>kw \<in> set keywords. \<exists>p s. lower g = p @ kw @ s)"

text \<open>
  What the scan over the categories has established after the categories \<open>cs\<close>: no
  score seen exceeds the best score, a best score of 0 goes with no category, and a
  positive one with the first category that attains it.
\<close>

definition best_inv ::
  "string list \<Rightarrow> (string \<times> string list) list \<Rightarrow> string option \<times> nat \<Rightarrow> bool" where
  "best_inv all_genres cs best =
     (case best of (best_category, best_score) \<Rightarrow>
        (\<forall>j < length cs. genre_score (snd (cs ! j)) all_genres \<le> best_score)
      \<and> (best_score = 0 \<longrightarrow> best_category = None)
      \<and> (0 < best_score \<longrightarrow>
           (\<exists>i < length cs. best_category = Some (fst (cs ! i))
              \<and> genre_score (snd (cs ! i)) all_genres = best_score
              \<and> (\<forall>j < i. genre_score (snd (cs ! j)) all_genres < best_score))))"


text \<open>
  A catalog of two albums with three tracks, two of them of the same name in different
  case.
\<close>

definition discography_client :: "unit client" where
  "discography_client = failing_client
     \<lparr>search_artists := (\<lambda>q w. (Inr [ex_artist ''A1'' []], w)),
      get_artist_albums := (\<lambda>i b w.
        (Inr [\<lparr>al_id = ''al1'', al_name = ''First''\<rparr>, \<lparr>al_id = ''al2'', al_name = ''Second''\<rparr>], w)),
      get_album_tracks_full := (\<lambda>i w.
        if i = ''al1''
        then (Inr ([(ex_track ''t1'' ''A1'' 0)\<lparr>tr_name := ''Song''\<rparr>,
                    (ex_track ''t4'' ''A1'' 0)\<lparr>tr_name := ''Other''\<rparr>], ''2001'', ''album''), w)
        else (Inr ([(ex_track ''t2'' ''A1'' 0)\<lparr>tr_name := ''SONG''\<rparr>], ''2002'', ''single''), w)),
      sp_track := (\<lambda>i w.
        (Inr (ex_track i ''A1'' (if i = ''t1'' then 10 else if i = ''t2'' then 50 else 5)), w)),
      create_playlist := (\<lambda>n d w. (Inr \<lparr>pl_id = n, pl_name = n, pl_owner_id = ''me''\<rparr>, w)),
      add_tracks_to_playlist := (\<lambda>i t w. (Inr (), w))\<rparr>"

text \<open>
  No candidate of the working set has an excluded id.
\<close>

definition clean :: "string set \<Rightarrow> generation \<Rightarrow> bool" where
  "clean exclude_ids g = (\<forall>r \<in> set (recommendations g). rec_id r \<notin> exclude_ids)"

text \<open>
  A collaborator for Discover: one seed artist with two genres, one recent and one saved
  track, two genre searches that return an excluded, a repeated, an overly popular and an
  artist-less track, and one matching top artist.
\<close>

definition small_client :: "unit client" where
  "small_client = failing_client
     \<lparr>search_artists := (\<lambda>q w. (Inr [ex_artist ''A1'' []], w)),
      get_artist := (\<lambda>i w. (Inr (ex_artist ''A1'' [''indie rock'', ''shoegaze'']), w)),
      sp_track := (\<lambda>i w. (Inr ((ex_track i ''A1'' 0)\<lparr>tr_popularity := None\<rparr>), w)),
      get_artist_top_tracks := (\<lambda>i w.
        (Inr [ex_track ''a1'' ''A1'' 60, ex_track ''x1'' ''A1'' 50, ex_track ''g1'' ''A1'' 48,
              ex_track ''a4'' ''A1'' 50], w)),
      get_top_artists := (\<lambda>r n w. (Inr [ex_artist ''A1'' [''indie rock''], ex_artist ''Z'' [''jazz'']], w)),
      get_recent_track_ids := (\<lambda>n w. (Inr [''x1''], w)),
      get_user_saved_track_ids := (\<lambda>n w. (Inr [''x2''], w)),
      search_by_genre := (\<lambda>g y n w.
        if g = ''indie rock'' then
          (Inr [ex_track ''g1'' ''A1'' 48, ex_track ''x1'' ''A1'' 50, ex_track ''g2'' ''B'' 150,
                ex_track ''g1'' ''A1'' 48], w)
        else if g = ''shoegaze'' then
          (Inr [ex_track ''x2'' ''C'' 50,
                (ex_track ''s1'' ''C'' 0)\<lparr>tr_artists := [], tr_popularity := None\<rparr>], w)
        else (Inl (Exception ''offline''), w))\<rparr>"

definition artist_seed_args :: "int option \<Rightarrow> discover_args" where
  "artist_seed_args limit =
     \<lparr>seed_type_arg = Some ''artist'', seed_value_arg = Some ''Artist A'', year_range_arg = Absent,
      limit_arg = (case limit of None \<Rightarrow> Absent | Some n \<Rightarrow> Given n),
      create_playlist_arg = Absent\<rparr>"

definition small_result :: "discover_result" where
  "small_result =
     \<lparr>result_seed_type = ''artist'', result_seed_value = ''Artist A'',
      result_seed_genres = [''indie rock'', ''shoegaze''],
      result_year_range = Some ''2015-2025'',
      result_recommendations =
        [\<lparr>listed_name = ''g1'', listed_artist = ''A1'', listed_id = ''g1'', listed_popularity = 48\<rparr>,
         \<lparr>listed_name = ''a1'', listed_artist = ''A1'', listed_id = ''a1'', listed_popularity = 60\<rparr>,
         \<lparr>listed_name = ''s1'', listed_artist = ''Unknown'', listed_id = ''s1'', listed_popularity = 0\<rparr>,
         \<lparr>listed_name = ''g2'', listed_artist = ''B'', listed_id = ''g2'', listed_popularity = 150\<rparr>],
      result_count = 4, playlist_created = None\<rparr>"

definition small_calls :: "call list" where
  "small_calls =
     [Search ''Artist A'' ''artist'' 1, GetArtist ''A1'', GetRecentTrackIds 50,
      GetUserSavedTrackIds 100, SearchByGenre ''indie rock'' (Some ''2015-2025'') 20,
      SearchByGenre ''shoegaze'' (Some ''2015-2025'') 20, GetTopArtists ''medium_term'' 20,
      GetArtistTopTracks ''A1'']"

text \<open>
  The three validation messages, as the f-strings of the source build them.
\<close>

definition invalid_seed_type_text :: "string option \<Rightarrow> string" where
  "invalid_seed_type_text seed_type =
     ''Invalid seed_type: '' @ show_opt seed_type @ ''. Must be '' @ quoted ''artist''
       @ '', '' @ quoted ''track'' @ '', or '' @ quoted ''listening_history'' @ ''.''"

definition seed_value_required_text :: "string option \<Rightarrow> string" where
  "seed_value_required_text seed_type =
     ''seed_value is required for seed_type '' @ quoted (show_opt seed_type) @ ''.''"

definition invalid_time_range_text :: "string \<Rightarrow> string" where
  "invalid_time_range_text time_range =
     ''Invalid time_range: '' @ time_range @ ''. Must be '' @ quoted ''short_term''
       @ '', '' @ quoted ''medium_term'' @ '', or '' @ quoted ''long_term'' @ ''.''"

definition top_music_args_of :: "string arg \<Rightarrow> int arg \<Rightarrow> top_music_args" where
  "top_music_args_of time_range top_count =
     \<lparr>time_range_arg = time_range, top_count_arg = top_count,
      top_create_playlist_arg = Absent\<rparr>"

text \<open>
  The call log of the second state is that of the first followed by calls that all
  satisfy \<open>P\<close>.
\<close>

definition extends :: "(call \<Rightarrow> bool) \<Rightarrow> 'w state \<Rightarrow> 'w state \<Rightarrow> bool" where
  "extends P s s' = (\<exists>new. snd s' = snd s @ new \<and> (\<forall>cl \<in> set new. P cl))"

text \<open>
  The calls the librarian's loop over the playlists \<open>pls\<close> may issue: the tracks
  of one of them, the renaming of one of them, and batch lookups of tracks and artists.
\<close>

definition librarian_call :: "playlist list \<Rightarrow> call \<Rightarrow> bool" where
  "librarian_call pls cl =
     ((\<exists>p \<in> set pls. cl = GetPlaylistTracks (pl_id p))
      \<or> (\<exists>p \<in> set pls. \<exists>n. cl = ChangePlaylistDetails (pl_id p) n)
      \<or> (\<exists>ids. cl = SpTracks ids)
      \<or> (\<exists>ids. cl = SpArtists ids))"

text \<open>
  A recorded change names one of the playlists \<open>pls\<close>.
\<close>

definition change_of :: "playlist list \<Rightarrow> change \<Rightarrow> bool" where
  "change_of pls ch =
     (\<exists>p \<in> set pls. change_playlist_id ch = pl_id p \<and> original_name ch = pl_name p)"

text \<open>
  An example library: two playlists of the user, one of them categorized already, and
  one of somebody else.
\<close>

definition rock_label :: string where
  "rock_label = [CHR 0xF0, CHR 0x9F, CHR 0x8E, CHR 0xB8] @ '' Rock''"

definition ex_playlists :: "playlist list" where
  "ex_playlists =
     [\<lparr>pl_id = ''p1'', pl_name = ''Mix'', pl_owner_id = ''me''\<rparr>,
      \<lparr>pl_id = ''p2'', pl_name = ''Guitars'', pl_owner_id = ''other''\<rparr>,
      \<lparr>pl_id = ''p3'', pl_name = rock_label @ ''/Old'', pl_owner_id = ''me''\<rparr>]"

definition librarian_client :: "unit client" where
  "librarian_client = failing_client
     \<lparr>get_all_playlists := (\<lambda>w. (Inr ex_playlists, w)),
      current_user_id := (\<lambda>w. (Inr ''me'', w)),
      get_playlist_tracks := (\<lambda>i w. (Inr [Some \<lparr>item_id = Some ''t1''\<rparr>, None], w)),
      sp_tracks := (\<lambda>ids w. (Inr (map (\<lambda>i. Some (ex_track i ''a1'' 10)) ids), w)),
      sp_artists := (\<lambda>ids w. (Inr (map (\<lambda>i. Some (ex_artist i [''Indie Rock''])) ids), w)),
      change_playlist_details := (\<lambda>i n w. (Inr (), w))\<rparr>"

definition librarian_apply_args :: librarian_args where
  "librarian_apply_args = \<lparr>dry_run_arg = Given False, category_style_arg = Absent\<rparr>"

definition ex_librarian_result :: librarian_result where
  "ex_librarian_result =
     \<lparr>playlists_analyzed = 2, playlists_categorized = 1, playlists_skipped = 1,
      result_dry_run = Some False,
      result_changes =
        [\<lparr>change_playlist_id = ''p1'', original_name = ''Mix'',
          new_name = rock_label @ ''/Mix'', detected_category = rock_label, applied = True\<rparr>],
      category_summary = [(rock_label, 1)]\<rparr>"

definition ex_librarian_calls :: "call list" where
  "ex_librarian_calls =
     [GetAllPlaylists, CurrentUser, GetPlaylistTracks ''p1'', SpTracks [''t1''],
      SpArtists [''a1''], ChangePlaylistDetails ''p1'' (rock_label @ ''/Mix'')]"

text \<open>
  The candidates whose artist id is \<open>a\<close>.
\<close>

definition by_artist :: "string \<Rightarrow> recommendation list \<Rightarrow> recommendation list" where
  "by_artist a recs = filter (\<lambda>r. rec_artist_id r = Some a) recs"

text \<open>
  The counter of every non-empty artist id is the number of that artist's candidates, and
  at most 3.
\<close>

definition counted :: "generation \<Rightarrow> bool" where
  "counted g = (\<forall>a. a \<noteq> [] \<longrightarrow>
      length (by_artist a (recommendations g)) = count_of (artist_track_counts g) a
      \<and> count_of (artist_track_counts g) a \<le> 3)"

definition empty_generation :: generation where
  "empty_generation = \<lparr>recommendations = [], seen_track_ids = {}, artist_track_counts = Map.empty\<rparr>"

text \<open>
  The track's artist has reached the cap.
\<close>

definition capped :: "generation \<Rightarrow> track \<Rightarrow> bool" where
  "capped g track = (truthy (primary_artist_id track)
     \<and> count_of (artist_track_counts g) (show_opt (primary_artist_id track)) \<ge> 3)"

text \<open>
  The tracks of a search result whose first artist is \<open>a\<close>.
\<close>

definition tracks_of_artist :: "string \<Rightarrow> track list \<Rightarrow> track list" where
  "tracks_of_artist a tracks = filter (\<lambda>t. primary_artist_id t = Some a) tracks"

text \<open>
  Two genre searches of 20 tracks each, four of them by the artist A1 in each, all 40 with
  different ids; and four tracks whose artist id is the empty string.
\<close>

definition indie_rock_tracks :: "track list" where
  "indie_rock_tracks =
     map (\<lambda>(i, a). ex_track i a 50)
       [
        (''g01'', ''A1''), (''g02'', ''B02''), (''g03'', ''B03''), (''g04'', ''B04''),
        (''g05'', ''A1''), (''g06'', ''B06''), (''g07'', ''B07''), (''g08'', ''B08''),
        (''g09'', ''A1''), (''g10'', ''B10''), (''g11'', ''B11''), (''g12'', ''B12''),
        (''g13'', ''A1''), (''g14'', ''B14''), (''g15'', ''B15''), (''g16'', ''B16''),
        (''g17'', ''B17''), (''g18'', ''B18''), (''g19'', ''B19''), (''g20'', ''B20'')]"

definition electropop_tracks :: "track list" where
  "electropop_tracks =
     map (\<lambda>(i, a). ex_track i a 50)
       [
        (''e01'', ''A1''), (''e02'', ''C02''), (''e03'', ''C03''), (''e04'', ''C04''),
        (''e05'', ''A1''), (''e06'', ''C06''), (''e07'', ''C07''), (''e08'', ''C08''),
        (''e09'', ''A1''), (''e10'', ''C10''), (''e11'', ''C11''), (''e12'', ''C12''),
        (''e13'', ''A1''), (''e14'', ''C14''), (''e15'', ''C15''), (''e16'', ''C16''),
        (''e17'', ''C17''), (''e18'', ''C18''), (''e19'', ''C19''), (''e20'', ''C20'')]"

definition anonymous_tracks :: "track list" where
  "anonymous_tracks = map (\<lambda>i. ex_track i [] 50) [''n1'', ''n2'', ''n3'', ''n4'']"

definition cap_client :: "unit client" where
  "cap_client = failing_client
     \<lparr>search_by_genre := (\<lambda>g y n w.
        if g = ''indie rock'' then (Inr indie_rock_tracks, w)
        else if g = ''electropop'' then (Inr electropop_tracks, w)
        else (Inl (Exception ''offline''), w))\<rparr>"

definition after_indie_rock :: generation where
  "after_indie_rock =
     fst (genre_stage cap_client {} (Some ''2015-2025'') [''indie rock''] empty_generation
            ((), []))"

definition after_both_genres :: generation where
  "after_both_genres =
     fst (genre_stage cap_client {} (Some ''2015-2025'') [''indie rock'', ''electropop'']
            empty_generation ((), []))"

definition fourth_top_track :: generation where
  "fourth_top_track =
     accept_top_track {} (ex_artist ''A1'' [''indie rock'']) after_indie_rock (ex_track ''a1'' ''A1'' 60)"







text \<open>
  A collaborator whose three genre searches return 20 tracks each, 60 different tracks of
  60 artists, all equally popular.
\<close>

definition twenty :: "string list" where
  "twenty = [''01'', ''02'', ''03'', ''04'', ''05'', ''06'', ''07'', ''08'', ''09'', ''10'',
             ''11'', ''12'', ''13'', ''14'', ''15'', ''16'', ''17'', ''18'', ''19'', ''20'']"

definition wide_client :: "unit client" where
  "wide_client = failing_client
     \<lparr>search_artists := (\<lambda>q w. (Inr [ex_artist ''A1'' []], w)),
      get_artist := (\<lambda>i w. (Inr (ex_artist ''A1'' [''rock'', ''pop'', ''jazz'']), w)),
      get_recent_track_ids := (\<lambda>n w. (Inr [], w)),
      get_user_saved_track_ids := (\<lambda>n w. (Inr [], w)),
      get_top_artists := (\<lambda>r n w. (Inr [], w)),
      search_by_genre := (\<lambda>g y n w. (Inr (map (\<lambda>i. ex_track (g @ i) (g @ i) 50) twenty), w))\<rparr>"

text \<open>
  The number and the ids of the recommendations a reply lists.
\<close>

definition listed_count :: "discover_result reply \<Rightarrow> nat option" where
  "listed_count reply =
     (case reply of Text m \<Rightarrow> None | Json r \<Rightarrow> Some (length (result_recommendations r)))"

definition listed_ids :: "discover_result reply \<Rightarrow> string list" where
  "listed_ids reply =
     (case reply of Text m \<Rightarrow> [] | Json r \<Rightarrow> map listed_id (result_recommendations r))"

section \<open>Deduplication keeps the first most popular track of each name\<close>

lemma kept_ok_snoc_new:
  assumes "key_of lc t \<notin> key_of lc ` set ts"
  shows "kept_ok lc (ts @ [t]) t"
proof -
  have "\<forall>j < length ts. key_of lc (ts ! j) \<noteq> key_of lc t"
    using assms by (metis image_eqI nth_mem)
  then show ?thesis
    unfolding kept_ok_def
    by (intro exI[of _ "length ts"]) (auto simp: nth_append)
qed

lemma kept_ok_snoc_better:
  assumes "kept_ok lc ts u" "key_of lc t = key_of lc u" "dd_popularity t > dd_popularity u"
  shows "kept_ok lc (ts @ [t]) t"
proof -
  from assms(1) have "\<forall>j < length ts. key_of lc (ts ! j) = key_of lc u \<longrightarrow> dd_popularity (ts ! j) \<le> dd_popularity u"
    unfolding kept_ok_def by blast
  then have "\<forall>j < length ts. key_of lc (ts ! j) = key_of lc t \<longrightarrow> dd_popularity (ts ! j) < dd_popularity t"
    using assms(2,3) by fastforce
  then show ?thesis
    unfolding kept_ok_def
    by (intro exI[of _ "length ts"]) (auto simp: nth_append less_Suc_eq intro: less_imp_le)
qed

lemma kept_ok_snoc_keep:
  assumes "kept_ok lc ts u" "key_of lc t = key_of lc u \<longrightarrow> dd_popularity t \<le> dd_popularity u"
  shows "kept_ok lc (ts @ [t]) u"
proof -
  from assms(1) obtain i where i: "i < length ts" "ts ! i = u"
    "\<forall>j < length ts. key_of lc (ts ! j) = key_of lc u \<longrightarrow> dd_popularity (ts ! j) \<le> dd_popularity u"
    "\<forall>j < i. key_of lc (ts ! j) = key_of lc u \<longrightarrow> dd_popularity (ts ! j) < dd_popularity u"
    unfolding kept_ok_def by blast
  show ?thesis
    unfolding kept_ok_def
    using i assms(2) by (intro exI[of _ i]) (auto simp: nth_append less_Suc_eq)
qed

lemma dedup_inv_step:
  assumes "dedup_inv lc ts seen"
  shows "dedup_inv lc (ts @ [t]) (dedup_step lc seen t)"
proof (cases "map_of seen (key_of lc t)")
  case None
  then have new: "key_of lc t \<notin> key_of lc ` set ts"
    using assms unfolding dedup_inv_def by blast
  have step: "dedup_step lc seen t = AList.update (key_of lc t) t seen"
    using None by (simp add: dedup_step_def key_of_def)
  show ?thesis
    unfolding dedup_inv_def step
    using assms new kept_ok_snoc_new[OF new]
    by (auto simp: dedup_inv_def update_conv' distinct_update intro: kept_ok_snoc_keep)
next
  case (Some kept)
  then have kept: "key_of lc kept = key_of lc t" "kept_ok lc ts kept"
    using assms unfolding dedup_inv_def by blast+
  have old: "key_of lc t \<in> key_of lc ` set ts"
    using assms Some unfolding dedup_inv_def by (metis option.distinct(1))
  show ?thesis
  proof (cases "dd_popularity t > dd_popularity kept")
    case True
    have step: "dedup_step lc seen t = AList.update (key_of lc t) t seen"
      using Some True by (simp add: dedup_step_def key_of_def)
    have "kept_ok lc (ts @ [t]) t"
      using kept True by (intro kept_ok_snoc_better[of lc ts kept]) auto
    then show ?thesis
      unfolding dedup_inv_def step
      using assms old True kept Some
      by (auto simp: dedup_inv_def update_conv' distinct_update intro!: kept_ok_snoc_keep)
  next
    case False
    have step: "dedup_step lc seen t = seen"
      using Some False by (simp add: dedup_step_def key_of_def)
    have "kept_ok lc (ts @ [t]) u" if "map_of seen k = Some u" for k u
    proof -
      have ku: "key_of lc u = k" "kept_ok lc ts u"
        using assms that unfolding dedup_inv_def by blast+
      have "dd_popularity t \<le> dd_popularity u" if "key_of lc t = key_of lc u"
        using that ku(1) \<open>map_of seen k = Some u\<close> Some False by simp
      then show ?thesis
        using ku(2) by (intro kept_ok_snoc_keep) auto
    qed
    moreover have "distinct (map fst seen)"
      and "\<forall>k. (map_of seen k = None) = (k \<notin> key_of lc ` set (ts @ [t]))"
      and "\<forall>k u. map_of seen k = Some u \<longrightarrow> key_of lc u = k"
      using assms old unfolding dedup_inv_def by auto
    ultimately show ?thesis
      unfolding dedup_inv_def step by blast
  qed
qed

lemma dedup_inv_foldl: "dedup_inv lc ts (foldl (dedup_step lc) [] ts)"
proof (induction ts rule: rev_induct)
  case Nil
  show ?case by (simp add: dedup_inv_def)
next
  case (snoc t ts)
  then show ?case by (simp add: dedup_inv_step)
qed

text \<open>
  C1. Whatever function \<open>lc\<close> lower-cases the names (\<open>str.lower()\<close> is one), the
  deduplication of ArtistDeepDive returns exactly one track for each lower-cased name of
  the input; the track kept is an input track whose popularity is at least that of every
  input track of the same key, and every same-keyed track before it in the input is
  strictly less popular, so that among equally popular ones the first is kept.
\<close>

theorem dedup_one_best_first_per_key:
  "distinct (map (\<lambda>t. lc (dd_name t)) (unique_tracks lc ts))
   \<and> set (map (\<lambda>t. lc (dd_name t)) (unique_tracks lc ts)) = set (map (\<lambda>t. lc (dd_name t)) ts)
   \<and> (\<forall>u \<in> set (unique_tracks lc ts). \<exists>i < length ts. ts ! i = u
        \<and> (\<forall>j < length ts. lc (dd_name (ts ! j)) = lc (dd_name u)
              \<longrightarrow> dd_popularity (ts ! j) \<le> dd_popularity u)
        \<and> (\<forall>j < i. lc (dd_name (ts ! j)) = lc (dd_name u)
              \<longrightarrow> dd_popularity (ts ! j) < dd_popularity u))"
proof -
  define seen where "seen = foldl (dedup_step lc) [] ts"
  have inv: "dedup_inv lc ts seen"
    unfolding seen_def by (rule dedup_inv_foldl)
  have dist: "distinct (map fst seen)"
    and dom: "\<And>k. (map_of seen k = None) = (k \<notin> key_of lc ` set ts)"
    and val: "\<And>k u. map_of seen k = Some u \<Longrightarrow> key_of lc u = k \<and> kept_ok lc ts u"
    using inv unfolding dedup_inv_def by blast+
  have pair: "key_of lc u = k \<and> kept_ok lc ts u" if "(k, u) \<in> set seen" for k u
    using that dist val by (simp add: map_of_eq_Some_iff)
  have keys: "map (\<lambda>t. lc (dd_name t)) (map snd seen) = map fst seen"
    using pair by (auto simp: key_of_def)
  have "distinct (map (\<lambda>t. lc (dd_name t)) (unique_tracks lc ts))"
    unfolding unique_tracks_def seen_def[symmetric] keys by (rule dist)
  moreover have "set (map (\<lambda>t. lc (dd_name t)) (unique_tracks lc ts)) = set (map (\<lambda>t. lc (dd_name t)) ts)"
  proof -
    have "set (map fst seen) = key_of lc ` set ts"
    proof -
      have "k \<in> set (map fst seen) \<longleftrightarrow> k \<in> key_of lc ` set ts" for k
        using dom[of k] map_of_eq_None_iff[of seen k] by auto
      then show ?thesis by blast
    qed
    then show ?thesis
      unfolding unique_tracks_def seen_def[symmetric] keys by (auto simp: key_of_def)
  qed
  moreover have "\<forall>u \<in> set (unique_tracks lc ts). kept_ok lc ts u"
    unfolding unique_tracks_def seen_def[symmetric] using pair by auto
  ultimately show ?thesis
    unfolding kept_ok_def key_of_def by blast
qed

theorem dedup_one_best_first_per_key_witness:
  "unique_tracks lower_latin accented_tracks = [accented_tracks ! 1, accented_tracks ! 2]
   \<and> (\<exists>i < length accented_tracks. accented_tracks ! i = accented_tracks ! 1
        \<and> (\<forall>j < length accented_tracks.
              lower_latin (dd_name (accented_tracks ! j)) = lower_latin (dd_name (accented_tracks ! 1))
              \<longrightarrow> dd_popularity (accented_tracks ! j) \<le> dd_popularity (accented_tracks ! 1))
        \<and> (\<forall>j < i. lower_latin (dd_name (accented_tracks ! j))
                       = lower_latin (dd_name (accented_tracks ! 1))
              \<longrightarrow> dd_popularity (accented_tracks ! j) < dd_popularity (accented_tracks ! 1)))"
proof -
  have run: "unique_tracks lower_latin accented_tracks = [accented_tracks ! 1, accented_tracks ! 2]"
    by code_simp
  then have "accented_tracks ! 1 \<in> set (unique_tracks lower_latin accented_tracks)"
    by simp
  with dedup_one_best_first_per_key [of lower_latin accented_tracks] run show ?thesis
    by blast
qed

section \<open>Batch retrieval\<close>

lemma range_count_step:
  assumes "0 < n" "0 < len"
  shows "(len + n - 1) div n = Suc ((len - n + n - 1) div n)"
proof (cases "n \<le> len")
  case True
  then have "len + n - 1 = (len - n + n - 1) + n" using assms by simp
  then show ?thesis using assms by (metis div_add_self2 less_numeral_extra(3) Suc_eq_plus1)
next
  case False
  then have a: "len - n + n - 1 = n - 1" by simp
  have "(len + n - 1) div n = 1"
    using False assms by (intro div_nat_eqI) auto
  then show ?thesis using a assms by simp
qed

lemma batches_rec:
  assumes "0 < n"
  shows "batches n xs = (if xs = [] then [] else take n xs # batches n (drop n xs))"
proof (cases "xs = []")
  case True
  then show ?thesis using assms by (simp add: batches_def range_step_def)
next
  case False
  then have len: "0 < length xs" by simp
  have cnt: "(length xs + n - 1) div n = Suc ((length (drop n xs) + n - 1) div n)"
    using range_count_step[OF assms len] by simp
  define m where "m = (length (drop n xs) + n - 1) div n"
  have "[0..<Suc m] = 0 # map Suc [0..<m]"
    by (simp add: upt_conv_Cons map_Suc_upt del: upt_Suc)
  then have "map (\<lambda>k. take n (drop (k * n) xs)) [0..<Suc m]
      = take n xs # map (\<lambda>k. take n (drop (k * n) (drop n xs))) [0..<m]"
    by (simp add: comp_def add.commute)
  then show ?thesis
    using False unfolding batches_def range_step_def cnt m_def[symmetric]
    by (simp add: comp_def m_def)
qed

lemma batches_concat: "0 < n \<Longrightarrow> concat (batches n xs) = xs"
proof (induction "length xs" arbitrary: xs rule: less_induct)
  case less
  show ?case
  proof (cases "xs = []")
    case True
    then show ?thesis using less.prems by (simp add: batches_rec)
  next
    case False
    then have "length (drop n xs) < length xs" using less.prems by simp
    then have "concat (batches n (drop n xs)) = drop n xs" using less by blast
    then show ?thesis using False less.prems by (subst batches_rec) auto
  qed
qed

lemma batches_bounds: "0 < n \<Longrightarrow> b \<in> set (batches n xs) \<Longrightarrow> b \<noteq> [] \<and> length b \<le> n"
proof (induction "length xs" arbitrary: xs rule: less_induct)
  case less
  show ?case
  proof (cases "xs = []")
    case True
    then show ?thesis using less.prems by (simp add: batches_rec)
  next
    case False
    then have l: "length (drop n xs) < length xs" using less.prems by simp
    from less.prems(2) have "b = take n xs \<or> b \<in> set (batches n (drop n xs))"
      using False less.prems(1) by (subst (asm) batches_rec) auto
    then show ?thesis
      using less.hyps[OF l less.prems(1)] False less.prems(1) by auto
  qed
qed

lemma tracks_loop_spec_batch:
  "get_artists_for_tracks_loop c bs acc s =
     (case spec_batch (sp_tracks c) SpTracks bs s of
        (Inl e, s') \<Rightarrow> (Inl e, s')
      | (Inr items, s') \<Rightarrow> (Inr (foldl add_primary_artist acc items), s'))"
  by (induction bs arbitrary: acc s) (auto split: prod.splits sum.splits)

lemma genres_loop_spec_batch:
  "get_artists_genres_loop c bs acc s =
     (case spec_batch (sp_artists c) SpArtists bs s of
        (Inl e, s') \<Rightarrow> (Inl e, s')
      | (Inr items, s') \<Rightarrow> (Inr (foldl add_artist_genres acc items), s'))"
  by (induction bs arbitrary: acc s) (auto split: prod.splits sum.splits)

lemma invoke_calls: "invoke cl f s = (r, s') \<Longrightarrow> snd s' = snd s @ [cl]"
  by (auto simp: invoke_def split: prod.splits)

lemma spec_batch_calls:
  "spec_batch f mk bs s = (Inr items, s') \<Longrightarrow> snd s' = snd s @ map mk bs"
proof (induction bs arbitrary: s items)
  case Nil
  then show ?case by simp
next
  case (Cons b bs)
  then show ?case
    by (auto split: prod.splits sum.splits dest!: invoke_calls)
qed

lemma distinct_set_add: "distinct xs \<Longrightarrow> distinct (set_add x xs)"
  by (simp add: set_add_def)

lemma distinct_add_primary_artist: "distinct acc \<Longrightarrow> distinct (foldl add_primary_artist acc ts)"
  by (induction ts arbitrary: acc)
     (auto simp: add_primary_artist_def distinct_set_add split: option.splits list.splits)

lemma set_add_primary_artist:
  "set (foldl add_primary_artist acc ts) = set acc \<union> set (first_artist_ids ts)"
proof (induction ts arbitrary: acc)
  case Nil
  show ?case by (simp add: first_artist_ids_def)
next
  case (Cons t ts)
  have "set (add_primary_artist acc t) = set acc \<union> set (first_artist_ids [t])"
    by (auto simp: add_primary_artist_def first_artist_ids_def set_add_def
             split: option.splits list.splits)
  moreover have "first_artist_ids (t # ts) = first_artist_ids [t] @ first_artist_ids ts"
    by (simp add: first_artist_ids_def)
  ultimately show ?case using Cons.IH[of "add_primary_artist acc t"] by auto
qed

lemma distinct_add_artist_genres:
  "distinct (map fst acc) \<Longrightarrow> distinct (map fst (foldl add_artist_genres acc as))"
  by (induction as arbitrary: acc)
     (auto simp: add_artist_genres_def distinct_update split: option.splits)

lemma list_of_set_perm: "mset (list_of_set order xs) = mset xs"
  by (simp add: list_of_set_def)

lemma set_list_of_set: "set (list_of_set order xs) = set xs"
  by (simp add: list_of_set_def)

lemma distinct_list_of_set: "distinct (list_of_set order xs) = distinct xs"
  by (simp add: list_of_set_def)

lemma get_artists_for_tracks_spec_batch:
  "get_artists_for_tracks c ids s =
     (case spec_batch (sp_tracks c) SpTracks (batches 50 ids) s of
        (Inl e, s') \<Rightarrow> (Inl e, s')
      | (Inr items, s') \<Rightarrow>
          (Inr (list_of_set (set_order c) (foldl add_primary_artist [] items)), s'))"
  unfolding get_artists_for_tracks_def and_then_def return_def tracks_loop_spec_batch
  by (simp split: prod.splits sum.splits)

text \<open>
  C8 (amended). Both batch functions cut the ids into consecutive chunks of at most 50
  (the chunks are not empty and concatenate to the list) and are the specification's
  batch retrieval followed by a fold over the concatenated responses: the first collapses
  them to the set of the first-artist ids of the tracks returned, enumerated in the
  interpreter's order, so that its result has no repetition and, as a set, holds those
  ids; the second to a dictionary from artist id to genres. When no call raises, the calls
  issued are one per chunk, in chunk order.
\<close>

theorem batch_retrieval_chunks_then_collapses:
  "concat (batches 50 ids) = ids
   \<and> (\<forall>b \<in> set (batches 50 ids). b \<noteq> [] \<and> length b \<le> 50)
   \<and> get_artists_for_tracks c ids s =
       (case spec_batch (sp_tracks c) SpTracks (batches 50 ids) s of
          (Inl e, s') \<Rightarrow> (Inl e, s')
        | (Inr items, s') \<Rightarrow>
            (Inr (list_of_set (set_order c) (foldl add_primary_artist [] items)), s'))
   \<and> get_artists_genres c ids s =
       (case spec_batch (sp_artists c) SpArtists (batches 50 ids) s of
          (Inl e, s') \<Rightarrow> (Inl e, s')
        | (Inr items, s') \<Rightarrow> (Inr (foldl add_artist_genres [] items), s'))
   \<and> (\<forall>r s'. get_artists_for_tracks c ids s = (Inr r, s')
         \<longrightarrow> snd s' = snd s @ map SpTracks (batches 50 ids) \<and> distinct r
             \<and> (\<exists>items. spec_batch (sp_tracks c) SpTracks (batches 50 ids) s = (Inr items, s')
                    \<and> set r = set (first_artist_ids items)))
   \<and> (\<forall>r s'. get_artists_genres c ids s = (Inr r, s')
         \<longrightarrow> snd s' = snd s @ map SpArtists (batches 50 ids) \<and> distinct (map fst r))"
proof (intro conjI allI impI ballI)
  show "concat (batches 50 ids) = ids" by (simp add: batches_concat)
next
  fix b assume "b \<in> set (batches 50 ids)"
  then show "b \<noteq> []" "length b \<le> 50" using batches_bounds[of 50 b ids] by auto
next
  show "get_artists_for_tracks c ids s =
       (case spec_batch (sp_tracks c) SpTracks (batches 50 ids) s of
          (Inl e, s') \<Rightarrow> (Inl e, s')
        | (Inr items, s') \<Rightarrow>
            (Inr (list_of_set (set_order c) (foldl add_primary_artist [] items)), s'))"
    by (rule get_artists_for_tracks_spec_batch)
next
  show "get_artists_genres c ids s =
       (case spec_batch (sp_artists c) SpArtists (batches 50 ids) s of
          (Inl e, s') \<Rightarrow> (Inl e, s')
        | (Inr items, s') \<Rightarrow> (Inr (foldl add_artist_genres [] items), s'))"
    unfolding get_artists_genres_def by (rule genres_loop_spec_batch)
next
  fix r s' assume a: "get_artists_for_tracks c ids s = (Inr r, s')"
  then obtain items where f: "spec_batch (sp_tracks c) SpTracks (batches 50 ids) s = (Inr items, s')"
    and r: "r = list_of_set (set_order c) (foldl add_primary_artist [] items)"
    unfolding get_artists_for_tracks_spec_batch
    by (auto split: prod.splits sum.splits)
  show "snd s' = snd s @ map SpTracks (batches 50 ids)" using spec_batch_calls[OF f] .
  show "distinct r"
    unfolding r distinct_list_of_set by (rule distinct_add_primary_artist) simp
  have "set r = set (first_artist_ids items)"
    unfolding r set_list_of_set set_add_primary_artist by simp
  with f show "\<exists>items. spec_batch (sp_tracks c) SpTracks (batches 50 ids) s = (Inr items, s')
                    \<and> set r = set (first_artist_ids items)"
    by blast
next
  fix r s' assume a: "get_artists_genres c ids s = (Inr r, s')"
  then obtain items where f: "spec_batch (sp_artists c) SpArtists (batches 50 ids) s = (Inr items, s')"
    and r: "r = foldl add_artist_genres [] items"
    unfolding get_artists_genres_def genres_loop_spec_batch
    by (auto split: prod.splits sum.splits)
  show "snd s' = snd s @ map SpArtists (batches 50 ids)" using spec_batch_calls[OF f] .
  show "distinct (map fst r)" unfolding r by (rule distinct_add_artist_genres) simp
qed

lemma batches_small: "batches 50 [''t1'', ''t2''] = [[''t1'', ''t2'']]"
  by (simp add: batches_rec)

lemma ex_tracks_run:
  "get_artists_for_tracks batch_client [''t1'', ''t2''] ((), []) = (Inr [''a1''], ((), [SpTracks [''t1'', ''t2'']]))"
  unfolding get_artists_for_tracks_def batches_small by code_simp

lemma ex_genres_run:
  "get_artists_genres batch_client [''t1'', ''t2''] ((), [])
     = (Inr [(''t1'', [''rock'']), (''t2'', [''rock''])], ((), [SpArtists [''t1'', ''t2'']]))"
  unfolding get_artists_genres_def batches_small by code_simp

lemma ex_ordered_run:
  "get_artists_for_tracks ordered_client [''t1'', ''t2''] ((), [])
     = (Inr [''by t2'', ''by t1''], ((), [SpTracks [''t1'', ''t2'']]))"
  unfolding get_artists_for_tracks_def batches_small by code_simp

lemma ex_ordered_fetch:
  "spec_batch (sp_tracks ordered_client) SpTracks (batches 50 [''t1'', ''t2'']) ((), [])
     = (Inr [Some (ex_track ''t1'' ''by t1'' 10), Some (ex_track ''t2'' ''by t2'' 10)],
        ((), [SpTracks [''t1'', ''t2'']]))"
  unfolding batches_small by code_simp

lemma ex_ordered_ids:
  "first_artist_ids [Some (ex_track ''t1'' ''by t1'' 10), Some (ex_track ''t2'' ''by t2'' 10)]
     = [''by t1'', ''by t2'']"
  by code_simp

theorem batch_retrieval_chunks_then_collapses_witness:
  "[''t1'', ''t2''] \<in> set (batches 50 [''t1'', ''t2''])
   \<and> length [''t1'', ''t2''] \<le> (50 :: nat)
   \<and> get_artists_for_tracks ordered_client [''t1'', ''t2''] ((), [])
        = (Inr [''by t2'', ''by t1''], ((), [SpTracks [''t1'', ''t2'']]))
   \<and> snd ((), [SpTracks [''t1'', ''t2'']]) = snd ((), []) @ map SpTracks (batches 50 [''t1'', ''t2''])
   \<and> distinct [''by t2'', ''by t1'']
   \<and> first_artist_ids [Some (ex_track ''t1'' ''by t1'' 10), Some (ex_track ''t2'' ''by t2'' 10)]
        = [''by t1'', ''by t2'']
   \<and> set [''by t2'', ''by t1''] = set [''by t1'', ''by t2'']
   \<and> get_artists_genres batch_client [''t1'', ''t2''] ((), [])
        = (Inr [(''t1'', [''rock'']), (''t2'', [''rock''])], ((), [SpArtists [''t1'', ''t2'']]))"
proof -
  note all = batch_retrieval_chunks_then_collapses
    [of "[''t1'', ''t2'']" ordered_client "((), [])"]
  from all[THEN conjunct2, THEN conjunct1, rule_format, of "[''t1'', ''t2'']"]
  have 1: "length [''t1'', ''t2''] \<le> (50 :: nat)" by (simp add: batches_small)
  from all[THEN conjunct2, THEN conjunct2, THEN conjunct2, THEN conjunct2, THEN conjunct1,
           rule_format, OF ex_ordered_run]
  have 2: "snd ((), [SpTracks [''t1'', ''t2'']]) = snd ((), []) @ map SpTracks (batches 50 [''t1'', ''t2''])"
    and 3: "distinct [''by t2'', ''by t1'']"
    and 4: "\<exists>items. spec_batch (sp_tracks ordered_client) SpTracks (batches 50 [''t1'', ''t2'']) ((), [])
                      = (Inr items, ((), [SpTracks [''t1'', ''t2'']]))
                  \<and> set [''by t2'', ''by t1''] = set (first_artist_ids items)"
    by blast+
  from 4 have 5: "set [''by t2'', ''by t1''] = set [''by t1'', ''by t2'']"
    unfolding ex_ordered_fetch by (auto simp: ex_ordered_ids)
  from 1 2 3 5 ex_ordered_run ex_ordered_ids ex_genres_run show ?thesis
    by (simp add: batches_small)
qed

lemma ex_fetch_run:
  "spec_batch (sp_tracks batch_client) SpTracks (batches 50 [''t1'', ''t2'']) ((), [])
     = (Inr [Some (ex_track ''t1'' ''a1'' 10), Some (ex_track ''t2'' ''a1'' 10)],
        ((), [SpTracks [''t1'', ''t2'']]))"
  unfolding batches_small by code_simp

text \<open>
  C8 as stated fails: for two tracks of one artist the concatenated responses are two
  items, and the function returns the one artist id.
\<close>

theorem batch_result_not_concatenation_counterexample:
  "fst (spec_batch (sp_tracks batch_client) SpTracks (batches 50 [''t1'', ''t2'']) ((), []))
     = Inr [Some (ex_track ''t1'' ''a1'' 10), Some (ex_track ''t2'' ''a1'' 10)]
   \<and> fst (get_artists_for_tracks batch_client [''t1'', ''t2''] ((), [])) = Inr [''a1'']"
  by (simp only: ex_fetch_run ex_tracks_run fst_conv simp_thms)

section \<open>Genre classification\<close>

lemma contains_sublist: "contains kw g = sublist kw g"
proof (induction g)
  case Nil
  show ?case by simp
next
  case (Cons c cs)
  show ?case
  proof (cases kw)
    case Nil
    then show ?thesis by simp
  next
    case (Cons k ks)
    then show ?thesis using Cons.IH by (simp add: sublist_Cons_right)
  qed
qed

lemma contains_iff: "contains kw g = (\<exists>p s. g = p @ kw @ s)"
  by (simp add: contains_sublist sublist_def)

lemma genre_score_counts:
  "genre_score keywords all_genres = length (filter (matches keywords) all_genres)"
proof -
  have "(\<lambda>g. list_ex (\<lambda>kw. contains kw (lower g)) keywords) = matches keywords"
    by (auto simp: matches_def list_ex_iff contains_iff fun_eq_iff)
  then show ?thesis
    by (simp add: genre_score_def sum_list_triv)
qed

lemma best_inv_step:
  assumes "best_inv gs cs best"
  shows "best_inv gs (cs @ [entry]) (best_step gs best entry)"
proof -
  obtain bc bs where best: "best = (bc, bs)" by (cases best)
  obtain category kws where entry: "entry = (category, kws)" by (cases entry)
  let ?sc = "genre_score kws gs"
  from assms have le: "\<forall>j < length cs. genre_score (snd (cs ! j)) gs \<le> bs"
    and zero: "bs = 0 \<longrightarrow> bc = None"
    and pos: "0 < bs \<longrightarrow> (\<exists>i < length cs. bc = Some (fst (cs ! i))
              \<and> genre_score (snd (cs ! i)) gs = bs
              \<and> (\<forall>j < i. genre_score (snd (cs ! j)) gs < bs))"
    unfolding best_inv_def best by auto
  show ?thesis
  proof (cases "?sc > bs")
    case True
    have step: "best_step gs best entry = (Some category, ?sc)"
      using True by (simp add: best_step_def best entry)
    have "\<forall>j < length cs. genre_score (snd (cs ! j)) gs < ?sc"
      using le True by fastforce
    then show ?thesis
      unfolding step best_inv_def using True
      by (auto simp: nth_append entry less_Suc_eq intro!: exI[of _ "length cs"] dest: less_imp_le)
  next
    case False
    have step: "best_step gs best entry = (bc, bs)"
      using False by (simp add: best_step_def best entry)
    have a: "\<forall>j < length (cs @ [entry]). genre_score (snd ((cs @ [entry]) ! j)) gs \<le> bs"
      using le False by (auto simp: nth_append entry less_Suc_eq)
    have b: "0 < bs \<longrightarrow> (\<exists>i < length (cs @ [entry]). bc = Some (fst ((cs @ [entry]) ! i))
              \<and> genre_score (snd ((cs @ [entry]) ! i)) gs = bs
              \<and> (\<forall>j < i. genre_score (snd ((cs @ [entry]) ! j)) gs < bs))"
    proof
      assume "0 < bs"
      with pos obtain i where i: "i < length cs" "bc = Some (fst (cs ! i))"
        "genre_score (snd (cs ! i)) gs = bs" "\<forall>j < i. genre_score (snd (cs ! j)) gs < bs"
        by blast
      show "\<exists>i < length (cs @ [entry]). bc = Some (fst ((cs @ [entry]) ! i))
              \<and> genre_score (snd ((cs @ [entry]) ! i)) gs = bs
              \<and> (\<forall>j < i. genre_score (snd ((cs @ [entry]) ! j)) gs < bs)"
        using i by (intro exI[of _ i]) (auto simp: nth_append)
    qed
    show ?thesis
      unfolding step best_inv_def using a b zero by simp
  qed
qed

lemma best_inv_foldl: "best_inv gs cs (foldl (best_step gs) (None, 0) cs)"
proof (induction cs rule: rev_induct)
  case Nil
  show ?case by (simp add: best_inv_def)
next
  case (snoc c cs)
  then show ?case by (simp add: best_inv_step)
qed

lemma genre_score_empty: "genre_score keywords [] = 0"
  by (simp add: genre_score_def)

lemma best_step_empty: "best_step [] (None, 0) entry = (None, 0)"
  by (cases entry) (simp add: best_step_def genre_score_empty)

lemma best_category_of_empty: "best_category_of categories [] = (None, 0)"
  unfolding best_category_of_def
  by (induction categories) (simp_all add: best_step_empty)

text \<open>
  C2. The score of a category is the number of tags (counted with repetition, each tag
  once) in which some keyword of the category occurs after lower-casing. The scan returns
  the maximum score; with a maximum of 0 it returns no category, otherwise the first
  category in the taxonomy's order that attains the maximum. The empty tag list gives
  (none, 0). This holds for every taxonomy, so for \<open>GENRE_CATEGORIES\<close>.
\<close>

theorem classify_counts_tags_first_maximum_wins:
  "(\<forall>entry \<in> set categories.
       genre_score (snd entry) all_genres
         = length (filter (\<lambda>g. \<exists>kw \<in> set (snd entry). \<exists>p s. lower g = p @ kw @ s) all_genres))
   \<and> (\<forall>best_category best_score.
        best_category_of categories all_genres = (best_category, best_score) \<longrightarrow>
          (\<forall>j < length categories. genre_score (snd (categories ! j)) all_genres \<le> best_score)
        \<and> (best_score = 0 \<longrightarrow> best_category = None)
        \<and> (0 < best_score \<longrightarrow>
             (\<exists>i < length categories. best_category = Some (fst (categories ! i))
                \<and> genre_score (snd (categories ! i)) all_genres = best_score
                \<and> (\<forall>j < i. genre_score (snd (categories ! j)) all_genres < best_score))))
   \<and> best_category_of categories [] = (None, 0)"
proof -
  have counts: "\<forall>entry \<in> set categories.
       genre_score (snd entry) all_genres
         = length (filter (\<lambda>g. \<exists>kw \<in> set (snd entry). \<exists>p s. lower g = p @ kw @ s) all_genres)"
    using genre_score_counts by (simp add: matches_def[abs_def])
  have "best_inv all_genres categories (best_category_of categories all_genres)"
    using best_inv_foldl[of all_genres categories] by (simp add: best_category_of_def)
  then have best: "\<forall>best_category best_score.
        best_category_of categories all_genres = (best_category, best_score) \<longrightarrow>
          (\<forall>j < length categories. genre_score (snd (categories ! j)) all_genres \<le> best_score)
        \<and> (best_score = 0 \<longrightarrow> best_category = None)
        \<and> (0 < best_score \<longrightarrow>
             (\<exists>i < length categories. best_category = Some (fst (categories ! i))
                \<and> genre_score (snd (categories ! i)) all_genres = best_score
                \<and> (\<forall>j < i. genre_score (snd (categories ! j)) all_genres < best_score)))"
    by (auto simp: best_inv_def)
  show ?thesis
    using counts best best_category_of_empty[of categories] by (intro conjI)
qed

lemma ex_classify_run:
  "best_category_of GENRE_CATEGORIES [''Indie Pop'', ''rock'']
     = (Some (fst (GENRE_CATEGORIES ! 0)), 1)"
  by code_simp

theorem classify_counts_tags_first_maximum_wins_witness:
  "best_category_of GENRE_CATEGORIES [''Indie Pop'', ''rock''] = (Some (fst (GENRE_CATEGORIES ! 0)), 1)
   \<and> (\<exists>i < length GENRE_CATEGORIES.
         Some (fst (GENRE_CATEGORIES ! 0)) = Some (fst (GENRE_CATEGORIES ! i))
       \<and> genre_score (snd (GENRE_CATEGORIES ! i)) [''Indie Pop'', ''rock''] = 1
       \<and> (\<forall>j < i. genre_score (snd (GENRE_CATEGORIES ! j)) [''Indie Pop'', ''rock''] < 1))"
proof -
  have pos: "(0::nat) < 1" by simp
  from classify_counts_tags_first_maximum_wins [of GENRE_CATEGORIES "[''Indie Pop'', ''rock'']"]
    ex_classify_run pos
  show ?thesis by blast
qed

section \<open>ArtistDeepDive: the three playlists\<close>










text \<open>
  A run of the whole tool on the small catalog: the calls in order.
\<close>

lemma ex_deep_dive_run:
  "snd (artist_deep_dive discography_client
          \<lparr>artist_name_arg = ''A'', include_singles_arg = Absent,
             deep_cuts_max_popularity_arg = Absent\<rparr> ((), []))
     = ((), [Search ''A'' ''artist'' 1, GetArtistAlbums ''A1'' (Some True),
             GetAlbumTracksFull ''al1'', SpTrack ''t1'', SpTrack ''t4'',
             GetAlbumTracksFull ''al2'', SpTrack ''t2'',
             CreatePlaylist ''Best of A1'' ''Top 20 most popular tracks by A1'',
             AddTracksToPlaylist ''Best of A1'' [''t2'', ''t4''],
             CreatePlaylist ''A1: Deep Cuts'' ''Hidden gems and lesser-known tracks by A1'',
             CreatePlaylist ''A1: Through the Years''
               ''Complete discography of A1 in chronological order'',
             AddTracksToPlaylist ''A1: Through the Years'' [''t4'', ''t2'']])"
  by code_simp

section \<open>Discover: excluded tracks are never recommended\<close>

lemma clean_accept_genre_track:
  "clean ex g \<Longrightarrow> clean ex (accept_genre_track ex genre g track)"
  by (auto simp: clean_def accept_genre_track_def Let_def)

lemma clean_accept_top_track:
  "clean ex g \<Longrightarrow> clean ex (accept_top_track ex artist g track)"
  by (auto simp: clean_def accept_top_track_def Let_def)

lemma clean_foldl_genre:
  "clean ex g \<Longrightarrow> clean ex (foldl (accept_genre_track ex genre) g tracks)"
  by (induction tracks arbitrary: g) (simp_all add: clean_accept_genre_track)

lemma clean_foldl_top:
  "clean ex g \<Longrightarrow> clean ex (foldl (accept_top_track ex artist) g tracks)"
  by (induction tracks arbitrary: g) (simp_all add: clean_accept_top_track)

lemma clean_genre_stage:
  "clean ex g \<Longrightarrow> clean ex (fst (genre_stage c ex year_range genres g s))"
proof (induction genres arbitrary: g s)
  case Nil
  then show ?case by simp
next
  case (Cons genre rest)
  then show ?case
    by (auto split: prod.splits sum.splits intro: clean_foldl_genre)
qed

lemma clean_augment_loop:
  "clean ex g \<Longrightarrow> clean ex (fst (augment_loop c ex artists g s))"
proof (induction artists arbitrary: g s)
  case Nil
  then show ?case by simp
next
  case (Cons artist rest)
  then show ?case
    by (auto split: prod.splits sum.splits intro: clean_foldl_top)
qed

lemma clean_augment_stage:
  "clean ex g \<Longrightarrow> clean ex (fst (augment_stage c seed_type seed_genres ex g s))"
  unfolding augment_stage_def
  by (auto split: prod.splits sum.splits intro: clean_augment_loop)

lemma candidates_clean:
  "r \<in> set (fst (candidates c seed_type seed_genres year_range s))
     \<Longrightarrow> rec_id r \<notin> fst (get_exclude_ids c s)"
proof -
  assume r: "r \<in> set (fst (candidates c seed_type seed_genres year_range s))"
  obtain ex s2 where e: "get_exclude_ids c s = (ex, s2)" by (cases "get_exclude_ids c s")
  let ?g0 = "\<lparr>recommendations = [], seen_track_ids = {}, artist_track_counts = Map.empty\<rparr>"
  obtain g3 s3 where g3: "genre_stage c ex year_range seed_genres ?g0 s2 = (g3, s3)"
    by (cases "genre_stage c ex year_range seed_genres ?g0 s2")
  obtain g4 s4 where g4: "augment_stage c seed_type seed_genres ex g3 s3 = (g4, s4)"
    by (cases "augment_stage c seed_type seed_genres ex g3 s3")
  have "clean ex ?g0" by (simp add: clean_def)
  then have "clean ex g3" using clean_genre_stage[of ex ?g0 c year_range seed_genres s2] g3 by simp
  then have "clean ex g4" using clean_augment_stage[of ex g3 c seed_type seed_genres s3] g4 by simp
  moreover have "fst (candidates c seed_type seed_genres year_range s) = recommendations g4"
    by (simp add: candidates_def e g3 g4)
  ultimately show ?thesis using r e by (simp add: clean_def)
qed

lemma set_slice_to: "set (slice_to n xs) \<subseteq> set xs"
  by (auto simp: slice_to_def dest: in_set_takeD)

lemma set_rank: "set (rank seed_popularity limit recs) \<subseteq> set recs"
  using set_slice_to[of limit "sort_key (score_track seed_popularity) recs"]
  by (simp add: rank_def)

lemma recommend_result:
  assumes "recommend c arguments limit seed_type seed_genres seed_artist_name seed_popularity s
             = (Inr (Json r), s')"
  shows "map listed_id (result_recommendations r)
           = map rec_id (rank seed_popularity limit
               (fst (candidates c seed_type seed_genres
                  (get_or ''2015-2025'' (year_range_arg arguments)) s)))"
  using assms
  by (auto simp: recommend_def Let_def and_then_def return_def comp_def
           split: prod.splits sum.splits if_splits)

lemma discover_result:
  assumes "discover c arguments s = (Json r, s')"
  shows "\<exists>limit seed_genres seed_artist_name seed_popularity s1.
           limit_of arguments = Inr limit
         \<and> resolve_seed c (show_opt (seed_type_arg arguments)) (show_opt (seed_value_arg arguments)) s
             = (Inr (Inr (seed_genres, seed_artist_name, seed_popularity)), s1)
         \<and> recommend c arguments limit (show_opt (seed_type_arg arguments)) seed_genres
             seed_artist_name seed_popularity s1 = (Inr (Json r), s')"
proof (cases "limit_of arguments")
  case (Inl e)
  with assms show ?thesis
    by (simp add: discover_def discover_body_def handle_def Let_def raise_def)
next
  case (Inr limit)
  with assms show ?thesis
    by (auto simp: discover_def discover_body_def handle_def Let_def and_then_def return_def
             split: prod.splits sum.splits if_splits)
qed

text \<open>
  C5. The genre-driven stage and the similar-artist stage keep the candidates free of
  excluded ids; hence, whenever Discover returns a result, no recommendation listed in it
  has an id of the exclusion set computed after the seed was resolved. That set is the
  union of the recent and the saved ids when both calls succeed.
\<close>

theorem discover_never_lists_excluded_ids:
  "(\<forall>g. (\<forall>r \<in> set (recommendations g). rec_id r \<notin> exclude_ids) \<longrightarrow>
        (\<forall>r \<in> set (recommendations (fst (genre_stage c exclude_ids year_range seed_genres g s))).
           rec_id r \<notin> exclude_ids))
   \<and> (\<forall>g. (\<forall>r \<in> set (recommendations g). rec_id r \<notin> exclude_ids) \<longrightarrow>
        (\<forall>r \<in> set (recommendations (fst (augment_stage c seed_type seed_genres exclude_ids g s))).
           rec_id r \<notin> exclude_ids))
   \<and> (\<forall>r s'. discover c arguments s = (Json r, s') \<longrightarrow>
        (\<exists>seed s1.
           resolve_seed c (show_opt (seed_type_arg arguments)) (show_opt (seed_value_arg arguments)) s
             = (Inr (Inr seed), s1)
         \<and> set (map listed_id (result_recommendations r)) \<inter> fst (get_exclude_ids c s1) = {}))
   \<and> (\<forall>recent saved s1 s2.
        invoke (GetRecentTrackIds 50) (get_recent_track_ids c 50) s = (Inr recent, s1)
        \<and> invoke (GetUserSavedTrackIds 100) (get_user_saved_track_ids c 100) s1 = (Inr saved, s2)
        \<longrightarrow> fst (get_exclude_ids c s) = set recent \<union> set saved)"
proof -
  have stage3: "\<forall>g. (\<forall>r \<in> set (recommendations g). rec_id r \<notin> exclude_ids) \<longrightarrow>
        (\<forall>r \<in> set (recommendations (fst (genre_stage c exclude_ids year_range seed_genres g s))).
           rec_id r \<notin> exclude_ids)"
    using clean_genre_stage[of exclude_ids _ c year_range seed_genres s]
    unfolding clean_def by blast
  have stage4: "\<forall>g. (\<forall>r \<in> set (recommendations g). rec_id r \<notin> exclude_ids) \<longrightarrow>
        (\<forall>r \<in> set (recommendations (fst (augment_stage c seed_type seed_genres exclude_ids g s))).
           rec_id r \<notin> exclude_ids)"
    using clean_augment_stage[of exclude_ids _ c seed_type seed_genres s]
    unfolding clean_def by blast
  have whole: "\<exists>seed s1.
           resolve_seed c (show_opt (seed_type_arg arguments)) (show_opt (seed_value_arg arguments)) s
             = (Inr (Inr seed), s1)
         \<and> set (map listed_id (result_recommendations r)) \<inter> fst (get_exclude_ids c s1) = {}"
    if run: "discover c arguments s = (Json r, s')" for r s'
  proof -
    from discover_result[OF run] obtain limit seed_genres seed_artist_name seed_popularity s1
      where seed: "resolve_seed c (show_opt (seed_type_arg arguments))
                     (show_opt (seed_value_arg arguments)) s
                   = (Inr (Inr (seed_genres, seed_artist_name, seed_popularity)), s1)"
        and rest: "recommend c arguments limit (show_opt (seed_type_arg arguments)) seed_genres
                     seed_artist_name seed_popularity s1 = (Inr (Json r), s')"
      by blast
    let ?cands = "fst (candidates c (show_opt (seed_type_arg arguments)) seed_genres
                    (get_or ''2015-2025'' (year_range_arg arguments)) s1)"
    have ids: "map listed_id (result_recommendations r)
                 = map rec_id (rank seed_popularity limit ?cands)"
      by (rule recommend_result[OF rest])
    have "rec_id t \<notin> fst (get_exclude_ids c s1)"
      if "t \<in> set (rank seed_popularity limit ?cands)" for t
      using that set_rank candidates_clean by blast
    then have "set (map listed_id (result_recommendations r)) \<inter> fst (get_exclude_ids c s1) = {}"
      unfolding ids by auto
    with seed show ?thesis by blast
  qed
  have union: "\<forall>recent saved s1 s2.
        invoke (GetRecentTrackIds 50) (get_recent_track_ids c 50) s = (Inr recent, s1)
        \<and> invoke (GetUserSavedTrackIds 100) (get_user_saved_track_ids c 100) s1 = (Inr saved, s2)
        \<longrightarrow> fst (get_exclude_ids c s) = set recent \<union> set saved"
    by (simp add: get_exclude_ids_def)
  from stage3 stage4 whole union show ?thesis by blast
qed

lemma small_discover_run:
  "discover small_client (artist_seed_args None) ((), []) = (Json small_result, ((), small_calls))"
  by code_simp

lemma small_seed_run:
  "resolve_seed small_client (show_opt (seed_type_arg (artist_seed_args None)))
     (show_opt (seed_value_arg (artist_seed_args None))) ((), [])
   = (Inr (Inr ([''indie rock'', ''shoegaze''], Some ''A1'', 50)),
      ((), [Search ''Artist A'' ''artist'' 1, GetArtist ''A1'']))"
  by code_simp

lemma small_exclude_run:
  "fst (get_exclude_ids small_client ((), [Search ''Artist A'' ''artist'' 1, GetArtist ''A1'']))
     = {''x1'', ''x2''}"
  by code_simp

theorem discover_never_lists_excluded_ids_witness:
  "discover small_client (artist_seed_args None) ((), []) = (Json small_result, ((), small_calls))
   \<and> fst (get_exclude_ids small_client ((), [Search ''Artist A'' ''artist'' 1, GetArtist ''A1'']))
        = {''x1'', ''x2''}
   \<and> set (map listed_id (result_recommendations small_result)) \<inter> {''x1'', ''x2''} = {}"
proof -
  note whole = discover_never_lists_excluded_ids
         [where c = small_client and arguments = "artist_seed_args None" and s = "((), [])",
          THEN conjunct2, THEN conjunct2, THEN conjunct1, rule_format, OF small_discover_run]
  then obtain seed s1 where
    seed: "resolve_seed small_client (show_opt (seed_type_arg (artist_seed_args None)))
             (show_opt (seed_value_arg (artist_seed_args None))) ((), []) = (Inr (Inr seed), s1)"
    and disj: "set (map listed_id (result_recommendations small_result))
                 \<inter> fst (get_exclude_ids small_client s1) = {}"
    by (elim exE conjE)
  from seed have "s1 = ((), [Search ''Artist A'' ''artist'' 1, GetArtist ''A1''])"
    unfolding small_seed_run by (elim Pair_inject) (rule sym)
  with disj have "set (map listed_id (result_recommendations small_result)) \<inter> {''x1'', ''x2''} = {}"
    by (simp only: small_exclude_run)
  with small_exclude_run small_discover_run show ?thesis
    by (intro conjI)
qed

section \<open>Validation errors\<close>

lemma discover_null_limit:
  assumes "limit_arg arguments = Null"
  shows "discover c arguments s = (Text (error_text (Exception less_than_none_text)), s)"
  using assms
  by (simp add: discover_def discover_body_def handle_def raise_def Let_def limit_of_def
        get_or_def)

lemma limit_of_given:
  assumes "limit_arg arguments \<noteq> Null"
  shows "\<exists>limit. limit_of arguments = Inr limit"
  using assms by (cases "limit_arg arguments") (simp_all add: limit_of_def get_or_def)

lemma discover_invalid_seed_type:
  assumes "seed_type_arg arguments \<notin> set [Some ''artist'', Some ''track'', Some ''listening_history'']"
    and "limit_arg arguments \<noteq> Null"
  shows "discover c arguments s = (Text (invalid_seed_type_text (seed_type_arg arguments)), s)"
proof -
  from limit_of_given[OF assms(2)] obtain limit where "limit_of arguments = Inr limit" ..
  with assms(1) show ?thesis
    by (simp add: discover_def discover_body_def handle_def return_def Let_def
          invalid_seed_type_text_def)
qed

lemma discover_missing_seed_value:
  assumes "seed_type_arg arguments \<in> set [Some ''artist'', Some ''track'']"
    and "\<not> truthy (seed_value_arg arguments)"
    and "limit_arg arguments \<noteq> Null"
  shows "discover c arguments s = (Text (seed_value_required_text (seed_type_arg arguments)), s)"
proof -
  from limit_of_given[OF assms(3)] obtain limit where "limit_of arguments = Inr limit" ..
  with assms(1,2) show ?thesis
    by (auto simp: discover_def discover_body_def handle_def return_def Let_def
          seed_value_required_text_def)
qed

lemma my_top_music_null_top_count:
  assumes "top_count_arg arguments = Null"
  shows "my_top_music c arguments s = (Text (error_text (Exception int_of_none_text)), s)"
  using assms
  by (simp add: my_top_music_def my_top_music_body_def handle_def raise_def Let_def get_or_def)

lemma period_of_None:
  assumes "time_range \<notin> set [Some ''short_term'', Some ''medium_term'', Some ''long_term'']"
  shows "period_of time_range = None"
  using assms by (cases time_range) (auto simp: period_of_def period_labels_def)

lemma my_top_music_invalid_time_range:
  assumes "get_or ''short_term'' (time_range_arg arguments)
             \<notin> set [Some ''short_term'', Some ''medium_term'', Some ''long_term'']"
    and "top_count_arg arguments \<noteq> Null"
  shows "my_top_music c arguments s
           = (Text (invalid_time_range_text
                (show_opt (get_or ''short_term'' (time_range_arg arguments)))), s)"
proof -
  from assms(2) obtain n where "get_or 10 (top_count_arg arguments) = Some n"
    by (cases "top_count_arg arguments") (simp_all add: get_or_def)
  then show ?thesis
    using period_of_None[OF assms(1)]
    by (simp add: my_top_music_def my_top_music_body_def handle_def return_def Let_def
          invalid_time_range_text_def)
qed

text \<open>
  C9. A Discover call whose seed type is none of artist, track and listening\_history, a
  Discover call with an artist or track seed and a missing or empty seed value, and a
  MyTopMusic call whose time range is none of the three periods (\<open>null\<close> is none of them),
  each answer with a message and leave the state as it was: the remote state is untouched
  and no call is added to the log. The message is the validation message; when the
  argument that is converted before the validation (\<open>limit\<close> in Discover, \<open>top_count\<close> in
  MyTopMusic) is \<open>null\<close>, it is the message of the handler for the \<open>TypeError\<close> raised
  there.
\<close>

theorem validation_errors_reply_without_calls:
  "(seed_type_arg arguments \<notin> set [Some ''artist'', Some ''track'', Some ''listening_history'']
      \<longrightarrow> discover c arguments s
            = (Text (if limit_arg arguments = Null
                     then error_text (Exception less_than_none_text)
                     else invalid_seed_type_text (seed_type_arg arguments)), s))
   \<and> (seed_type_arg arguments \<in> set [Some ''artist'', Some ''track'']
        \<and> \<not> truthy (seed_value_arg arguments)
      \<longrightarrow> discover c arguments s
            = (Text (if limit_arg arguments = Null
                     then error_text (Exception less_than_none_text)
                     else seed_value_required_text (seed_type_arg arguments)), s))
   \<and> (get_or ''short_term'' (time_range_arg top_arguments)
         \<notin> set [Some ''short_term'', Some ''medium_term'', Some ''long_term'']
      \<longrightarrow> my_top_music c top_arguments s
            = (Text (if top_count_arg top_arguments = Null
                     then error_text (Exception int_of_none_text)
                     else invalid_time_range_text
                            (show_opt (get_or ''short_term'' (time_range_arg top_arguments)))), s))"
  using discover_invalid_seed_type[of arguments c s] discover_missing_seed_value[of arguments c s]
    discover_null_limit[of arguments c s]
    my_top_music_invalid_time_range[of top_arguments c s]
    my_top_music_null_top_count[of top_arguments c s]
  by simp

lemma validation_texts:
  "invalid_seed_type_text (Some ''album'')
     = ''Invalid seed_type: album. Must be '' @ [CHR 0x27] @ ''artist'' @ [CHR 0x27] @ '', ''
       @ [CHR 0x27] @ ''track'' @ [CHR 0x27] @ '', or '' @ [CHR 0x27] @ ''listening_history''
       @ [CHR 0x27] @ ''.''"
  "seed_value_required_text (Some ''artist'')
     = ''seed_value is required for seed_type '' @ [CHR 0x27] @ ''artist'' @ [CHR 0x27] @ ''.''"
  "invalid_time_range_text (show_opt None)
     = ''Invalid time_range: None. Must be '' @ [CHR 0x27] @ ''short_term'' @ [CHR 0x27] @ '', ''
       @ [CHR 0x27] @ ''medium_term'' @ [CHR 0x27] @ '', or '' @ [CHR 0x27] @ ''long_term''
       @ [CHR 0x27] @ ''.''"
  "error_text (Exception less_than_none_text)
     = ''Unexpected error occurred: '' @ [CHR 0x27] @ ''<'' @ [CHR 0x27]
       @ '' not supported between instances of '' @ [CHR 0x27] @ ''int'' @ [CHR 0x27] @ '' and ''
       @ [CHR 0x27] @ ''NoneType'' @ [CHR 0x27]"
  by (simp_all add: invalid_seed_type_text_def seed_value_required_text_def
        invalid_time_range_text_def error_text_def less_than_none_text_def quoted_def
        show_opt_def)

theorem validation_errors_reply_without_calls_witness:
  "discover small_client ((artist_seed_args None)\<lparr>seed_type_arg := Some ''album''\<rparr>) ((), [])
     = (Text (invalid_seed_type_text (Some ''album'')), ((), []))
   \<and> discover small_client
        ((artist_seed_args None)\<lparr>seed_type_arg := Some ''album'', limit_arg := Null\<rparr>) ((), [])
     = (Text (error_text (Exception less_than_none_text)), ((), []))
   \<and> discover small_client ((artist_seed_args None)\<lparr>seed_value_arg := None\<rparr>) ((), [])
     = (Text (seed_value_required_text (Some ''artist'')), ((), []))
   \<and> my_top_music small_client (top_music_args_of (Given ''week'') Absent) ((), [])
     = (Text (invalid_time_range_text ''week''), ((), []))
   \<and> my_top_music small_client (top_music_args_of Null (Given 5)) ((), [])
     = (Text (invalid_time_range_text (show_opt None)), ((), []))
   \<and> my_top_music small_client (top_music_args_of (Given ''week'') Null) ((), [])
     = (Text (error_text (Exception int_of_none_text)), ((), []))
   \<and> snd (snd (discover small_client (artist_seed_args None) ((), []))) = small_calls"
proof -
  have e: "snd (snd (discover small_client (artist_seed_args None) ((), []))) = small_calls"
    by (simp add: small_discover_run)
  from validation_errors_reply_without_calls
         [of "(artist_seed_args None)\<lparr>seed_type_arg := Some ''album''\<rparr>" small_client "((), [])"]
  have 1: "discover small_client ((artist_seed_args None)\<lparr>seed_type_arg := Some ''album''\<rparr>) ((), [])
     = (Text (invalid_seed_type_text (Some ''album'')), ((), []))"
    by (simp add: artist_seed_args_def)
  from validation_errors_reply_without_calls
         [of "(artist_seed_args None)\<lparr>seed_type_arg := Some ''album'', limit_arg := Null\<rparr>"
             small_client "((), [])"]
  have 2: "discover small_client
        ((artist_seed_args None)\<lparr>seed_type_arg := Some ''album'', limit_arg := Null\<rparr>) ((), [])
     = (Text (error_text (Exception less_than_none_text)), ((), []))"
    by (simp add: artist_seed_args_def)
  from validation_errors_reply_without_calls
         [of "(artist_seed_args None)\<lparr>seed_value_arg := None\<rparr>" small_client "((), [])"]
  have 3: "discover small_client ((artist_seed_args None)\<lparr>seed_value_arg := None\<rparr>) ((), [])
     = (Text (seed_value_required_text (Some ''artist'')), ((), []))"
    by (simp add: artist_seed_args_def truthy_def)
  from validation_errors_reply_without_calls
         [where top_arguments = "top_music_args_of (Given ''week'') Absent" and c = small_client
            and s = "((), [])"]
  have 4: "my_top_music small_client (top_music_args_of (Given ''week'') Absent) ((), [])
     = (Text (invalid_time_range_text ''week''), ((), []))"
    by (simp add: top_music_args_of_def get_or_def show_opt_def)
  from validation_errors_reply_without_calls
         [where top_arguments = "top_music_args_of Null (Given 5)" and c = small_client
            and s = "((), [])"]
  have 5: "my_top_music small_client (top_music_args_of Null (Given 5)) ((), [])
     = (Text (invalid_time_range_text (show_opt None)), ((), []))"
    by (simp add: top_music_args_of_def get_or_def)
  from validation_errors_reply_without_calls
         [where top_arguments = "top_music_args_of (Given ''week'') Null" and c = small_client
            and s = "((), [])"]
  have 6: "my_top_music small_client (top_music_args_of (Given ''week'') Null) ((), [])
     = (Text (error_text (Exception int_of_none_text)), ((), []))"
    by (simp add: top_music_args_of_def get_or_def)
  from 1 2 3 4 5 6 e show ?thesis by (intro conjI)
qed

section \<open>PlaylistLibrarian works on the owned playlists only\<close>

lemma extends_refl: "extends P s s"
  by (simp add: extends_def)

lemma extends_trans:
  assumes "extends P s s'" and "extends P s' s''"
  shows "extends P s s''"
proof -
  from assms(1) obtain new1 where 1: "snd s' = snd s @ new1" "\<forall>cl \<in> set new1. P cl"
    unfolding extends_def by (elim exE conjE)
  from assms(2) obtain new2 where 2: "snd s'' = snd s' @ new2" "\<forall>cl \<in> set new2. P cl"
    unfolding extends_def by (elim exE conjE)
  have "snd s'' = snd s @ (new1 @ new2)" using 1(1) 2(1) by simp
  moreover have "\<forall>cl \<in> set (new1 @ new2). P cl" using 1(2) 2(2) by auto
  ultimately show ?thesis unfolding extends_def by (intro exI conjI)
qed

lemma extends_mono:
  assumes "extends P s s'" and "\<And>cl. P cl \<Longrightarrow> Q cl"
  shows "extends Q s s'"
proof -
  from assms(1) obtain new1 where 1: "snd s' = snd s @ new1" "\<forall>cl \<in> set new1. P cl"
    unfolding extends_def by (elim exE conjE)
  from 1(2) assms(2) have "\<forall>cl \<in> set new1. Q cl" by simp
  with 1(1) show ?thesis unfolding extends_def by (intro exI conjI)
qed

lemma extends_invoke:
  assumes "invoke cl f s = (r, s')" and "P cl"
  shows "extends P s s'"
proof -
  from assms(1) have "snd s' = snd s @ [cl]" by (rule invoke_calls)
  moreover have "\<forall>x \<in> set [cl]. P x" using assms(2) by simp
  ultimately show ?thesis unfolding extends_def by (intro exI conjI)
qed

lemma extends_tracks_loop:
  "get_artists_for_tracks_loop c bs acc s = (r, s') \<Longrightarrow> extends (\<lambda>cl. \<exists>ids. cl = SpTracks ids) s s'"
proof (induction bs arbitrary: acc s)
  case Nil
  then show ?case by (simp add: extends_refl)
next
  case (Cons b bs)
  obtain r1 s1 where i: "invoke (SpTracks b) (sp_tracks c b) s = (r1, s1)"
    by (cases "invoke (SpTracks b) (sp_tracks c b) s")
  have e1: "extends (\<lambda>cl. \<exists>ids. cl = SpTracks ids) s s1"
    by (rule extends_invoke[OF i]) (rule exI, rule refl)
  show ?case
  proof (cases r1)
    case (Inl e)
    with Cons.prems i have "s' = s1" by simp
    with e1 show ?thesis by simp
  next
    case (Inr tracks)
    with Cons.prems i
    have "get_artists_for_tracks_loop c bs (foldl add_primary_artist acc tracks) s1 = (r, s')"
      by simp
    from extends_trans[OF e1 Cons.IH[OF this]] show ?thesis .
  qed
qed

lemma extends_genres_loop:
  "get_artists_genres_loop c bs acc s = (r, s') \<Longrightarrow> extends (\<lambda>cl. \<exists>ids. cl = SpArtists ids) s s'"
proof (induction bs arbitrary: acc s)
  case Nil
  then show ?case by (simp add: extends_refl)
next
  case (Cons b bs)
  obtain r1 s1 where i: "invoke (SpArtists b) (sp_artists c b) s = (r1, s1)"
    by (cases "invoke (SpArtists b) (sp_artists c b) s")
  have e1: "extends (\<lambda>cl. \<exists>ids. cl = SpArtists ids) s s1"
    by (rule extends_invoke[OF i]) (rule exI, rule refl)
  show ?case
  proof (cases r1)
    case (Inl e)
    with Cons.prems i have "s' = s1" by simp
    with e1 show ?thesis by simp
  next
    case (Inr results)
    with Cons.prems i
    have "get_artists_genres_loop c bs (foldl add_artist_genres acc results) s1 = (r, s')"
      by simp
    from extends_trans[OF e1 Cons.IH[OF this]] show ?thesis .
  qed
qed

lemma apply_change_calls:
  assumes "apply_change c dry_run st playlist best new n s = (r, s')"
  shows "extends (\<lambda>cl. \<exists>m. cl = ChangePlaylistDetails (pl_id playlist) m) s s'"
proof (cases "is_set dry_run")
  case True
  with assms have "s' = s" by (simp add: apply_change_def Let_def)
  then show ?thesis by (simp add: extends_refl)
next
  case False
  obtain r1 s1 where i: "invoke (ChangePlaylistDetails (pl_id playlist) new)
                (change_playlist_details c (pl_id playlist) new) s = (r1, s1)"
    by (cases "invoke (ChangePlaylistDetails (pl_id playlist) new)
                (change_playlist_details c (pl_id playlist) new) s")
  with assms False have "s' = s1"
    by (cases r1) (simp_all add: apply_change_def Let_def)
  moreover have "extends (\<lambda>cl. \<exists>m. cl = ChangePlaylistDetails (pl_id playlist) m) s s1"
    by (rule extends_invoke[OF i]) (rule exI, rule refl)
  ultimately show ?thesis by simp
qed

lemma apply_change_changes:
  assumes "apply_change c dry_run st playlist best new n s = (Inr st', s')"
    and "ch \<in> set (changes st')"
  shows "ch \<in> set (changes st)
         \<or> (change_playlist_id ch = pl_id playlist \<and> original_name ch = pl_name playlist)"
proof (cases "is_set dry_run")
  case True
  with assms show ?thesis by (auto simp: apply_change_def Let_def)
next
  case False
  obtain r1 s1 where i: "invoke (ChangePlaylistDetails (pl_id playlist) new)
                (change_playlist_details c (pl_id playlist) new) s = (r1, s1)"
    by (cases "invoke (ChangePlaylistDetails (pl_id playlist) new)
                (change_playlist_details c (pl_id playlist) new) s")
  with assms False show ?thesis
    by (cases r1) (auto simp: apply_change_def Let_def)
qed

lemma categorize_cases:
  assumes "categorize c dry_run style st playlist all_genres s = (r, s')"
  shows "(s' = s \<and> (r = Inr (skip st) \<or> (\<exists>e. r = Inl e)))
         \<or> (\<exists>best new n. apply_change c dry_run st playlist best new n s = (r, s'))"
proof -
  obtain bc bs where b: "best_category_of GENRE_CATEGORIES all_genres = (bc, bs)"
    by (cases "best_category_of GENRE_CATEGORIES all_genres")
  show ?thesis
  proof (cases "truthy bc \<and> bs > 0")
    case False
    with assms b show ?thesis by (auto simp: categorize_def)
  next
    case True
    show ?thesis
    proof (cases "prefixed_name style (show_opt bc) (pl_name playlist)")
      case (Inl e)
      with assms b True show ?thesis by (auto simp: categorize_def)
    next
      case (Inr new)
      show ?thesis
      proof (cases "map_of (category_counts st) (show_opt bc)")
        case None
        with assms b True Inr show ?thesis by (auto simp: categorize_def)
      next
        case (Some n)
        with assms b True Inr
        have "apply_change c dry_run st playlist (show_opt bc) new n s = (r, s')"
          by (simp add: categorize_def)
        then show ?thesis by blast
      qed
    qed
  qed
qed

lemma categorize_calls:
  assumes "categorize c dry_run style st playlist all_genres s = (r, s')"
  shows "extends (\<lambda>cl. \<exists>m. cl = ChangePlaylistDetails (pl_id playlist) m) s s'"
  using categorize_cases[OF assms]
proof (elim disjE conjE exE)
  assume "s' = s" and "r = Inr (skip st)"
  then show ?thesis by (simp add: extends_refl)
next
  fix e
  assume "s' = s" and "r = Inl e"
  then show ?thesis by (simp add: extends_refl)
next
  fix best new n
  assume a: "apply_change c dry_run st playlist best new n s = (r, s')"
  from apply_change_calls[OF a] show ?thesis .
qed

lemma categorize_changes:
  assumes "categorize c dry_run style st playlist all_genres s = (Inr st', s')"
    and "ch \<in> set (changes st')"
  shows "ch \<in> set (changes st)
         \<or> (change_playlist_id ch = pl_id playlist \<and> original_name ch = pl_name playlist)"
  using categorize_cases[OF assms(1)]
proof (elim disjE conjE exE)
  assume "Inr st' = Inr (skip st)"
  with assms(2) show ?thesis by (simp add: skip_def)
next
  fix e :: error
  assume "(Inr st' :: error + librarian_state) = Inl e"
  then show ?thesis by simp
next
  fix best new n
  assume a: "apply_change c dry_run st playlist best new n s = (Inr st', s')"
  from apply_change_changes[OF a assms(2)] show ?thesis .
qed

lemma get_artists_for_tracks_calls:
  assumes "get_artists_for_tracks c ids s = (r, s')"
  shows "extends (librarian_call pls) s s'"
proof -
  obtain r1 s1 where l: "get_artists_for_tracks_loop c (batches 50 ids) [] s = (r1, s1)"
    by (cases "get_artists_for_tracks_loop c (batches 50 ids) [] s")
  with assms have "s' = s1"
    by (cases r1) (simp_all add: get_artists_for_tracks_def and_then_def return_def)
  with l have "extends (\<lambda>cl. \<exists>ids. cl = SpTracks ids) s s'"
    using extends_tracks_loop by blast
  then show ?thesis
    by (rule extends_mono) (simp add: librarian_call_def)
qed

lemma get_artists_genres_calls:
  assumes "get_artists_genres c ids s = (r, s')"
  shows "extends (librarian_call pls) s s'"
proof -
  from assms have "extends (\<lambda>cl. \<exists>ids. cl = SpArtists ids) s s'"
    unfolding get_artists_genres_def by (rule extends_genres_loop)
  then show ?thesis
    by (rule extends_mono) (simp add: librarian_call_def)
qed

lemma categorize_librarian_calls:
  assumes "categorize c dry_run style st playlist all_genres s = (r, s')"
    and "playlist \<in> set pls"
  shows "extends (librarian_call pls) s s'"
proof -
  have "librarian_call pls cl" if "\<exists>m. cl = ChangePlaylistDetails (pl_id playlist) m" for cl
    using that assms(2) unfolding librarian_call_def by blast
  with categorize_calls[OF assms(1)] show ?thesis
    by (rule extends_mono)
qed

lemma librarian_step_effect:
  assumes run: "librarian_step c dry_run style st playlist s = (r, s')"
    and mem: "playlist \<in> set pls"
  shows "extends (librarian_call pls) s s'
         \<and> (\<forall>st'. r = Inr st' \<longrightarrow>
               (\<forall>ch \<in> set (changes st'). ch \<in> set (changes st) \<or> change_of pls ch))"
proof (cases "list_ex (\<lambda>cat. prefix cat (pl_name playlist)) (map fst GENRE_CATEGORIES)")
  case True
  with run have "s' = s" "r = Inr (skip st)"
    by (simp_all add: librarian_step_def Let_def)
  then show ?thesis by (simp add: extends_refl skip_def)
next
  case named: False
  obtain r1 s1 where i1: "invoke (GetPlaylistTracks (pl_id playlist))
                            (get_playlist_tracks c (pl_id playlist)) s = (r1, s1)"
    by (cases "invoke (GetPlaylistTracks (pl_id playlist)) (get_playlist_tracks c (pl_id playlist)) s")
  have "librarian_call pls (GetPlaylistTracks (pl_id playlist))"
    using mem unfolding librarian_call_def by blast
  then have e1: "extends (librarian_call pls) s s1"
    by (rule extends_invoke[OF i1])
  have skipped: ?thesis if "s' = s2" "r = Inr (skip st)" "extends (librarian_call pls) s s2" for s2
    using that by (simp add: skip_def)
  show ?thesis
  proof (cases r1)
    case (Inl e)
    with run named i1 have "s' = s1" "r = Inr (skip st)"
      by (simp_all add: librarian_step_def Let_def)
    then show ?thesis using e1 by (rule skipped)
  next
    case (Inr items)
    note items = Inr
    show ?thesis
    proof (cases "take 30 items = [] \<or> item_ids (take 30 items) = []")
      case True
      with run named i1 items have "(r, s') = (Inr (skip st), s1)"
        by (auto simp: librarian_step_def Let_def split: if_splits)
      then have "s' = s1" "r = Inr (skip st)" by simp_all
      then show ?thesis using e1 by (rule skipped)
    next
      case nonempty: False
      obtain r2 s2 where i2: "get_artists_for_tracks c (item_ids (take 30 items)) s1 = (r2, s2)"
        by (cases "get_artists_for_tracks c (item_ids (take 30 items)) s1")
      have e2: "extends (librarian_call pls) s s2"
        using e1 get_artists_for_tracks_calls[OF i2] by (rule extends_trans)
      show ?thesis
      proof (cases r2)
        case (Inl e)
        with run named i1 items nonempty i2 have "s' = s2" "r = Inr (skip st)"
          by (simp_all add: librarian_step_def Let_def)
        then show ?thesis using e2 by (rule skipped)
      next
        case (Inr artist_ids)
        note artists = Inr
        show ?thesis
        proof (cases "artist_ids = []")
          case True
          with run named i1 items nonempty i2 artists have "s' = s2" "r = Inr (skip st)"
            by (simp_all add: librarian_step_def Let_def)
          then show ?thesis using e2 by (rule skipped)
        next
          case some: False
          obtain r3 s3 where i3: "get_artists_genres c artist_ids s2 = (r3, s3)"
            by (cases "get_artists_genres c artist_ids s2")
          have e3: "extends (librarian_call pls) s s3"
            using e2 get_artists_genres_calls[OF i3] by (rule extends_trans)
          show ?thesis
          proof (cases r3)
            case (Inl e)
            with run named i1 items nonempty i2 artists some i3 have "s' = s3" "r = Inr (skip st)"
              by (simp_all add: librarian_step_def Let_def)
            then show ?thesis using e3 by (rule skipped)
          next
            case (Inr artist_genres)
            with run named i1 items nonempty i2 artists some i3
            have cat: "categorize c dry_run style st playlist (concat (map snd artist_genres)) s3
                         = (r, s')"
              by (simp add: librarian_step_def Let_def)
            have "extends (librarian_call pls) s s'"
              using e3 categorize_librarian_calls[OF cat mem] by (rule extends_trans)
            moreover have "ch \<in> set (changes st) \<or> change_of pls ch"
              if "r = Inr st'" "ch \<in> set (changes st')" for st' ch
              using categorize_changes[OF cat[unfolded that(1)] that(2)] mem
              unfolding change_of_def by blast
            ultimately show ?thesis by blast
          qed
        qed
      qed
    qed
  qed
qed

lemma librarian_loop_effect:
  assumes "librarian_loop c dry_run style owned st s = (r, s')"
    and "set owned \<subseteq> set pls"
  shows "extends (librarian_call pls) s s'
         \<and> (\<forall>st'. r = Inr st' \<longrightarrow>
               (\<forall>ch \<in> set (changes st'). ch \<in> set (changes st) \<or> change_of pls ch))"
  using assms
proof (induction owned arbitrary: st s)
  case Nil
  then show ?case by (auto simp: extends_refl)
next
  case (Cons playlist rest)
  obtain r1 s1 where step: "librarian_step c dry_run style st playlist s = (r1, s1)"
    by (cases "librarian_step c dry_run style st playlist s")
  have mem: "playlist \<in> set pls" using Cons.prems(2) by simp
  note eff = librarian_step_effect[OF step mem]
  show ?case
  proof (cases r1)
    case (Inl e)
    with Cons.prems(1) step have "s' = s1" "r = Inl e" by simp_all
    with eff show ?thesis by simp
  next
    case (Inr st1)
    with Cons.prems(1) step have rest: "librarian_loop c dry_run style rest st1 s1 = (r, s')"
      by simp
    have sub: "set rest \<subseteq> set pls" using Cons.prems(2) by simp
    note ih = Cons.IH[OF rest sub]
    have "extends (librarian_call pls) s s'"
      using eff[THEN conjunct1] ih[THEN conjunct1] by (rule extends_trans)
    moreover have "ch \<in> set (changes st) \<or> change_of pls ch"
      if "r = Inr st'" "ch \<in> set (changes st')" for st' ch
    proof -
      from ih that have "ch \<in> set (changes st1) \<or> change_of pls ch" by blast
      moreover have "\<forall>ch \<in> set (changes st1). ch \<in> set (changes st) \<or> change_of pls ch"
        using eff Inr by blast
      ultimately show ?thesis by blast
    qed
    ultimately show ?thesis by blast
  qed
qed

text \<open>
  C10. After the library and the user's id are fetched, whatever the run replies: every
  call that fetches a playlist's tracks or renames a playlist names the id of a playlist
  whose owner is the current user. When the run returns a result, the number of playlists
  analysed is the number of owned playlists, and every recorded change (with its detected
  category) carries the id and the name of an owned playlist.
\<close>

theorem librarian_touches_owned_playlists_only:
  "\<forall>all_playlists s1 user_id s2 reply s'.
     invoke GetAllPlaylists (get_all_playlists c) s = (Inr all_playlists, s1)
     \<and> invoke CurrentUser (current_user_id c) s1 = (Inr user_id, s2)
     \<and> playlist_librarian c arguments s = (reply, s')
     \<longrightarrow> (\<exists>new. snd s' = snd s2 @ new
            \<and> (\<forall>cl \<in> set new. \<forall>pid.
                  (cl = GetPlaylistTracks pid \<or> (\<exists>n. cl = ChangePlaylistDetails pid n))
                  \<longrightarrow> (\<exists>p \<in> set all_playlists. pl_owner_id p = user_id \<and> pl_id p = pid)))
         \<and> (\<forall>r. reply = Json r \<longrightarrow>
               playlists_analyzed r = length (filter (\<lambda>p. pl_owner_id p = user_id) all_playlists)
             \<and> (\<forall>ch \<in> set (result_changes r).
                   \<exists>p \<in> set all_playlists. pl_owner_id p = user_id
                     \<and> change_playlist_id ch = pl_id p \<and> original_name ch = pl_name p))"
proof (intro allI impI, elim conjE)
  fix all_playlists s1 user_id s2 reply s'
  assume i1: "invoke GetAllPlaylists (get_all_playlists c) s = (Inr all_playlists, s1)"
    and i2: "invoke CurrentUser (current_user_id c) s1 = (Inr user_id, s2)"
    and run: "playlist_librarian c arguments s = (reply, s')"
  define dry_run where "dry_run = get_or True (dry_run_arg arguments)"
  define style where "style = get_or ''emoji'' (category_style_arg arguments)"
  define owned where "owned = owned_playlists user_id all_playlists"
  define st0 where "st0 = \<lparr>changes = [],
      category_counts = map (\<lambda>cat. (cat, 0 :: nat)) (map fst GENRE_CATEGORIES), skipped = 0\<rparr>"
  obtain r3 s3 where loop: "librarian_loop c dry_run style owned st0 s2 = (r3, s3)"
    by (cases "librarian_loop c dry_run style owned st0 s2")
  have sub: "set owned \<subseteq> set owned" by simp
  note eff = librarian_loop_effect[OF loop sub]
  have s3: "s' = s3"
    using run i1 i2 loop
    by (cases r3)
       (simp_all add: playlist_librarian_def playlist_librarian_body_def handle_def and_then_def
          return_def Let_def dry_run_def style_def owned_def st0_def)
  have reply: "playlists_analyzed r = length owned \<and> result_changes r = changes st"
    if "reply = Json r" "r3 = Inr st" for r st
    using run i1 i2 loop that
    by (auto simp: playlist_librarian_def playlist_librarian_body_def handle_def and_then_def
          return_def Let_def dry_run_def style_def owned_def st0_def)
  have json: "\<exists>st. r3 = Inr st" if "reply = Json r" for r
    using run i1 i2 loop that
    by (cases r3)
       (simp_all add: playlist_librarian_def playlist_librarian_body_def handle_def and_then_def
          return_def Let_def dry_run_def style_def owned_def st0_def)
  have own: "\<exists>p \<in> set all_playlists. pl_owner_id p = user_id \<and> pl_id p = pl_id q"
    if "q \<in> set owned" for q
    using that unfolding owned_def owned_playlists_def by auto
  from eff obtain new where new: "snd s3 = snd s2 @ new" "\<forall>cl \<in> set new. librarian_call owned cl"
    unfolding extends_def by blast
  have calls: "\<forall>cl \<in> set new. \<forall>pid.
                  (cl = GetPlaylistTracks pid \<or> (\<exists>n. cl = ChangePlaylistDetails pid n))
                  \<longrightarrow> (\<exists>p \<in> set all_playlists. pl_owner_id p = user_id \<and> pl_id p = pid)"
  proof (intro ballI allI impI)
    fix cl pid
    assume cl: "cl \<in> set new"
      and k: "cl = GetPlaylistTracks pid \<or> (\<exists>n. cl = ChangePlaylistDetails pid n)"
    from new(2) cl have "librarian_call owned cl" by blast
    with k obtain q where "q \<in> set owned" "pl_id q = pid"
      unfolding librarian_call_def by auto
    with own show "\<exists>p \<in> set all_playlists. pl_owner_id p = user_id \<and> pl_id p = pid"
      by blast
  qed
  have res: "playlists_analyzed r = length (filter (\<lambda>p. pl_owner_id p = user_id) all_playlists)
             \<and> (\<forall>ch \<in> set (result_changes r).
                   \<exists>p \<in> set all_playlists. pl_owner_id p = user_id
                     \<and> change_playlist_id ch = pl_id p \<and> original_name ch = pl_name p)"
    if j: "reply = Json r" for r
  proof -
    from json[OF j] obtain st where st: "r3 = Inr st" by blast
    from reply[OF j st] have a: "playlists_analyzed r = length owned" "result_changes r = changes st"
      by simp_all
    have "change_of owned ch" if "ch \<in> set (changes st)" for ch
      using eff st that by (auto simp: st0_def)
    then have "\<exists>p \<in> set all_playlists. pl_owner_id p = user_id
                 \<and> change_playlist_id ch = pl_id p \<and> original_name ch = pl_name p"
      if "ch \<in> set (changes st)" for ch
      using that unfolding change_of_def owned_def owned_playlists_def by fastforce
    with a show ?thesis by (simp add: owned_def owned_playlists_def)
  qed
  from new(1) calls res s3
  show "(\<exists>new. snd s' = snd s2 @ new
            \<and> (\<forall>cl \<in> set new. \<forall>pid.
                  (cl = GetPlaylistTracks pid \<or> (\<exists>n. cl = ChangePlaylistDetails pid n))
                  \<longrightarrow> (\<exists>p \<in> set all_playlists. pl_owner_id p = user_id \<and> pl_id p = pid)))
         \<and> (\<forall>r. reply = Json r \<longrightarrow>
               playlists_analyzed r = length (filter (\<lambda>p. pl_owner_id p = user_id) all_playlists)
             \<and> (\<forall>ch \<in> set (result_changes r).
                   \<exists>p \<in> set all_playlists. pl_owner_id p = user_id
                     \<and> change_playlist_id ch = pl_id p \<and> original_name ch = pl_name p))"
    by blast
qed

lemma ex_librarian_run:
  "playlist_librarian librarian_client librarian_apply_args ((), [])
     = (Json ex_librarian_result, ((), ex_librarian_calls))"
  by code_simp

lemma ex_librarian_fetches:
  "invoke GetAllPlaylists (get_all_playlists librarian_client) ((), [])
     = (Inr ex_playlists, ((), [GetAllPlaylists]))"
  "invoke CurrentUser (current_user_id librarian_client) ((), [GetAllPlaylists])
     = (Inr ''me'', ((), [GetAllPlaylists, CurrentUser]))"
  by code_simp+

theorem librarian_touches_owned_playlists_only_witness:
  "invoke GetAllPlaylists (get_all_playlists librarian_client) ((), [])
     = (Inr ex_playlists, ((), [GetAllPlaylists]))
   \<and> invoke CurrentUser (current_user_id librarian_client) ((), [GetAllPlaylists])
     = (Inr ''me'', ((), [GetAllPlaylists, CurrentUser]))
   \<and> playlist_librarian librarian_client librarian_apply_args ((), [])
     = (Json ex_librarian_result, ((), ex_librarian_calls))
   \<and> playlists_analyzed ex_librarian_result
     = length (filter (\<lambda>p. pl_owner_id p = ''me'') ex_playlists)"
proof -
  note all = librarian_touches_owned_playlists_only
    [where c = librarian_client and arguments = librarian_apply_args and s = "((), [])",
     rule_format,
     OF conjI[OF ex_librarian_fetches(1) conjI[OF ex_librarian_fetches(2) ex_librarian_run]]]
  from all[THEN conjunct2, rule_format, OF refl, THEN conjunct1]
  have "playlists_analyzed ex_librarian_result
          = length (filter (\<lambda>p. pl_owner_id p = ''me'') ex_playlists)" .
  with ex_librarian_fetches ex_librarian_run show ?thesis by (intro conjI)
qed

section \<open>Discover: the per-artist cap of the genre-driven stage\<close>

lemma accept_genre_track_skip:
  "tr_id track \<in> seen_track_ids g \<or> tr_id track \<in> ex \<or> capped g track
     \<Longrightarrow> accept_genre_track ex genre g track = g"
  by (auto simp: accept_genre_track_def Let_def capped_def)

lemma accept_genre_track_take:
  assumes "tr_id track \<notin> seen_track_ids g" "tr_id track \<notin> ex" "\<not> capped g track"
  shows "\<exists>new. recommendations (accept_genre_track ex genre g track) = recommendations g @ [new]
           \<and> rec_artist_id new = primary_artist_id track
           \<and> rec_id new = tr_id track
           \<and> rec_popularity new = popularity_or 0 track
           \<and> rec_source_genre new = genre"
    and "seen_track_ids (accept_genre_track ex genre g track) = insert (tr_id track) (seen_track_ids g)"
    and "artist_track_counts (accept_genre_track ex genre g track) =
           (if truthy (primary_artist_id track)
            then (artist_track_counts g)
                   (show_opt (primary_artist_id track)
                      \<mapsto> count_of (artist_track_counts g) (show_opt (primary_artist_id track)) + 1)
            else artist_track_counts g)"
  using assms by (auto simp: accept_genre_track_def Let_def capped_def)

lemma truthy_show_opt: "truthy v \<Longrightarrow> v = Some (show_opt v)"
  by (cases v) (simp_all add: truthy_def show_opt_def)

lemma truthy_iff: "truthy v \<longleftrightarrow> (\<exists>a. a \<noteq> [] \<and> v = Some a)"
  by (cases v) (simp_all add: truthy_def)

lemma by_artist_snoc:
  "by_artist a (recs @ [new]) = by_artist a recs @ (if rec_artist_id new = Some a then [new] else [])"
  by (simp add: by_artist_def)

text \<open>How one accepted or skipped track changes the count of the artist \<open>a\<close>.\<close>

lemma accept_genre_track_count:
  assumes a: "a \<noteq> []"
  shows "length (by_artist a (recommendations (accept_genre_track ex genre g track)))
           = length (by_artist a (recommendations g))
             + (if tr_id track \<notin> seen_track_ids g \<and> tr_id track \<notin> ex
                   \<and> primary_artist_id track = Some a \<and> count_of (artist_track_counts g) a < 3
                then 1 else 0)"
    and "count_of (artist_track_counts (accept_genre_track ex genre g track)) a
           = count_of (artist_track_counts g) a
             + (if tr_id track \<notin> seen_track_ids g \<and> tr_id track \<notin> ex
                   \<and> primary_artist_id track = Some a \<and> count_of (artist_track_counts g) a < 3
                then 1 else 0)"
proof -
  let ?aid = "primary_artist_id track"
  let ?g' = "accept_genre_track ex genre g track"
  let ?hit = "tr_id track \<notin> seen_track_ids g \<and> tr_id track \<notin> ex
                   \<and> ?aid = Some a \<and> count_of (artist_track_counts g) a < 3"
  have both: "length (by_artist a (recommendations ?g'))
           = length (by_artist a (recommendations g)) + (if ?hit then 1 else 0)
      \<and> count_of (artist_track_counts ?g') a
           = count_of (artist_track_counts g) a + (if ?hit then 1 else 0)"
  proof (cases "tr_id track \<in> seen_track_ids g \<or> tr_id track \<in> ex \<or> capped g track")
    case True
    then have same: "?g' = g" by (rule accept_genre_track_skip)
    have "\<not> ?hit"
    proof
      assume h: ?hit
      then have "truthy ?aid" "show_opt ?aid = a" using a by (simp_all add: truthy_def show_opt_def)
      with h have "\<not> capped g track" by (simp add: capped_def)
      with True h show False by blast
    qed
    with same show ?thesis by simp
  next
    case False
    then have f: "tr_id track \<notin> seen_track_ids g" "tr_id track \<notin> ex" "\<not> capped g track"
      by blast+
    from accept_genre_track_take(1)[OF f, of genre] obtain new
      where recs: "recommendations ?g' = recommendations g @ [new]"
        and new: "rec_artist_id new = ?aid"
      by blast
    note counts = accept_genre_track_take(3)[OF f, of genre]
    show ?thesis
    proof (cases "?aid = Some a")
      case True
      then have t: "truthy ?aid" "show_opt ?aid = a" using a by (simp_all add: truthy_def show_opt_def)
      with f(3) have lt: "count_of (artist_track_counts g) a < 3" by (simp add: capped_def)
      have "count_of (artist_track_counts ?g') a = count_of (artist_track_counts g) a + 1"
        unfolding counts using t by (simp add: count_of_def)
      moreover have "length (by_artist a (recommendations ?g')) = length (by_artist a (recommendations g)) + 1"
        unfolding recs by_artist_snoc using new True by simp
      ultimately show ?thesis using True lt f by simp
    next
      case False
      have "count_of (artist_track_counts ?g') a = count_of (artist_track_counts g) a"
      proof (cases "truthy ?aid")
        case True
        then have "?aid = Some (show_opt ?aid)" by (rule truthy_show_opt)
        with False have "show_opt ?aid \<noteq> a" by auto
        then show ?thesis unfolding counts using True by (simp add: count_of_def)
      next
        case False
        then show ?thesis unfolding counts by simp
      qed
      moreover have "length (by_artist a (recommendations ?g')) = length (by_artist a (recommendations g))"
        unfolding recs by_artist_snoc using new False by simp
      ultimately show ?thesis using False by simp
    qed
  qed
  from both show "length (by_artist a (recommendations ?g'))
           = length (by_artist a (recommendations g)) + (if ?hit then 1 else 0)" by (rule conjunct1)
  from both show "count_of (artist_track_counts ?g') a
           = count_of (artist_track_counts g) a + (if ?hit then 1 else 0)" by (rule conjunct2)
qed

lemma counted_accept_genre_track:
  assumes "counted g"
  shows "counted (accept_genre_track ex genre g track)"
  unfolding counted_def
proof (intro allI impI)
  fix a :: string assume a: "a \<noteq> []"
  from assms a have inv: "length (by_artist a (recommendations g)) = count_of (artist_track_counts g) a"
    "count_of (artist_track_counts g) a \<le> 3"
    unfolding counted_def by blast+
  show "length (by_artist a (recommendations (accept_genre_track ex genre g track)))
          = count_of (artist_track_counts (accept_genre_track ex genre g track)) a
        \<and> count_of (artist_track_counts (accept_genre_track ex genre g track)) a \<le> 3"
    unfolding accept_genre_track_count[OF a] using inv by simp
qed

lemma counted_foldl:
  "counted g \<Longrightarrow> counted (foldl (accept_genre_track ex genre) g tracks)"
  by (induction tracks arbitrary: g) (simp_all add: counted_accept_genre_track)

lemma counted_genre_stage:
  "counted g \<Longrightarrow> counted (fst (genre_stage c ex year_range genres g s))"
proof (induction genres arbitrary: g s)
  case Nil
  then show ?case by simp
next
  case (Cons genre rest)
  obtain r1 s1 where i: "invoke (SearchByGenre genre year_range 20)
                            (search_by_genre c genre year_range 20) s = (r1, s1)"
    by (cases "invoke (SearchByGenre genre year_range 20) (search_by_genre c genre year_range 20) s")
  show ?case
  proof (cases r1)
    case (Inl e)
    with i Cons show ?thesis by simp
  next
    case (Inr tracks)
    with i Cons.IH[OF counted_foldl[OF Cons.prems]] show ?thesis by simp
  qed
qed

lemma counted_empty: "counted empty_generation"
  by (simp add: counted_def empty_generation_def by_artist_def count_of_def)

lemma seen_accept_genre_track:
  "seen_track_ids (accept_genre_track ex genre g track) \<subseteq> insert (tr_id track) (seen_track_ids g)"
  by (auto simp: accept_genre_track_def Let_def)

lemma genre_search_count:
  assumes "a \<noteq> []" and "distinct (map tr_id tracks)"
    and "\<forall>t \<in> set tracks. tr_id t \<notin> seen_track_ids g \<and> tr_id t \<notin> ex"
  shows "length (by_artist a (recommendations (foldl (accept_genre_track ex genre) g tracks)))
           = length (by_artist a (recommendations g))
             + min (length (filter (\<lambda>t. primary_artist_id t = Some a) tracks))
                   (3 - count_of (artist_track_counts g) a)"
  using assms(2,3)
proof (induction tracks arbitrary: g)
  case Nil
  show ?case by simp
next
  case (Cons t ts)
  let ?g' = "accept_genre_track ex genre g t"
  have fresh: "tr_id t \<notin> seen_track_ids g" "tr_id t \<notin> ex"
    using Cons.prems(2) by simp_all
  have d: "distinct (map tr_id ts)" using Cons.prems(1) by simp
  have rest: "\<forall>u \<in> set ts. tr_id u \<notin> seen_track_ids ?g' \<and> tr_id u \<notin> ex"
  proof
    fix u assume u: "u \<in> set ts"
    then have "tr_id u \<in> tr_id ` set ts" by (rule imageI)
    moreover have "tr_id t \<notin> tr_id ` set ts" using Cons.prems(1) by simp
    ultimately have "tr_id u \<noteq> tr_id t" by metis
    moreover have "tr_id u \<notin> seen_track_ids g" "tr_id u \<notin> ex" using Cons.prems(2) u by simp_all
    ultimately show "tr_id u \<notin> seen_track_ids ?g' \<and> tr_id u \<notin> ex"
      using seen_accept_genre_track[of ex genre g t] by auto
  qed
  note ih = Cons.IH[OF d rest]
  define delta :: nat where
    "delta = (if primary_artist_id t = Some a \<and> count_of (artist_track_counts g) a < 3 then 1 else 0)"
  have len: "length (by_artist a (recommendations ?g')) = length (by_artist a (recommendations g)) + delta"
    and cnt: "count_of (artist_track_counts ?g') a = count_of (artist_track_counts g) a + delta"
    unfolding accept_genre_track_count[OF assms(1)] delta_def using fresh by simp_all
  have step: "length (by_artist a (recommendations (foldl (accept_genre_track ex genre) ?g' ts)))
          = length (by_artist a (recommendations g)) + delta
            + min (length (filter (\<lambda>t. primary_artist_id t = Some a) ts))
                  (3 - (count_of (artist_track_counts g) a + delta))"
    using ih unfolding len cnt .
  have arith: "delta + min (length (filter (\<lambda>t. primary_artist_id t = Some a) ts))
                  (3 - (count_of (artist_track_counts g) a + delta))
             = min (length (filter (\<lambda>t. primary_artist_id t = Some a) (t # ts)))
                   (3 - count_of (artist_track_counts g) a)"
    unfolding delta_def by auto
  show ?case using step arith by simp
qed

lemma accept_top_track_uncapped:
  assumes "tr_id track \<notin> seen_track_ids g" "tr_id track \<notin> ex"
  shows "length (by_artist (ar_id artist) (recommendations (accept_top_track ex artist g track)))
           = Suc (length (by_artist (ar_id artist) (recommendations g)))"
  using assms by (simp add: accept_top_track_def Let_def by_artist_def)

text \<open>
  C4 (amended). Over the whole genre-driven stage, started with empty working sets, no
  non-empty artist id has more than 3 candidates. The similar-artist stage has no cap: a
  top track that is neither seen nor excluded is accepted whatever its artist has
  already. For one genre search whose tracks have different ids, none seen or excluded,
  the number of accepted tracks of a non-empty artist id is the smaller of the number of
  its tracks in the search and of what is left of 3 after the earlier searches: exactly 3
  of 4 when the artist had none before.
\<close>

theorem genre_stage_caps_artists_across_searches:
  "(\<forall>a. a \<noteq> [] \<longrightarrow>
      length (by_artist a (recommendations
        (fst (genre_stage c exclude_ids year_range seed_genres empty_generation s)))) \<le> 3)
   \<and> (\<forall>(g :: generation) (artist :: artist) (track :: track).
        tr_id track \<notin> seen_track_ids g \<and> tr_id track \<notin> exclude_ids \<longrightarrow>
        length (by_artist (ar_id artist) (recommendations (accept_top_track exclude_ids artist g track)))
          = Suc (length (by_artist (ar_id artist) (recommendations g))))
   \<and> (\<forall>(g :: generation) genre (tracks :: track list) a.
        a \<noteq> [] \<and> distinct (map tr_id tracks)
        \<and> (\<forall>t \<in> set tracks. tr_id t \<notin> seen_track_ids g \<and> tr_id t \<notin> exclude_ids)
        \<longrightarrow> length (by_artist a (recommendations (foldl (accept_genre_track exclude_ids genre) g tracks)))
              = length (by_artist a (recommendations g))
                + min (length (tracks_of_artist a tracks)) (3 - count_of (artist_track_counts g) a))"
proof (intro conjI allI impI)
  fix a :: string assume a: "a \<noteq> []"
  have "counted (fst (genre_stage c exclude_ids year_range seed_genres empty_generation s))"
    using counted_empty by (rule counted_genre_stage)
  with a show "length (by_artist a (recommendations
        (fst (genre_stage c exclude_ids year_range seed_genres empty_generation s)))) \<le> 3"
    unfolding counted_def by simp
next
  fix g :: generation and artist :: artist and track :: track
  assume "tr_id track \<notin> seen_track_ids g \<and> tr_id track \<notin> exclude_ids"
  then show "length (by_artist (ar_id artist) (recommendations (accept_top_track exclude_ids artist g track)))
          = Suc (length (by_artist (ar_id artist) (recommendations g)))"
    by (simp add: accept_top_track_uncapped)
next
  fix g :: generation and genre and tracks :: "track list" and a :: string
  assume h: "a \<noteq> [] \<and> distinct (map tr_id tracks)
        \<and> (\<forall>t \<in> set tracks. tr_id t \<notin> seen_track_ids g \<and> tr_id t \<notin> exclude_ids)"
  then have "a \<noteq> []" "distinct (map tr_id tracks)"
    "\<forall>t \<in> set tracks. tr_id t \<notin> seen_track_ids g \<and> tr_id t \<notin> exclude_ids"
    by blast+
  from genre_search_count[OF this]
  show "length (by_artist a (recommendations (foldl (accept_genre_track exclude_ids genre) g tracks)))
              = length (by_artist a (recommendations g))
                + min (length (tracks_of_artist a tracks)) (3 - count_of (artist_track_counts g) a)"
    unfolding tracks_of_artist_def .
qed

lemma indie_rock_facts:
  "length indie_rock_tracks = 20"
  "distinct (map tr_id indie_rock_tracks)"
  "map tr_id (tracks_of_artist ''A1'' indie_rock_tracks) = [''g01'', ''g05'', ''g09'', ''g13'']"
  by code_simp+

lemma electropop_facts:
  "length electropop_tracks = 20"
  "distinct (map tr_id electropop_tracks)"
  "map tr_id (tracks_of_artist ''A1'' electropop_tracks) = [''e01'', ''e05'', ''e09'', ''e13'']"
  "set (map tr_id electropop_tracks) \<inter> seen_track_ids after_indie_rock = {}"
  by code_simp+

lemma after_indie_rock_run:
  "map rec_id (by_artist ''A1'' (recommendations after_indie_rock)) = [''g01'', ''g05'', ''g09'']"
  by code_simp

lemma after_both_genres_run:
  "map rec_id (by_artist ''A1'' (recommendations after_both_genres)) = [''g01'', ''g05'', ''g09'']"
  by code_simp

lemma anonymous_run:
  "map rec_id (by_artist [] (recommendations
     (foldl (accept_genre_track {} ''indie rock'') empty_generation anonymous_tracks)))
   = [''n1'', ''n2'', ''n3'', ''n4'']"
  by code_simp

lemma fourth_top_track_fresh:
  "tr_id (ex_track ''a1'' ''A1'' 60) \<notin> seen_track_ids after_indie_rock
   \<and> tr_id (ex_track ''a1'' ''A1'' 60) \<notin> {}"
  by code_simp

lemma first_search_fresh:
  "\<forall>t \<in> set indie_rock_tracks. tr_id t \<notin> seen_track_ids empty_generation \<and> tr_id t \<notin> {}"
  by (simp add: empty_generation_def)

theorem genre_stage_caps_artists_across_searches_witness:
  "length indie_rock_tracks = 20
   \<and> map tr_id (tracks_of_artist ''A1'' indie_rock_tracks) = [''g01'', ''g05'', ''g09'', ''g13'']
   \<and> length (by_artist ''A1'' (recommendations
        (foldl (accept_genre_track {} ''indie rock'') empty_generation indie_rock_tracks))) = 3
   \<and> length (by_artist ''A1'' (recommendations after_both_genres)) \<le> 3
   \<and> length (by_artist ''A1'' (recommendations fourth_top_track)) = 4"
proof -
  note all = genre_stage_caps_artists_across_searches
    [where c = cap_client and exclude_ids = "{}" and year_range = "Some ''2015-2025''"
       and seed_genres = "[''indie rock'', ''electropop'']" and s = "((), [])"]
  have a: "''A1'' \<noteq> []" by simp
  have "length (by_artist ''A1'' (recommendations after_both_genres)) \<le> 3"
    unfolding after_both_genres_def
    using all[THEN conjunct1, rule_format, OF a] .
  moreover have "length (by_artist ''A1'' (recommendations fourth_top_track)) = 4"
  proof -
    have "ar_id (ex_artist ''A1'' [''indie rock'']) = ''A1''" by (simp add: ex_artist_def)
    with all[THEN conjunct2, THEN conjunct1, rule_format, OF fourth_top_track_fresh,
             of "ex_artist ''A1'' [''indie rock'']"]
    have "length (by_artist ''A1'' (recommendations fourth_top_track))
            = Suc (length (by_artist ''A1'' (recommendations after_indie_rock)))"
      unfolding fourth_top_track_def by simp
    also have "\<dots> = Suc (length (map rec_id (by_artist ''A1'' (recommendations after_indie_rock))))"
      by simp
    also have "\<dots> = 4" unfolding after_indie_rock_run by simp
    finally show ?thesis .
  qed
  moreover have "length (by_artist ''A1'' (recommendations
        (foldl (accept_genre_track {} ''indie rock'') empty_generation indie_rock_tracks))) = 3"
  proof -
    have n: "length (tracks_of_artist ''A1'' indie_rock_tracks) = 4"
    proof -
      have "length (map tr_id (tracks_of_artist ''A1'' indie_rock_tracks)) = 4"
        unfolding indie_rock_facts(3) by simp
      then show ?thesis by simp
    qed
    have z: "length (by_artist ''A1'' (recommendations empty_generation)) = 0"
      "count_of (artist_track_counts empty_generation) ''A1'' = 0"
      by (simp_all add: empty_generation_def by_artist_def count_of_def)
    from all[THEN conjunct2, THEN conjunct2, rule_format,
             OF conjI[OF a conjI[OF indie_rock_facts(2) first_search_fresh]], of "''indie rock''"]
    show ?thesis unfolding n z by simp
  qed
  ultimately show ?thesis using indie_rock_facts(1,3) by (intro conjI)
qed

text \<open>
  C4 as stated fails: a second genre search returns 20 tracks, 4 of them by A1, none
  excluded or seen, and none of the 4 is accepted, since A1 has 3 candidates from the
  first search. And four tracks whose artist id is the empty string are all accepted.
\<close>

theorem second_search_accepts_none_of_four_counterexample:
  "length electropop_tracks = 20
   \<and> map tr_id (tracks_of_artist ''A1'' electropop_tracks) = [''e01'', ''e05'', ''e09'', ''e13'']
   \<and> set (map tr_id electropop_tracks) \<inter> seen_track_ids after_indie_rock = {}
   \<and> map rec_id (by_artist ''A1'' (recommendations after_indie_rock)) = [''g01'', ''g05'', ''g09'']
   \<and> map rec_id (by_artist ''A1'' (recommendations after_both_genres)) = [''g01'', ''g05'', ''g09'']
   \<and> map rec_id (by_artist [] (recommendations
        (foldl (accept_genre_track {} ''indie rock'') empty_generation anonymous_tracks)))
      = [''n1'', ''n2'', ''n3'', ''n4'']"
  using electropop_facts(1,3,4) after_indie_rock_run after_both_genres_run anonymous_run
  by (intro conjI)

section \<open>The popularity used in ranking\<close>
















section \<open>Discover: ranking and truncation\<close>

text \<open>
  With a limit that is not negative the ranked list is the first \<open>limit\<close> candidates
  of the stable sort by distance to the seed popularity.
\<close>

lemma rank_nonnegative_limit:
  "0 \<le> limit \<Longrightarrow> rank seed_popularity limit recs
     = take (nat limit) (sort_key (score_track seed_popularity) recs)"
  by (simp add: rank_def slice_to_def)

lemma rank_negative_limit:
  "limit < 0 \<Longrightarrow> rank seed_popularity limit recs
     = take (length recs - nat (- limit)) (sort_key (score_track seed_popularity) recs)"
  by (simp add: rank_def slice_to_def)

lemma rank_sorted:
  "sorted (map (score_track seed_popularity) (rank seed_popularity limit recs))"
proof -
  have "sorted (map (score_track seed_popularity) (sort_key (score_track seed_popularity) recs))"
    by (rule sorted_sort_key)
  then have "sorted (take n (map (score_track seed_popularity)
                       (sort_key (score_track seed_popularity) recs)))" for n
    by (rule sorted_wrt_take)
  then show ?thesis
    by (simp add: rank_def slice_to_def take_map)
qed

lemma rank_stable:
  "filter (\<lambda>t. score_track seed_popularity t = k) (sort_key (score_track seed_popularity) recs)
     = filter (\<lambda>t. score_track seed_popularity t = k) recs"
  by (rule sort_key_stable)

lemma rank_length_nonnegative:
  "0 \<le> limit \<Longrightarrow> limit \<le> 50 \<Longrightarrow> length (rank seed_popularity limit recs) \<le> 50"
  by (simp add: rank_nonnegative_limit)

lemma limit_of_le: "limit_of arguments = Inr limit \<Longrightarrow> limit \<le> 50"
  by (auto simp: limit_of_def split: option.splits)

text \<open>
  C3. The ranking is the stable sort by distance to the seed popularity, cut by the slice
  \<open>[:limit]\<close> with \<open>limit = min(requested, 50)\<close>. For a requested limit of -1 the slice
  drops the last candidate only: of 60 candidates 59 are listed, more than the 50 the tool
  promises, where a requested limit of 60 lists 50 and one of 0 lists none.
\<close>

theorem negative_limit_lists_more_than_fifty:
  "limit_of (artist_seed_args (Some (- 1))) = Inr (- 1)
   \<and> listed_count (fst (discover wide_client (artist_seed_args (Some (- 1))) ((), []))) = Some 59
   \<and> listed_count (fst (discover wide_client (artist_seed_args (Some 60)) ((), []))) = Some 50
   \<and> listed_ids (fst (discover small_client (artist_seed_args None) ((), [])))
       = [''g1'', ''a1'', ''s1'', ''g2'']
   \<and> listed_ids (fst (discover small_client (artist_seed_args (Some (- 1))) ((), [])))
       = [''g1'', ''a1'', ''s1'']
   \<and> listed_ids (fst (discover small_client (artist_seed_args (Some 0)) ((), []))) = []"
  by code_simp

end
